(* ===== verification/Prelude.thy ===== *)
theory Prelude
  imports Main
begin

text \<open>
  Shared vocabulary of the ScriptCat runtime model: the error values that stand
  for the rejections and exceptions of the TypeScript code, the promise
  outcomes of the asynchronous handlers, and a model of the JavaScript
  \<^verbatim>\<open>Map\<close> (an association list with distinct keys in insertion order,
  as \<^verbatim>\<open>Map.prototype.forEach\<close> visits them) together with the lemmas
  every component uses about it.
\<close>

named_theorems jsmap_simps "evaluation and abstraction rules of the JavaScript Map model"

section \<open>Errors and outcomes\<close>

text \<open>
  Every \<^verbatim>\<open>throw\<close> and every rejected promise of the code is a value of
  \<open>error\<close>; the string is the message of the \<^verbatim>\<open>Error\<close> object where the
  code builds one. A handler's outcome is \<open>error + 'a\<close> (\<open>Inl\<close> is the
  rejection), and a promise that never settles is \<open>None\<close> where that can
  happen.
\<close>

datatype error =
    NotFoundError string
  | MalformedRuleError string
  | ResourceBuildError string
  | TransportError string
  | TypeError string

type_synonym 'a result = "error + 'a"

section \<open>The JavaScript Map\<close>

text \<open>
  \<^verbatim>\<open>m.set(k, v)\<close> replaces the value of a present key in place and appends a
  new key at the end; \<^verbatim>\<open>m.delete(k)\<close> removes it; \<^verbatim>\<open>m.get(k)\<close> is
  \<open>map_of\<close>.
\<close>

type_synonym ('k, 'v) jsmap = "('k \<times> 'v) list"

fun jm_set :: "'k \<Rightarrow> 'v \<Rightarrow> ('k, 'v) jsmap \<Rightarrow> ('k, 'v) jsmap" where
  "jm_set k v [] = [(k, v)]"
| "jm_set k v ((a, b) # ps) = (if a = k then (k, v) # ps else (a, b) # jm_set k v ps)"

definition jm_delete :: "'k \<Rightarrow> ('k, 'v) jsmap \<Rightarrow> ('k, 'v) jsmap" where
  "jm_delete k ps = filter (\<lambda>(a, _). a \<noteq> k) ps"

lemma map_of_jm_set [simp, jsmap_simps]: "map_of (jm_set k v ps) = (map_of ps)(k \<mapsto> v)"
  by (induction ps) (auto simp: fun_eq_iff)

lemma keys_jm_set [simp, jsmap_simps]:
  "map fst (jm_set k v ps) = (if k \<in> set (map fst ps) then map fst ps else map fst ps @ [k])"
  by (induction ps) (auto, force)

lemma distinct_jm_set [simp, intro]: "distinct (map fst ps) \<Longrightarrow> distinct (map fst (jm_set k v ps))"
  by simp

lemma map_of_jm_delete [simp, jsmap_simps]: "map_of (jm_delete k ps) = (map_of ps)(k := None)"
  by (induction ps) (auto simp: jm_delete_def fun_eq_iff)

lemma keys_jm_delete [simp, jsmap_simps]: "map fst (jm_delete k ps) = filter (\<lambda>a. a \<noteq> k) (map fst ps)"
  by (induction ps) (auto simp: jm_delete_def)

lemma distinct_jm_delete [simp, intro]: "distinct (map fst ps) \<Longrightarrow> distinct (map fst (jm_delete k ps))"
  by simp

lemma list_all_jm_set [intro]:
  "list_all P ps \<Longrightarrow> P (k, v) \<Longrightarrow> list_all P (jm_set k v ps)"
  by (induction ps) auto

lemma list_all_jm_delete [intro]: "list_all P ps \<Longrightarrow> list_all P (jm_delete k ps)"
  by (simp add: jm_delete_def list_all_iff)

lemma list_all_map_of: "list_all P ps \<Longrightarrow> map_of ps k = Some v \<Longrightarrow> P (k, v)"
  by (auto simp: list_all_iff dest: map_of_SomeD)

lemma set_jm_delete [jsmap_simps]: "set (jm_delete k ps) = {p \<in> set ps. fst p \<noteq> k}"
  by (auto simp: jm_delete_def)

lemma jm_delete_absent [simp]: "k \<notin> fst ` set ps \<Longrightarrow> jm_delete k ps = ps"
  by (induction ps) (auto simp: jm_delete_def)

lemma jm_set_present_in_place:
  "ps = xs @ (k, w) # ys \<Longrightarrow> k \<notin> fst ` set xs \<Longrightarrow> jm_set k v ps = xs @ (k, v) # ys"
  by (induction xs arbitrary: ps) auto

lemma jm_set_same: "map_of ps k = Some v \<Longrightarrow> jm_set k v ps = ps"
  by (induction ps) (auto split: if_splits)

lemma jm_set_absent_append: "k \<notin> fst ` set ps \<Longrightarrow> jm_set k v ps = ps @ [(k, v)]"
  by (induction ps) (auto simp: image_iff)

section \<open>Lists and sums\<close>

lemma sum_case_Inl_iff [simp]:
  "((case x of Inl e \<Rightarrow> Inl e | Inr a \<Rightarrow> f a) = Inl e') \<longleftrightarrow>
     (x = Inl e' \<or> (\<exists>a. x = Inr a \<and> f a = Inl e'))"
  by (cases x) auto

end
