(* ===== verification/Script.thy ===== *)
theory Script
  imports Prelude
begin

text \<open>
  The script record and the resource compiler. A \<^verbatim>\<open>Script\<close> of
  app/repo/scripts and the \<^verbatim>\<open>ScriptRunResouce\<close> built from it are one
  JavaScript object in the code (\<^verbatim>\<open>Object.assign(script)\<close> returns its
  argument, and page scripts are cast between the two types), so they are one
  record here: the fields that only a built resource carries are options,
  \<open>None\<close> on an object that was never built.
  \<open>buildScriptRunResource\<close> models runtime.ts lines 595--621; its external
  collaborators (value store, resource store, code compiler) are the fields of
  \<open>ext\<close>, and the random flag it draws is an argument.
\<close>

section \<open>Data model\<close>

datatype script_type = SCRIPT_TYPE_NORMAL | SCRIPT_TYPE_CRONTAB | SCRIPT_TYPE_BACKGROUND

datatype script_status = SCRIPT_STATUS_ENABLE | SCRIPT_STATUS_DISABLE

datatype run_status =
    SCRIPT_RUN_STATUS_RUNNING | SCRIPT_RUN_STATUS_COMPLETE
  | SCRIPT_RUN_STATUS_ERROR | SCRIPT_RUN_STATUS_RETRY

text \<open>Metadata: key to the ordered list of its values (\<^verbatim>\<open>{[key]: string[]}\<close>).\<close>

type_synonym metadata = "string \<rightharpoonup> string list"

type_synonym value_snapshot = "(string \<times> string) list"

type_synonym resource_snapshot = "(string \<times> string) list"

record script =
  sid :: nat
  uuid :: string
  name :: string
  code :: string
  metadata :: metadata
  selfMetadata :: "metadata option"
  config :: "string option"
  stype :: script_type
  status :: script_status
  runStatus :: "run_status option"
  createtime :: nat
  updatetime :: nat
  lastruntime :: nat
  rr_value :: "value_snapshot option"
  rr_resource :: "resource_snapshot option"
  rr_flag :: "string option"
  rr_sourceCode :: "string option"
  rr_grantMap :: "(string \<rightharpoonup> string) option"

text \<open>
  \<^verbatim>\<open>if (script.metadata.k) script.metadata.k.forEach(...)\<close> and
  \<^verbatim>\<open>script.metadata.k?.forEach(...)\<close>: the values of a key, none when absent.
\<close>

definition meta_list :: "metadata \<Rightarrow> string \<Rightarrow> string list" where
  "meta_list m k = (case m k of None \<Rightarrow> [] | Some xs \<Rightarrow> xs)"

text \<open>
  The sender of a message (\<^verbatim>\<open>MessageSender\<close> of app/message/message): the
  tab, frame and URL of a content page, or the tag of a non-page context.
\<close>

record msg_sender =
  tabId :: "nat option"
  frameId :: "nat option"
  url :: "string option"
  targetTag :: string

text \<open>The external collaborators of the resource compiler (spec section 6).\<close>

record ext =
  getScriptValues :: "script \<Rightarrow> value_snapshot result"
  getScriptResources :: "script \<Rightarrow> resource_snapshot result"
  compileScriptCode :: "script \<Rightarrow> string"
  compileInjectScript :: "script \<Rightarrow> string"
  dealScript :: "string \<Rightarrow> string"

section \<open>The resource compiler\<close>

text \<open>
  Lines 599--604: the self-configured metadata overrides the stored metadata
  key by key (a whole value list per key).
\<close>

definition merge_self_metadata :: "script \<Rightarrow> script" where
  "merge_self_metadata s =
     (case selfMetadata s of
        None \<Rightarrow> s
      | Some sm \<Rightarrow> s\<lparr>metadata := metadata s ++ sm\<rparr>)"

text \<open>Lines 614--618: \<^verbatim>\<open>grantMap[val] = "ok"\<close> for every granted API.\<close>

definition grant_map :: "string list \<Rightarrow> string \<rightharpoonup> string" where
  "grant_map gs = fold (\<lambda>v m. m(v \<mapsto> ''ok'')) gs Map.empty"

definition buildScriptRunResource :: "ext \<Rightarrow> string \<Rightarrow> script \<Rightarrow> script result" where
  "buildScriptRunResource ex fl s =
     (let s1 = merge_self_metadata s in
      case getScriptValues ex s1 of
        Inl e \<Rightarrow> Inl e
      | Inr v \<Rightarrow>
          (let s2 = s1\<lparr>rr_value := Some v\<rparr> in
           case getScriptResources ex s2 of
             Inl e \<Rightarrow> Inl e
           | Inr r \<Rightarrow>
               (let s3 = s2\<lparr>rr_resource := Some r, rr_flag := Some fl,
                             rr_sourceCode := Some (code s2)\<rparr>;
                    s4 = s3\<lparr>code := compileScriptCode ex s3\<rparr>
                in Inr (s4\<lparr>rr_grantMap := Some (grant_map (meta_list (metadata s4) ''grant''))\<rparr>))))"

section \<open>Concrete instances\<close>

text \<open>
  Collaborators that always succeed and leave the code as it is, and a page
  script with the given id and \<^verbatim>\<open>@match\<close> values: the inputs of the
  witnesses below.
\<close>

definition ext_ok :: ext where
  "ext_ok = \<lparr>getScriptValues = (\<lambda>_. Inr []), getScriptResources = (\<lambda>_. Inr []),
     compileScriptCode = code, compileInjectScript = code, dealScript = id\<rparr>"

definition ext_values_down :: ext where
  "ext_values_down = ext_ok\<lparr>getScriptValues := (\<lambda>_. Inl (ResourceBuildError ''values''))\<rparr>"

definition page_script :: "nat \<Rightarrow> string list \<Rightarrow> script" where
  "page_script i ms =
     \<lparr>sid = i, uuid = ''uuid'', name = ''page'', code = ''code'', metadata = [''match'' \<mapsto> ms],
      selfMetadata = None, config = None, stype = SCRIPT_TYPE_NORMAL,
      status = SCRIPT_STATUS_ENABLE, runStatus = None, createtime = 1, updatetime = 0,
      lastruntime = 0, rr_value = None, rr_resource = None, rr_flag = None,
      rr_sourceCode = None, rr_grantMap = None\<rparr>"

text \<open>A script whose own configuration overrides its \<^verbatim>\<open>@grant\<close> values.\<close>

definition overriding_script :: script where
  "overriding_script = (page_script 2 [])\<lparr>metadata := [''grant'' \<mapsto> [''GM_a'']],
     selfMetadata := Some [''grant'' \<mapsto> [''GM_b'', ''GM_c'']]\<rparr>"

section \<open>Lemmas\<close>

lemma meta_list_Some [simp]: "meta_list m k = xs \<Longrightarrow> m k = Some ys \<Longrightarrow> xs = ys"
  by (simp add: meta_list_def)

lemma fold_grant [simp]:
  "fold (\<lambda>v m. m(v \<mapsto> ''ok'')) gs m = (\<lambda>g. if g \<in> set gs then Some ''ok'' else m g)"
  by (induction gs arbitrary: m) (auto simp: fun_eq_iff)

lemma grant_map_apply: "grant_map gs g = (if g \<in> set gs then Some ''ok'' else None)"
  by (simp add: grant_map_def)

lemma dom_grant_map [simp]: "dom (grant_map gs) = set gs"
  by (auto simp: grant_map_apply split: if_splits)

lemma merge_self_metadata_fields [simp]:
  "sid (merge_self_metadata s) = sid s"
  "stype (merge_self_metadata s) = stype s"
  "status (merge_self_metadata s) = status s"
  "code (merge_self_metadata s) = code s"
  "metadata (merge_self_metadata s) =
     (case selfMetadata s of None \<Rightarrow> metadata s | Some sm \<Rightarrow> metadata s ++ sm)"
  by (simp_all add: merge_self_metadata_def split: option.splits)

text \<open>
  The compiler succeeds exactly when both store lookups succeed, and then
  returns the merged script with every run field filled.
\<close>

lemma buildScriptRunResource_Inr_iff:
  "buildScriptRunResource ex fl s = Inr r \<longleftrightarrow>
     (\<exists>v res. getScriptValues ex (merge_self_metadata s) = Inr v \<and>
        getScriptResources ex ((merge_self_metadata s)\<lparr>rr_value := Some v\<rparr>) = Inr res \<and>
        (let s3 = (merge_self_metadata s)\<lparr>rr_value := Some v, rr_resource := Some res,
                     rr_flag := Some fl, rr_sourceCode := Some (code s)\<rparr>;
             s4 = s3\<lparr>code := compileScriptCode ex s3\<rparr>
         in r = s4\<lparr>rr_grantMap := Some (grant_map (meta_list (metadata s4) ''grant''))\<rparr>))"
  by (auto simp: buildScriptRunResource_def Let_def split: sum.splits)

lemma buildScriptRunResource_Inl_iff:
  "buildScriptRunResource ex fl s = Inl e \<longleftrightarrow>
     getScriptValues ex (merge_self_metadata s) = Inl e \<or>
     (\<exists>v. getScriptValues ex (merge_self_metadata s) = Inr v \<and>
        getScriptResources ex ((merge_self_metadata s)\<lparr>rr_value := Some v\<rparr>) = Inl e)"
  by (auto simp: buildScriptRunResource_def Let_def split: sum.splits)

lemma buildScriptRunResource_fields:
  assumes "buildScriptRunResource ex fl s = Inr r"
  shows "sid r = sid s" "stype r = stype s" "status r = status s" "name r = name s"
    "metadata r = (case selfMetadata s of None \<Rightarrow> metadata s | Some sm \<Rightarrow> metadata s ++ sm)"
    "rr_flag r = Some fl" "rr_sourceCode r = Some (code s)"
    "rr_grantMap r = Some (grant_map (meta_list (metadata r) ''grant''))"
    "rr_value r \<noteq> None" "rr_resource r \<noteq> None"
  using assms by (auto simp: buildScriptRunResource_Inr_iff Let_def merge_self_metadata_def
      split: option.splits)

lemma ran_grant_map: "ran (grant_map gs) \<subseteq> {''ok''}"
  by (auto simp: ran_def grant_map_apply split: if_splits)

section \<open>Properties of the resource compiler\<close>

text \<open>
  C34. A built run resource carries the merged metadata, in which the
  script's own configuration replaces the stored values key by key; its
  grant map holds exactly the merged \<^verbatim>\<open>@grant\<close> values, each mapped to
  \<^verbatim>\<open>"ok"\<close>; it records the build's flag and the original source; and its
  code is the compiler's output on the script after the values, resources,
  flag and source have been attached (runtime.ts 595--621).
\<close>

theorem buildScriptRunResource_grants:
  assumes "buildScriptRunResource ex fl s = Inr r"
  shows "(\<forall>k. metadata r k = (case selfMetadata s of None \<Rightarrow> metadata s k
                              | Some sm \<Rightarrow> (case sm k of None \<Rightarrow> metadata s k | Some v \<Rightarrow> Some v))) \<and>
         (\<exists>gm. rr_grantMap r = Some gm \<and> dom gm = set (meta_list (metadata r) ''grant'') \<and> ran gm \<subseteq> {''ok''}) \<and>
         rr_flag r = Some fl \<and> rr_sourceCode r = Some (code s) \<and>
         code r = compileScriptCode ex (r\<lparr>code := code s, rr_grantMap := rr_grantMap s\<rparr>)"
proof (intro conjI allI)
  fix k
  show "metadata r k = (case selfMetadata s of None \<Rightarrow> metadata s k
                              | Some sm \<Rightarrow> (case sm k of None \<Rightarrow> metadata s k | Some v \<Rightarrow> Some v))"
    using buildScriptRunResource_fields(5) [OF assms] by (simp add: map_add_def split: option.splits)
next
  show "\<exists>gm. rr_grantMap r = Some gm \<and> dom gm = set (meta_list (metadata r) ''grant'') \<and> ran gm \<subseteq> {''ok''}"
    using buildScriptRunResource_fields(8) [OF assms] ran_grant_map by simp
next
  show "rr_flag r = Some fl" "rr_sourceCode r = Some (code s)"
    using buildScriptRunResource_fields(6,7) [OF assms] by simp_all
next
  show "code r = compileScriptCode ex (r\<lparr>code := code s, rr_grantMap := rr_grantMap s\<rparr>)"
    using assms by (auto simp: buildScriptRunResource_Inr_iff Let_def merge_self_metadata_def
        split: option.splits)
qed

theorem buildScriptRunResource_grants_witness:
  "\<exists>r gm. buildScriptRunResource ext_ok ''f'' overriding_script = Inr r \<and>
     rr_grantMap r = Some gm \<and> dom gm = {''GM_b'', ''GM_c''}"
proof -
  obtain r where e: "buildScriptRunResource ext_ok ''f'' overriding_script = Inr r"
    by (simp add: buildScriptRunResource_def ext_ok_def Let_def)
  have "metadata r ''grant'' = Some [''GM_b'', ''GM_c'']"
    using buildScriptRunResource_grants [OF e] by (simp add: overriding_script_def)
  moreover have "\<exists>gm. rr_grantMap r = Some gm \<and> dom gm = set (meta_list (metadata r) ''grant'')"
    using buildScriptRunResource_grants [OF e] by blast
  ultimately show ?thesis using e by (auto simp: meta_list_def)
qed

end
