(* ===== verification/Match.thy ===== *)
theory Match
  imports Script
begin

text \<open>
  The two URL matchers the runtime keeps, \<^verbatim>\<open>UrlMatch\<close> (for
  \<^verbatim>\<open>@match\<close>) and \<^verbatim>\<open>UrlInclude\<close> (for \<^verbatim>\<open>@include\<close>), with their
  exclusion rules (for \<^verbatim>\<open>@exclude\<close>). Their code lives in
  pkg/utils/match.ts, which is not part of the sources given, so this theory
  models the contract of spec section 4.1: \<open>add\<close> compiles one rule or fails
  with \<open>MalformedRuleError\<close>, \<open>del\<close> drops every rule and exclusion of a
  script, \<open>exclude\<close> adds a negative rule, \<open>match\<close> returns the scripts
  that one of their rules covers and none of their exclusions does.
  One generic matcher is parameterised by the rule language (a parser and a
  satisfaction test); the two instances are the Chrome-style match pattern
  (scheme, host with a leading wildcard, path glob) and the whole-URL glob.
  Regular-expression includes (\<^verbatim>\<open>/re/\<close>) and the per-URL result cache are
  not modelled.
\<close>

section \<open>Globs\<close>

text \<open>\<open>*\<close> stands for any string, every other character for itself.\<close>

fun glob :: "string \<Rightarrow> string \<Rightarrow> bool" where
  "glob [] s = (s = [])"
| "glob (c # p) [] = (c = CHR ''*'' \<and> glob p [])"
| "glob (c # p) (x # s) =
     (if c = CHR ''*'' then glob p (x # s) \<or> glob (c # p) s else c = x \<and> glob p s)"

text \<open>The language of a glob: the reference semantics of \<open>glob\<close>.\<close>

fun glob_lang :: "string \<Rightarrow> string set" where
  "glob_lang [] = {[]}"
| "glob_lang (c # p) =
     (if c = CHR ''*'' then {u @ v |u v. v \<in> glob_lang p} else {c # v |v. v \<in> glob_lang p})"

section \<open>URLs and match patterns\<close>

text \<open>Split at the first \<^verbatim>\<open>://\<close>.\<close>

fun split_scheme :: "string \<Rightarrow> (string \<times> string) option" where
  "split_scheme [] = None"
| "split_scheme (c # cs) =
     (if take 3 (c # cs) = ''://'' then Some ([], drop 3 (c # cs))
      else map_option (\<lambda>(a, b). (c # a, b)) (split_scheme cs))"

text \<open>A URL as scheme, host and path (the path with its query, \<^verbatim>\<open>/\<close> when empty).\<close>

definition parse_url :: "string \<Rightarrow> (string \<times> string \<times> string) option" where
  "parse_url u =
     (case split_scheme u of
        None \<Rightarrow> None
      | Some (sc, rest) \<Rightarrow>
          (let h = takeWhile (\<lambda>c. c \<noteq> CHR ''/'') rest;
               p = dropWhile (\<lambda>c. c \<noteq> CHR ''/'') rest
           in Some (sc, h, if p = [] then ''/'' else p)))"

datatype scheme_pat = AnyScheme | Scheme string

datatype host_pat = AnyHost | SubdomainsOf string | ExactHost string

record match_pat =
  mp_scheme :: scheme_pat
  mp_host :: host_pat
  mp_path :: string

definition parse_scheme :: "string \<Rightarrow> scheme_pat option" where
  "parse_scheme sc =
     (if sc = ''*'' then Some AnyScheme
      else if sc \<noteq> [] \<and> CHR ''*'' \<notin> set sc then Some (Scheme sc) else None)"

definition parse_host :: "string \<Rightarrow> host_pat option" where
  "parse_host h =
     (if h = ''*'' then Some AnyHost
      else if take 2 h = ''*.'' \<and> drop 2 h \<noteq> [] \<and> CHR ''*'' \<notin> set (drop 2 h)
      then Some (SubdomainsOf (drop 2 h))
      else if h \<noteq> [] \<and> CHR ''*'' \<notin> set h then Some (ExactHost h) else None)"

definition parse_match_rule :: "string \<Rightarrow> match_pat result" where
  "parse_match_rule r =
     (case split_scheme r of
        None \<Rightarrow> Inl (MalformedRuleError r)
      | Some (sc, rest) \<Rightarrow>
          (let h = takeWhile (\<lambda>c. c \<noteq> CHR ''/'') rest;
               p = dropWhile (\<lambda>c. c \<noteq> CHR ''/'') rest
           in case (parse_scheme sc, parse_host h) of
                (Some a, Some b) \<Rightarrow>
                  (if p = [] then Inl (MalformedRuleError r)
                   else Inr \<lparr>mp_scheme = a, mp_host = b, mp_path = p\<rparr>)
              | _ \<Rightarrow> Inl (MalformedRuleError r)))"

definition is_suffix :: "string \<Rightarrow> string \<Rightarrow> bool" where
  "is_suffix x y \<longleftrightarrow> length x \<le> length y \<and> drop (length y - length x) y = x"

fun scheme_sat :: "scheme_pat \<Rightarrow> string \<Rightarrow> bool" where
  "scheme_sat AnyScheme sc = (sc = ''http'' \<or> sc = ''https'')"
| "scheme_sat (Scheme x) sc = (x = sc)"

fun host_sat :: "host_pat \<Rightarrow> string \<Rightarrow> bool" where
  "host_sat AnyHost h = True"
| "host_sat (SubdomainsOf d) h = (h = d \<or> is_suffix (CHR ''.'' # d) h)"
| "host_sat (ExactHost x) h = (x = h)"

definition match_sat :: "match_pat \<Rightarrow> string \<Rightarrow> bool" where
  "match_sat p u =
     (case parse_url u of
        None \<Rightarrow> False
      | Some (sc, h, path) \<Rightarrow> scheme_sat (mp_scheme p) sc \<and> host_sat (mp_host p) h \<and> glob (mp_path p) path)"

text \<open>Include rules are globs over the whole URL and always compile.\<close>

definition parse_include_rule :: "string \<Rightarrow> string result" where
  "parse_include_rule r = Inr r"

definition include_sat :: "string \<Rightarrow> string \<Rightarrow> bool" where
  "include_sat p u = glob p u"

section \<open>The generic matcher\<close>

record 'p matcher =
  rules :: "('p \<times> script) list"
  excludes :: "('p \<times> script) list"

definition empty_matcher :: "'p matcher" where
  "empty_matcher = \<lparr>rules = [], excludes = []\<rparr>"

definition matcher_add ::
  "(string \<Rightarrow> 'p result) \<Rightarrow> string \<Rightarrow> script \<Rightarrow> 'p matcher \<Rightarrow> 'p matcher result" where
  "matcher_add parse r s m =
     (case parse r of
        Inl e \<Rightarrow> Inl e
      | Inr p \<Rightarrow> Inr (m\<lparr>rules := rules m @ [(p, s)]\<rparr>))"

definition matcher_exclude ::
  "(string \<Rightarrow> 'p result) \<Rightarrow> string \<Rightarrow> script \<Rightarrow> 'p matcher \<Rightarrow> 'p matcher result" where
  "matcher_exclude parse r s m =
     (case parse r of
        Inl e \<Rightarrow> Inl e
      | Inr p \<Rightarrow> Inr (m\<lparr>excludes := excludes m @ [(p, s)]\<rparr>))"

definition matcher_del :: "script \<Rightarrow> 'p matcher \<Rightarrow> 'p matcher" where
  "matcher_del s m =
     \<lparr>rules = filter (\<lambda>(_, t). sid t \<noteq> sid s) (rules m),
      excludes = filter (\<lambda>(_, t). sid t \<noteq> sid s) (excludes m)\<rparr>"

definition excluded :: "('p \<Rightarrow> string \<Rightarrow> bool) \<Rightarrow> 'p matcher \<Rightarrow> string \<Rightarrow> script \<Rightarrow> bool" where
  "excluded sat m u s = list_ex (\<lambda>(q, t). sid t = sid s \<and> sat q u) (excludes m)"

definition matcher_match :: "('p \<Rightarrow> string \<Rightarrow> bool) \<Rightarrow> 'p matcher \<Rightarrow> string \<Rightarrow> script list" where
  "matcher_match sat m u =
     map snd (filter (\<lambda>(p, s). sat p u \<and> \<not> excluded sat m u s) (rules m))"

section \<open>Lemmas\<close>

lemmas matcher_defs = matcher_add_def matcher_exclude_def matcher_del_def
  matcher_match_def excluded_def

text \<open>\<open>glob\<close> decides membership in the language of the pattern.\<close>

lemma glob_lang_correct: "glob p s \<longleftrightarrow> s \<in> glob_lang p"
proof (induction p s rule: glob.induct)
  case (1 s)
  then show ?case by simp
next
  case (2 c p)
  then show ?case by auto
next
  case (3 c p x s)
  show ?case
  proof (cases "c = CHR ''*''")
    case True
    have "x # s \<in> {u @ v |u v. v \<in> glob_lang p} \<longleftrightarrow>
        x # s \<in> glob_lang p \<or> s \<in> {u @ v |u v. v \<in> glob_lang p}"
      by (auto simp: Cons_eq_append_conv)
    with 3 True show ?thesis by simp
  next
    case False
    with 3 show ?thesis by auto
  qed
qed

lemma glob_star [simp]: "glob ''*'' s"
  by (simp add: glob_lang_correct)

lemma excluded_iff:
  "excluded sat m u s \<longleftrightarrow> (\<exists>q t. (q, t) \<in> set (excludes m) \<and> sid t = sid s \<and> sat q u)"
  by (auto simp: excluded_def list_ex_iff)

lemma excluded_sid: "sid t = sid s \<Longrightarrow> excluded sat m u t = excluded sat m u s"
  by (simp add: excluded_def)

lemma matcher_match_iff:
  "s \<in> set (matcher_match sat m u) \<longleftrightarrow>
     (\<exists>p. (p, s) \<in> set (rules m) \<and> sat p u) \<and> \<not> excluded sat m u s"
  by (force simp: matcher_match_def)

lemma rules_matcher_del [simp]: "rules (matcher_del s m) = filter (\<lambda>(_, t). sid t \<noteq> sid s) (rules m)"
  by (simp add: matcher_del_def)

lemma excludes_matcher_del [simp]:
  "excludes (matcher_del s m) = filter (\<lambda>(_, t). sid t \<noteq> sid s) (excludes m)"
  by (simp add: matcher_del_def)

lemma matcher_del_idem [simp]: "matcher_del s (matcher_del s m) = matcher_del s m"
  by (simp add: matcher_del_def)

lemma matcher_del_sid: "sid t = sid s \<Longrightarrow> matcher_del t m = matcher_del s m"
  by (simp add: matcher_del_def)

lemma matcher_match_del_other:
  "sid t \<noteq> sid s \<Longrightarrow>
     t \<in> set (matcher_match sat (matcher_del s m) u) \<longleftrightarrow> t \<in> set (matcher_match sat m u)"
  by (auto simp: matcher_match_iff excluded_iff)

lemma matcher_match_del_self: "t \<in> set (matcher_match sat (matcher_del s m) u) \<Longrightarrow> sid t \<noteq> sid s"
  by (auto simp: matcher_match_iff)

lemma matcher_add_Inr:
  "parse r = Inr p \<Longrightarrow> matcher_add parse r s m = Inr (m\<lparr>rules := rules m @ [(p, s)]\<rparr>)"
  by (simp add: matcher_add_def)

lemma matcher_add_Inl: "parse r = Inl e \<Longrightarrow> matcher_add parse r s m = Inl e"
  by (simp add: matcher_add_def)

lemma matcher_exclude_Inr:
  "parse r = Inr p \<Longrightarrow> matcher_exclude parse r s m = Inr (m\<lparr>excludes := excludes m @ [(p, s)]\<rparr>)"
  by (simp add: matcher_exclude_def)

lemma matcher_exclude_Inl: "parse r = Inl e \<Longrightarrow> matcher_exclude parse r s m = Inl e"
  by (simp add: matcher_exclude_def)

end
