(* ===== verification/Runtime.thy ===== *)
theory Runtime
  imports Match
begin

text \<open>
  The lifecycle operations of class \<^verbatim>\<open>Runtime\<close>
  (src/runtime/background/runtime.ts). The state the class owns is
  \<open>rt_state\<close>: the two matchers (fields \<^verbatim>\<open>match\<close> and \<^verbatim>\<open>include\<close>),
  the messages sent to the sandbox through \<^verbatim>\<open>messageSandbox.syncSend\<close>
  in order, and the entries written to the logger. Each method is a function
  from its arguments and the state to its promise outcome and the new state;
  what an awaited collaborator answers is an argument: \<open>ex\<close> for the stores
  and compilers, \<open>fl\<close> for the random flag of a build, \<open>ans\<close> for the
  sandbox's reply to an RPC.
\<close>

section \<open>State\<close>

datatype log_event =
    LogUrlLoadError error
  | LogBackscriptLoadError error
  | LogBackscriptStopError error
  | LogRunError error
  | LogStopError error

datatype rpc = RpcEnable script | RpcDisable nat | RpcStart script | RpcStop nat

record rt_state =
  rt_match :: "match_pat matcher"
  rt_include :: "string matcher"
  rpc_log :: "rpc list"
  logs :: "log_event list"

section \<open>Page scripts\<close>

text \<open>
  Lines 509--526: each \<^verbatim>\<open>@match\<close> (\<^verbatim>\<open>@include\<close>) value is added in its own
  \<^verbatim>\<open>try\<close>; a rule that does not compile is logged and skipped.
\<close>

fun add_rules ::
  "(string \<Rightarrow> 'p result) \<Rightarrow> string list \<Rightarrow> script \<Rightarrow> 'p matcher \<times> log_event list \<Rightarrow>
     'p matcher \<times> log_event list" where
  "add_rules parse [] s acc = acc"
| "add_rules parse (r # rs) s (m, lg) =
     add_rules parse rs s
       (case matcher_add parse r s m of
          Inl e \<Rightarrow> (m, lg @ [LogUrlLoadError e])
        | Inr m' \<Rightarrow> (m', lg))"

text \<open>
  Lines 527--536: one \<^verbatim>\<open>try\<close> around both exclusions of a value, the
  include matcher's first, so a value the match matcher cannot compile is
  still excluded from the include matcher.
\<close>

fun add_excludes ::
  "string list \<Rightarrow> script \<Rightarrow> string matcher \<times> match_pat matcher \<times> log_event list \<Rightarrow>
     string matcher \<times> match_pat matcher \<times> log_event list" where
  "add_excludes [] s acc = acc"
| "add_excludes (r # rs) s (mi, mm, lg) =
     add_excludes rs s
       (case matcher_exclude parse_include_rule r s mi of
          Inl e \<Rightarrow> (mi, mm, lg @ [LogUrlLoadError e])
        | Inr mi' \<Rightarrow>
            (case matcher_exclude parse_match_rule r s mm of
               Inl e \<Rightarrow> (mi', mm, lg @ [LogUrlLoadError e])
             | Inr mm' \<Rightarrow> (mi', mm', lg)))"

text \<open>Lines 503--538.\<close>

definition loadPageScript :: "ext \<Rightarrow> script \<Rightarrow> rt_state \<Rightarrow> bool result \<times> rt_state" where
  "loadPageScript ex s0 st =
     (let s = s0\<lparr>code := dealScript ex (compileInjectScript ex s0)\<rparr>;
          (mm1, lg1) = add_rules parse_match_rule (meta_list (metadata s) ''match'') s
                         (matcher_del s (rt_match st), logs st);
          (mi1, lg2) = add_rules parse_include_rule (meta_list (metadata s) ''include'') s
                         (matcher_del s (rt_include st), lg1);
          (mi2, mm2, lg3) = add_excludes (meta_list (metadata s) ''exclude'') s (mi1, mm1, lg2)
      in (Inr True, st\<lparr>rt_match := mm2, rt_include := mi2, logs := lg3\<rparr>))"

text \<open>Lines 541--543: unloading a page script loads it again.\<close>

definition unloadPageScript :: "ext \<Rightarrow> script \<Rightarrow> rt_state \<Rightarrow> bool result \<times> rt_state" where
  "unloadPageScript ex s st = loadPageScript ex s st"

section \<open>Background scripts\<close>

text \<open>Lines 546--558: \<^verbatim>\<open>syncSend("enable", script)\<close>, a rejection logged and passed on.\<close>

definition loadBackgroundScript :: "script \<Rightarrow> unit result \<Rightarrow> rt_state \<Rightarrow> bool result \<times> rt_state" where
  "loadBackgroundScript s ans st =
     (let st' = st\<lparr>rpc_log := rpc_log st @ [RpcEnable s]\<rparr> in
      case ans of
        Inl e \<Rightarrow> (Inl e, st'\<lparr>logs := logs st' @ [LogBackscriptLoadError e]\<rparr>)
      | Inr _ \<Rightarrow> (Inr True, st'))"

text \<open>Lines 561--573: \<^verbatim>\<open>syncSend("disable", script.id)\<close>.\<close>

definition unloadBackgroundScript :: "script \<Rightarrow> unit result \<Rightarrow> rt_state \<Rightarrow> bool result \<times> rt_state" where
  "unloadBackgroundScript s ans st =
     (let st' = st\<lparr>rpc_log := rpc_log st @ [RpcDisable (sid s)]\<rparr> in
      case ans of
        Inl e \<Rightarrow> (Inl e, st'\<lparr>logs := logs st' @ [LogBackscriptStopError e]\<rparr>)
      | Inr _ \<Rightarrow> (Inr True, st'))"

text \<open>
  Lines 575--579: the \<^verbatim>\<open>start\<close> message is sent but its promise is not
  awaited, so the sandbox's answer never reaches the caller.
\<close>

definition startBackgroundScript :: "ext \<Rightarrow> string \<Rightarrow> script \<Rightarrow> rt_state \<Rightarrow> bool result \<times> rt_state" where
  "startBackgroundScript ex fl s st =
     (case buildScriptRunResource ex fl s of
        Inl e \<Rightarrow> (Inl e, st)
      | Inr r \<Rightarrow> (Inr True, st\<lparr>rpc_log := rpc_log st @ [RpcStart r]\<rparr>))"

text \<open>Lines 581--593.\<close>

definition stopBackgroundScript :: "nat \<Rightarrow> unit result \<Rightarrow> rt_state \<Rightarrow> unit result \<times> rt_state" where
  "stopBackgroundScript i ans st =
     (let st' = st\<lparr>rpc_log := rpc_log st @ [RpcStop i]\<rparr> in
      case ans of
        Inl e \<Rightarrow> (Inl e, st'\<lparr>logs := logs st' @ [LogBackscriptStopError e]\<rparr>)
      | Inr u \<Rightarrow> (Inr u, st'))"

section \<open>Enable, disable, update, delete\<close>

text \<open>Lines 485--492: a failed build rejects before any state changes.\<close>

definition enable :: "ext \<Rightarrow> string \<Rightarrow> unit result \<Rightarrow> script \<Rightarrow> rt_state \<Rightarrow> bool result \<times> rt_state" where
  "enable ex fl ans s st =
     (case buildScriptRunResource ex fl s of
        Inl e \<Rightarrow> (Inl e, st)
      | Inr r \<Rightarrow>
          (if stype s \<noteq> SCRIPT_TYPE_NORMAL then loadBackgroundScript r ans st
           else loadPageScript ex r st))"

text \<open>Lines 495--500.\<close>

definition disable :: "ext \<Rightarrow> unit result \<Rightarrow> script \<Rightarrow> rt_state \<Rightarrow> bool result \<times> rt_state" where
  "disable ex ans s st =
     (if stype s \<noteq> SCRIPT_TYPE_NORMAL then unloadBackgroundScript s ans st
      else unloadPageScript ex s st)"

text \<open>Lines 450--455: the listener of the \<^verbatim>\<open>upsert\<close>, \<^verbatim>\<open>enable\<close> and \<^verbatim>\<open>disable\<close> hooks.\<close>

definition scriptUpdate ::
  "ext \<Rightarrow> string \<Rightarrow> unit result \<Rightarrow> script \<Rightarrow> rt_state \<Rightarrow> bool result \<times> rt_state" where
  "scriptUpdate ex fl ans s st =
     (if status s = SCRIPT_STATUS_ENABLE then enable ex fl ans s st else disable ex ans s st)"

text \<open>Lines 474--482: the listener of the \<^verbatim>\<open>delete\<close> hook.\<close>

definition scriptDelete :: "ext \<Rightarrow> unit result \<Rightarrow> script \<Rightarrow> rt_state \<Rightarrow> bool result \<times> rt_state" where
  "scriptDelete ex ans s st =
     (let st1 = st\<lparr>rt_match := matcher_del s (rt_match st),
                   rt_include := matcher_del s (rt_include st)\<rparr>
      in if status s = SCRIPT_STATUS_ENABLE then
           (case disable ex ans s st1 of
              (Inl e, st2) \<Rightarrow> (Inl e, st2)
            | (Inr _, st2) \<Rightarrow> (Inr True, st2))
         else (Inr True, st1))"

section \<open>Matching a URL\<close>

text \<open>
  Lines 461--470: the scripts are gathered into an object keyed by id, so a
  later object of the same id replaces an earlier one, and
  \<^verbatim>\<open>Object.keys\<close> lists integer keys in ascending order.
\<close>

definition dedup_by_id :: "script list \<Rightarrow> script list" where
  "dedup_by_id xs =
     (let f = fold (\<lambda>s m. m(sid s \<mapsto> s)) xs Map.empty
      in map (\<lambda>k. the (f k)) (sort (remdups (map sid xs))))"

text \<open>Lines 457--471; \<open>filt\<close> is \<^verbatim>\<open>filterFunc\<close>, \<open>\<lambda>_. False\<close> when absent.\<close>

definition matchUrl :: "(script \<Rightarrow> bool) \<Rightarrow> string \<Rightarrow> rt_state \<Rightarrow> script list" where
  "matchUrl filt u st =
     dedup_by_id
       (filter (\<lambda>s. \<not> filt s)
          (matcher_match match_sat (rt_match st) u @ matcher_match include_sat (rt_include st) u))"

section \<open>The start and stop messages\<close>

text \<open>
  Lines 95--109 and 111--125: look the script up in the store (\<open>dao\<close>),
  reject with \<^verbatim>\<open>script not found\<close> when it is absent; every rejection is
  logged and passed on.
\<close>

definition on_start ::
  "ext \<Rightarrow> string \<Rightarrow> (nat \<rightharpoonup> script) \<Rightarrow> nat \<Rightarrow> rt_state \<Rightarrow> bool result \<times> rt_state" where
  "on_start ex fl dao i st =
     (let (res, st') = (case dao i of
                          None \<Rightarrow> (Inl (NotFoundError ''script not found''), st)
                        | Some s \<Rightarrow> startBackgroundScript ex fl s st)
      in case res of
           Inl e \<Rightarrow> (Inl e, st'\<lparr>logs := logs st' @ [LogRunError e]\<rparr>)
         | Inr b \<Rightarrow> (Inr b, st'))"

definition on_stop ::
  "(nat \<rightharpoonup> script) \<Rightarrow> nat \<Rightarrow> unit result \<Rightarrow> rt_state \<Rightarrow> unit result \<times> rt_state" where
  "on_stop dao i ans st =
     (let (res, st') = (case dao i of
                          None \<Rightarrow> (Inl (NotFoundError ''script not found''), st)
                        | Some s \<Rightarrow> stopBackgroundScript i ans st)
      in case res of
           Inl e \<Rightarrow> (Inl e, st'\<lparr>logs := logs st' @ [LogStopError e]\<rparr>)
         | Inr u \<Rightarrow> (Inr u, st'))"

section \<open>Specification functions\<close>

text \<open>
  Reference for the deduplication of \<open>matchUrl\<close>: for every id found, in
  ascending order, the last object with that id.
\<close>

text \<open>The rule values that compile, and the errors of those that do not.\<close>

definition ok_rules :: "(string \<Rightarrow> 'p result) \<Rightarrow> string list \<Rightarrow> 'p list" where
  "ok_rules parse rs = concat (map (\<lambda>r. case parse r of Inl _ \<Rightarrow> [] | Inr p \<Rightarrow> [p]) rs)"

definition bad_rules :: "(string \<Rightarrow> 'p result) \<Rightarrow> string list \<Rightarrow> error list" where
  "bad_rules parse rs = concat (map (\<lambda>r. case parse r of Inl e \<Rightarrow> [e] | Inr _ \<Rightarrow> []) rs)"

text \<open>The object \<open>loadPageScript\<close> indexes (line 505).\<close>

definition compiled_page_script :: "ext \<Rightarrow> script \<Rightarrow> script" where
  "compiled_page_script ex s = s\<lparr>code := dealScript ex (compileInjectScript ex s)\<rparr>"

text \<open>Invariant: the matchers index page scripts only.\<close>

definition page_only :: "rt_state \<Rightarrow> bool" where
  "page_only st \<longleftrightarrow>
     (\<forall>(p, t) \<in> set (rules (rt_match st)). stype t = SCRIPT_TYPE_NORMAL) \<and>
     (\<forall>(p, t) \<in> set (rules (rt_include st)). stype t = SCRIPT_TYPE_NORMAL)"

definition empty_rt :: rt_state where
  "empty_rt = \<lparr>rt_match = empty_matcher, rt_include = empty_matcher, rpc_log = [], logs = []\<rparr>"

text \<open>
  The states the runtime reaches from an empty index through the operations
  that change it: the hook listeners \<open>scriptUpdate\<close> and \<open>scriptDelete\<close>
  (also what the start-up loop of lines 131--144 calls), and the \<^verbatim>\<open>start\<close>
  and \<^verbatim>\<open>stop\<close> message handlers.
\<close>

inductive rt_reachable :: "rt_state \<Rightarrow> bool" where
  init: "rt_reachable empty_rt"
| update: "rt_reachable st \<Longrightarrow> rt_reachable (snd (scriptUpdate ex fl ans s st))"
| delete: "rt_reachable st \<Longrightarrow> rt_reachable (snd (scriptDelete ex ans s st))"
| start: "rt_reachable st \<Longrightarrow> rt_reachable (snd (on_start ex fl dao i st))"
| stop: "rt_reachable st \<Longrightarrow> rt_reachable (snd (on_stop dao i ans st))"

text \<open>Inputs of the witnesses: a state with two rules of one script, a background script.\<close>

definition st_two_rules :: rt_state where
  "st_two_rules = empty_rt\<lparr>rt_match := \<lparr>rules =
     [(\<lparr>mp_scheme = AnyScheme, mp_host = ExactHost ''a.test'', mp_path = ''/*''\<rparr>,
       page_script 1 [''*://a.test/*'']),
      (\<lparr>mp_scheme = AnyScheme, mp_host = AnyHost, mp_path = ''/*''\<rparr>,
       page_script 1 [''*://*/*''])], excludes = []\<rparr>\<rparr>"

definition pat_a :: match_pat where
  "pat_a = \<lparr>mp_scheme = AnyScheme, mp_host = ExactHost ''a.test'', mp_path = ''/*''\<rparr>"

definition background_script :: "nat \<Rightarrow> script" where
  "background_script i = (page_script i [])\<lparr>stype := SCRIPT_TYPE_BACKGROUND\<rparr>"

section \<open>Lemmas: the page-script loader\<close>

lemma ok_rules_simps [simp]:
  "ok_rules parse [] = []"
  "ok_rules parse (r # rs) = (case parse r of Inl _ \<Rightarrow> [] | Inr p \<Rightarrow> [p]) @ ok_rules parse rs"
  by (simp_all add: ok_rules_def)

lemma bad_rules_simps [simp]:
  "bad_rules parse [] = []"
  "bad_rules parse (r # rs) = (case parse r of Inl e \<Rightarrow> [e] | Inr _ \<Rightarrow> []) @ bad_rules parse rs"
  by (simp_all add: bad_rules_def)

lemma ok_include_rules [simp]: "ok_rules parse_include_rule rs = rs"
  by (induction rs) (simp_all add: parse_include_rule_def)

lemma bad_include_rules [simp]: "bad_rules parse_include_rule rs = []"
  by (induction rs) (simp_all add: parse_include_rule_def)

lemma set_ok_rules: "p \<in> set (ok_rules parse rs) \<longleftrightarrow> (\<exists>r \<in> set rs. parse r = Inr p)"
  by (induction rs) (auto split: sum.splits)

lemma add_rules_eq:
  "add_rules parse rs s (m, lg) =
     (m\<lparr>rules := rules m @ map (\<lambda>p. (p, s)) (ok_rules parse rs)\<rparr>,
      lg @ map LogUrlLoadError (bad_rules parse rs))"
proof (induction rs arbitrary: m lg)
  case Nil
  then show ?case by simp
next
  case (Cons r rs)
  then show ?case by (cases "parse r") (simp_all add: matcher_add_def)
qed

lemma add_excludes_eq:
  "add_excludes rs s (mi, mm, lg) =
     (mi\<lparr>excludes := excludes mi @ map (\<lambda>r. (r, s)) rs\<rparr>,
      mm\<lparr>excludes := excludes mm @ map (\<lambda>p. (p, s)) (ok_rules parse_match_rule rs)\<rparr>,
      lg @ map LogUrlLoadError (bad_rules parse_match_rule rs))"
proof (induction rs arbitrary: mi mm lg)
  case Nil
  then show ?case by simp
next
  case (Cons r rs)
  then show ?case
    by (cases "parse_match_rule r") (simp_all add: matcher_exclude_def parse_include_rule_def)
qed

text \<open>
  Closed form of the loader: every entry of the script's id is dropped, then
  one entry per compiling value is appended, other scripts' entries untouched.
\<close>

lemma loadPageScript_eq:
  "loadPageScript ex s0 st =
     (let s = compiled_page_script ex s0; md = metadata s0 in
      (Inr True, st\<lparr>
        rt_match := \<lparr>rules = filter (\<lambda>(_, t). sid t \<noteq> sid s0) (rules (rt_match st))
                              @ map (\<lambda>p. (p, s)) (ok_rules parse_match_rule (meta_list md ''match'')),
                     excludes = filter (\<lambda>(_, t). sid t \<noteq> sid s0) (excludes (rt_match st))
                              @ map (\<lambda>p. (p, s)) (ok_rules parse_match_rule (meta_list md ''exclude''))\<rparr>,
        rt_include := \<lparr>rules = filter (\<lambda>(_, t). sid t \<noteq> sid s0) (rules (rt_include st))
                              @ map (\<lambda>p. (p, s)) (meta_list md ''include''),
                     excludes = filter (\<lambda>(_, t). sid t \<noteq> sid s0) (excludes (rt_include st))
                              @ map (\<lambda>p. (p, s)) (meta_list md ''exclude'')\<rparr>,
        logs := logs st @ map LogUrlLoadError (bad_rules parse_match_rule (meta_list md ''match'')
                              @ bad_rules parse_match_rule (meta_list md ''exclude''))\<rparr>))"
  by (simp add: loadPageScript_def compiled_page_script_def add_rules_eq add_excludes_eq
      matcher_del_def Let_def)

lemma compiled_page_script_fields [simp]:
  "sid (compiled_page_script ex s) = sid s" "stype (compiled_page_script ex s) = stype s"
  "status (compiled_page_script ex s) = status s" "metadata (compiled_page_script ex s) = metadata s"
  by (simp_all add: compiled_page_script_def)

lemma loadPageScript_twice:
  "sid s1 = sid s2 \<Longrightarrow>
   rt_match (snd (loadPageScript ex s2 (snd (loadPageScript ex' s1 st)))) =
     rt_match (snd (loadPageScript ex s2 st)) \<and>
   rt_include (snd (loadPageScript ex s2 (snd (loadPageScript ex' s1 st)))) =
     rt_include (snd (loadPageScript ex s2 st))"
  by (simp add: loadPageScript_eq Let_def filter_empty_conv)

section \<open>Lemmas: builds\<close>

lemma build_Inl_flag: "buildScriptRunResource ex fl s = Inl e \<Longrightarrow> buildScriptRunResource ex fl' s = Inl e"
  by (simp add: buildScriptRunResource_Inl_iff)

lemma build_Inr_flag: "buildScriptRunResource ex fl s = Inr r \<Longrightarrow> \<exists>r'. buildScriptRunResource ex fl' s = Inr r'"
  by (cases "buildScriptRunResource ex fl' s") (auto dest: build_Inl_flag [where fl' = fl])

lemma loadBackgroundScript_matchers [simp]:
  "rt_match (snd (loadBackgroundScript r ans st)) = rt_match st"
  "rt_include (snd (loadBackgroundScript r ans st)) = rt_include st"
  by (simp_all add: loadBackgroundScript_def Let_def split: sum.splits)

lemma unloadBackgroundScript_matchers [simp]:
  "rt_match (snd (unloadBackgroundScript r ans st)) = rt_match st"
  "rt_include (snd (unloadBackgroundScript r ans st)) = rt_include st"
  by (simp_all add: unloadBackgroundScript_def Let_def split: sum.splits)

section \<open>Properties of the lifecycle\<close>

text \<open>
  C1. Enabling a script twice without disabling it leaves the matchers as one
  enable does: the second build's entries replace the first's, so a page
  script is indexed once per rule however often it is enabled.
\<close>

theorem enable_twice_same_index:
  "rt_match (snd (enable ex fl2 ans2 s (snd (enable ex fl1 ans1 s st)))) =
     rt_match (snd (enable ex fl2 ans2 s st)) \<and>
   rt_include (snd (enable ex fl2 ans2 s (snd (enable ex fl1 ans1 s st)))) =
     rt_include (snd (enable ex fl2 ans2 s st))"
proof (cases "buildScriptRunResource ex fl1 s")
  case (Inl e)
  then show ?thesis by (simp add: enable_def)
next
  case (Inr r1)
  then obtain r2 where r2: "buildScriptRunResource ex fl2 s = Inr r2"
    using build_Inr_flag by blast
  have "sid r1 = sid r2"
    using buildScriptRunResource_fields(1) [OF Inr] buildScriptRunResource_fields(1) [OF r2] by simp
  moreover have "stype r1 = stype s" using buildScriptRunResource_fields(2) [OF Inr] .
  ultimately show ?thesis using Inr r2 loadPageScript_twice [of r1 r2 ex ex st]
    by (simp add: enable_def)
qed

text \<open>
  C4. A build that fails leaves the runtime as it was: when the value store
  or the resource store rejects, \<open>scriptUpdate\<close> of an enabled script
  rejects with that error, and no matcher entry, RPC or log entry is added.
\<close>

theorem scriptUpdate_store_failure:
  assumes "status s = SCRIPT_STATUS_ENABLE"
    and "getScriptValues ex (merge_self_metadata s) = Inl e \<or>
         (\<exists>v. getScriptValues ex (merge_self_metadata s) = Inr v \<and>
              getScriptResources ex ((merge_self_metadata s)\<lparr>rr_value := Some v\<rparr>) = Inl e)"
  shows "scriptUpdate ex fl ans s st = (Inl e, st)"
proof -
  from assms(2) have "buildScriptRunResource ex fl s = Inl e"
    by (simp add: buildScriptRunResource_Inl_iff)
  with assms(1) show ?thesis by (simp add: scriptUpdate_def enable_def)
qed

theorem scriptUpdate_store_failure_witness:
  "scriptUpdate ext_values_down ''flag'' (Inr ()) (page_script 1 [''*://a.test/*'']) empty_rt =
     (Inl (ResourceBuildError ''values''), empty_rt)"
proof -
  have "status (page_script 1 [''*://a.test/*'']) = SCRIPT_STATUS_ENABLE"
    by (simp add: page_script_def)
  moreover have "getScriptValues ext_values_down (merge_self_metadata (page_script 1 [''*://a.test/*''])) =
      Inl (ResourceBuildError ''values'')"
    by (simp add: ext_values_down_def)
  ultimately show ?thesis by (blast intro: scriptUpdate_store_failure)
qed

text \<open>
  C5. A background script is started and stopped only through the sandbox:
  enabling it sends exactly one \<^verbatim>\<open>enable\<close> RPC carrying its run resource,
  disabling it then sends exactly one \<^verbatim>\<open>disable\<close> RPC carrying its id, and
  neither touches the matchers.
\<close>

theorem background_enable_disable_rpcs:
  assumes "stype s \<noteq> SCRIPT_TYPE_NORMAL" and "buildScriptRunResource ex fl s = Inr r"
  shows "rpc_log (snd (enable ex fl ans1 s st)) = rpc_log st @ [RpcEnable r] \<and>
    rpc_log (snd (disable ex ans2 s (snd (enable ex fl ans1 s st)))) =
      rpc_log st @ [RpcEnable r, RpcDisable (sid s)] \<and>
    rt_match (snd (disable ex ans2 s (snd (enable ex fl ans1 s st)))) = rt_match st \<and>
    rt_include (snd (disable ex ans2 s (snd (enable ex fl ans1 s st)))) = rt_include st \<and>
    sid r = sid s"
  using assms buildScriptRunResource_fields(1) [OF assms(2)]
  by (simp add: enable_def disable_def loadBackgroundScript_def unloadBackgroundScript_def Let_def
      split: sum.splits)

theorem background_enable_disable_rpcs_witness:
  "rpc_log (snd (enable ext_ok ''flag'' (Inr ()) (background_script 2) empty_rt)) =
     [RpcEnable (projr (buildScriptRunResource ext_ok ''flag'' (background_script 2)))] \<and>
   rpc_log (snd (disable ext_ok (Inr ()) (background_script 2)
     (snd (enable ext_ok ''flag'' (Inr ()) (background_script 2) empty_rt)))) =
     [RpcEnable (projr (buildScriptRunResource ext_ok ''flag'' (background_script 2))), RpcDisable 2]"
proof -
  obtain r where r: "buildScriptRunResource ext_ok ''flag'' (background_script 2) = Inr r"
    by (simp add: buildScriptRunResource_def ext_ok_def)
  have "stype (background_script 2) \<noteq> SCRIPT_TYPE_NORMAL"
    by (simp add: background_script_def)
  from background_enable_disable_rpcs [OF this r] r show ?thesis
    by (simp add: empty_rt_def background_script_def page_script_def)
qed

section \<open>Lemmas: matching a URL\<close>

lemma loadPageScript_same_id_entry:
  assumes "(\<exists>p. (p, t) \<in> set (rules (rt_match (snd (loadPageScript ex s st))))) \<or>
           (\<exists>q. (q, t) \<in> set (rules (rt_include (snd (loadPageScript ex s st)))))"
    and "sid t = sid s"
  shows "t = compiled_page_script ex s"
  using assms by (auto simp: loadPageScript_eq Let_def)

lemma loadPageScript_fst [simp]: "fst (loadPageScript ex s st) = Inr True"
  by (simp add: loadPageScript_def Let_def split: prod.splits)

lemma loadPageScript_rpc_log [simp]: "rpc_log (snd (loadPageScript ex s st)) = rpc_log st"
  by (simp add: loadPageScript_eq Let_def)

lemma scriptDelete_page_enabled_eq:
  assumes "stype s = SCRIPT_TYPE_NORMAL" and "status s = SCRIPT_STATUS_ENABLE"
  shows "scriptDelete ex ans s st = loadPageScript ex s st"
  using assms
  by (simp add: scriptDelete_def disable_def unloadPageScript_def loadPageScript_eq Let_def
      matcher_del_def)

lemma fold_upd_sid:
  "fold (\<lambda>s m. m(sid s \<mapsto> s)) xs m0 k =
     (if \<exists>s\<in>set xs. sid s = k then Some (last (filter (\<lambda>s. sid s = k) xs)) else m0 k)"
proof (induction xs arbitrary: m0)
  case Nil
  then show ?case by simp
next
  case (Cons x xs)
  then show ?case by (auto simp: filter_empty_conv)
qed

lemma last_filter_sid:
  "s \<in> set xs \<Longrightarrow> sid s = k \<Longrightarrow>
     last (filter (\<lambda>s. sid s = k) xs) \<in> set xs \<and> sid (last (filter (\<lambda>s. sid s = k) xs)) = k"
proof -
  assume "s \<in> set xs" "sid s = k"
  then have "filter (\<lambda>s. sid s = k) xs \<noteq> []" by (auto simp: filter_empty_conv)
  then have "last (filter (\<lambda>s. sid s = k) xs) \<in> set (filter (\<lambda>s. sid s = k) xs)"
    by (rule last_in_set)
  then show ?thesis by simp
qed

lemma map_sid_dedup_by_id: "map sid (dedup_by_id xs) = sort (remdups (map sid xs))"
proof -
  let ?f = "fold (\<lambda>s m. m(sid s \<mapsto> s)) xs Map.empty"
  have "sid (the (?f k)) = k" if "k \<in> set (sort (remdups (map sid xs)))" for k
    using that last_filter_sid by (auto simp: fold_upd_sid)
  then have "map (\<lambda>k. sid (the (?f k))) (sort (remdups (map sid xs))) = sort (remdups (map sid xs))"
    by (rule map_idI)
  then show ?thesis by (simp add: dedup_by_id_def Let_def comp_def)
qed

lemma set_dedup_by_id:
  "t \<in> set (dedup_by_id xs) \<longleftrightarrow> t \<in> set xs \<and> t = last (filter (\<lambda>s. sid s = sid t) xs)"
proof
  let ?f = "fold (\<lambda>s m. m(sid s \<mapsto> s)) xs Map.empty"
  assume "t \<in> set (dedup_by_id xs)"
  then obtain k s where s: "s \<in> set xs" "sid s = k" and t: "t = the (?f k)"
    by (auto simp: dedup_by_id_def Let_def)
  with last_filter_sid [OF s] show "t \<in> set xs \<and> t = last (filter (\<lambda>s. sid s = sid t) xs)"
    by (auto simp: fold_upd_sid)
next
  let ?f = "fold (\<lambda>s m. m(sid s \<mapsto> s)) xs Map.empty"
  assume t: "t \<in> set xs \<and> t = last (filter (\<lambda>s. sid s = sid t) xs)"
  then have "the (?f (sid t)) = t" by (auto simp: fold_upd_sid)
  moreover have "sid t \<in> set (sort (remdups (map sid xs)))" using t by simp
  ultimately show "t \<in> set (dedup_by_id xs)"
    by (force simp: dedup_by_id_def Let_def)
qed

lemma matchUrl_member:
  "t \<in> set (matchUrl filt u st) \<Longrightarrow>
     \<not> filt t \<and> (t \<in> set (matcher_match match_sat (rt_match st) u) \<or>
                t \<in> set (matcher_match include_sat (rt_include st) u))"
  by (auto simp: matchUrl_def set_dedup_by_id)

lemma matchUrl_covers:
  assumes "t \<in> set (matcher_match match_sat (rt_match st) u) \<or>
           t \<in> set (matcher_match include_sat (rt_include st) u)"
    and "\<not> filt t"
  shows "\<exists>t' \<in> set (matchUrl filt u st). sid t' = sid t"
proof -
  have "sid t \<in> set (map sid (matchUrl filt u st))"
    using assms by (auto simp: matchUrl_def map_sid_dedup_by_id)
  then show ?thesis by auto
qed

lemma loadPageScript_matched_filt:
  assumes "r \<in> set (meta_list (metadata s) ''match'')" and "parse_match_rule r = Inr p"
    and "match_sat p u" and "meta_list (metadata s) ''exclude'' = []"
    and "\<not> filt (compiled_page_script ex s)"
  shows "\<exists>t \<in> set (matchUrl filt u (snd (loadPageScript ex s st))).
           t = compiled_page_script ex s"
proof -
  let ?st = "snd (loadPageScript ex s st)"
  let ?c = "compiled_page_script ex s"
  have "p \<in> set (ok_rules parse_match_rule (meta_list (metadata s) ''match''))"
    using assms(1,2) by (auto simp: set_ok_rules)
  then have "(p, ?c) \<in> set (rules (rt_match ?st))"
    by (simp add: loadPageScript_eq Let_def)
  moreover have "\<not> excluded match_sat (rt_match ?st) u ?c"
    using assms(4) by (auto simp: loadPageScript_eq Let_def excluded_iff)
  ultimately have "?c \<in> set (matcher_match match_sat (rt_match ?st) u)"
    using assms(3) by (auto simp: matcher_match_iff)
  then have "\<exists>t' \<in> set (matchUrl filt u ?st). sid t' = sid ?c"
    using assms(5) by (intro matchUrl_covers) simp_all
  then obtain t where t: "t \<in> set (matchUrl filt u ?st)" and tid: "sid t = sid s"
    by auto
  have "t \<in> set (matcher_match match_sat (rt_match ?st) u) \<or>
      t \<in> set (matcher_match include_sat (rt_include ?st) u)"
    using matchUrl_member [OF t] by (rule conjunct2)
  then have "(\<exists>p. (p, t) \<in> set (rules (rt_match ?st))) \<or> (\<exists>q. (q, t) \<in> set (rules (rt_include ?st)))"
    by (auto simp only: matcher_match_iff)
  then have "t = ?c" using tid by (rule loadPageScript_same_id_entry)
  with t show ?thesis by blast
qed

lemma loadPageScript_matched:
  assumes "r \<in> set (meta_list (metadata s) ''match'')" and "parse_match_rule r = Inr p"
    and "match_sat p u" and "meta_list (metadata s) ''exclude'' = []"
  shows "\<exists>t \<in> set (matchUrl (\<lambda>_. False) u (snd (loadPageScript ex s st))).
           sid t = sid s \<and> status t = status s"
proof -
  have "compiled_page_script ex s \<in> set (matchUrl (\<lambda>_. False) u (snd (loadPageScript ex s st)))"
    using loadPageScript_matched_filt [where filt = "\<lambda>_. False" and ex = ex and st = st, OF assms]
    by simp
  then show ?thesis by (rule bexI [rotated]) simp
qed

lemma loadPageScript_matchUrl_sid:
  assumes "t \<in> set (matchUrl filt u (snd (loadPageScript ex s st)))" and "sid t = sid s"
  shows "t = compiled_page_script ex s \<and> \<not> filt t"
proof -
  have "\<not> filt t \<and> (t \<in> set (matcher_match match_sat (rt_match (snd (loadPageScript ex s st))) u) \<or>
      t \<in> set (matcher_match include_sat (rt_include (snd (loadPageScript ex s st))) u))"
    using assms(1) by (rule matchUrl_member)
  then have "(\<exists>p. (p, t) \<in> set (rules (rt_match (snd (loadPageScript ex s st))))) \<or>
      (\<exists>q. (q, t) \<in> set (rules (rt_include (snd (loadPageScript ex s st)))))" and "\<not> filt t"
    by (auto simp only: matcher_match_iff)
  then show ?thesis using assms(2) loadPageScript_same_id_entry by blast
qed

section \<open>Evaluation rules\<close>

text \<open>What the witnesses unfold to run the operations on concrete inputs.\<close>

lemmas rt_eval_simps = scriptUpdate_def enable_def disable_def unloadPageScript_def
  buildScriptRunResource_def merge_self_metadata_def loadPageScript_def add_rules_eq add_excludes_eq
  matcher_del_def matcher_add_def matcher_exclude_def Let_def
  meta_list_def parse_match_rule_def parse_scheme_def parse_host_def empty_rt_def empty_matcher_def
  matchUrl_def dedup_by_id_def matcher_match_def excluded_def match_sat_def parse_url_def
  include_sat_def

section \<open>Properties of matching\<close>

text \<open>
  C2. \<open>matchUrl\<close> returns one object per script id found by either matcher
  and kept by the filter, in ascending id order, and for each id the last such
  object the two matchers returned.
\<close>

theorem matchUrl_dedup:
  "map sid (matchUrl filt u st) =
     sort (remdups (map sid (filter (\<lambda>s. \<not> filt s)
       (matcher_match match_sat (rt_match st) u @ matcher_match include_sat (rt_include st) u)))) \<and>
   (\<forall>t \<in> set (matchUrl filt u st). \<not> filt t \<and>
      t = last (filter (\<lambda>s. sid s = sid t)
        (filter (\<lambda>s. \<not> filt s)
          (matcher_match match_sat (rt_match st) u @ matcher_match include_sat (rt_include st) u))))"
  (is "?A \<and> (\<forall>t \<in> set (matchUrl filt u st). \<not> filt t \<and> t = last (filter (\<lambda>s. sid s = sid t) ?xs))")
proof
  show ?A by (simp only: matchUrl_def map_sid_dedup_by_id)
next
  show "\<forall>t \<in> set (matchUrl filt u st). \<not> filt t \<and> t = last (filter (\<lambda>s. sid s = sid t) ?xs)"
  proof
    fix t assume "t \<in> set (matchUrl filt u st)"
    then have t: "t \<in> set ?xs \<and> t = last (filter (\<lambda>s. sid s = sid t) ?xs)"
      unfolding matchUrl_def by (rule set_dedup_by_id [THEN iffD1])
    then have "t \<in> set ?xs" by (rule conjunct1)
    then have "\<not> filt t" by (auto simp del: filter_append)
    with t show "\<not> filt t \<and> t = last (filter (\<lambda>s. sid s = sid t) ?xs)" by blast
  qed
qed

theorem matchUrl_dedup_witness:
  "matchUrl (\<lambda>_. False) ''https://a.test/x'' st_two_rules \<noteq> [] \<and>
   map sid (matchUrl (\<lambda>_. False) ''https://a.test/x'' st_two_rules) = [1]"
proof -
  have "map sid (matchUrl (\<lambda>_. False) ''https://a.test/x'' st_two_rules) =
     sort (remdups (map sid (filter (\<lambda>s. \<not> False)
       (matcher_match match_sat (rt_match st_two_rules) ''https://a.test/x'' @
        matcher_match include_sat (rt_include st_two_rules) ''https://a.test/x''))))"
    using matchUrl_dedup by (rule conjunct1)
  then have "map sid (matchUrl (\<lambda>_. False) ''https://a.test/x'' st_two_rules) = [1]"
    by (simp add: st_two_rules_def matcher_match_def excluded_def match_sat_def parse_url_def
        empty_rt_def empty_matcher_def page_script_def)
  then show ?thesis by auto
qed

text \<open>
  C3. Deleting an enabled page script leaves it indexed: \<open>scriptDelete\<close>
  drops its rules, then disables it because its status is enabled, and
  disabling a page script loads its rules again (lines 474--482, 495--500,
  541--543). A URL one of its \<^verbatim>\<open>@match\<close> rules covers still resolves to
  the deleted script, with status enabled.
\<close>

theorem scriptDelete_enabled_page_still_matched:
  assumes "stype s = SCRIPT_TYPE_NORMAL" and "status s = SCRIPT_STATUS_ENABLE"
    and "r \<in> set (meta_list (metadata s) ''match'')" and "parse_match_rule r = Inr p"
    and "match_sat p u" and "meta_list (metadata s) ''exclude'' = []"
  shows "\<exists>t \<in> set (matchUrl (\<lambda>_. False) u (snd (scriptDelete ex ans s st))).
           sid t = sid s \<and> status t = SCRIPT_STATUS_ENABLE"
  using loadPageScript_matched [OF assms(3-6)] assms(2)
  by (simp add: scriptDelete_page_enabled_eq [OF assms(1,2)])

theorem scriptDelete_enabled_page_still_matched_witness:
  "\<exists>t \<in> set (matchUrl (\<lambda>_. False) ''https://a.test/x''
        (snd (scriptDelete ext_ok (Inr ()) (page_script 1 [''*://a.test/*'']) empty_rt))).
     sid t = 1 \<and> status t = SCRIPT_STATUS_ENABLE"
proof -
  have h: "stype (page_script 1 [''*://a.test/*'']) = SCRIPT_TYPE_NORMAL"
    "status (page_script 1 [''*://a.test/*'']) = SCRIPT_STATUS_ENABLE"
    "''*://a.test/*'' \<in> set (meta_list (metadata (page_script 1 [''*://a.test/*''])) ''match'')"
    "parse_match_rule ''*://a.test/*'' = Inr pat_a"
    "match_sat pat_a ''https://a.test/x''"
    "meta_list (metadata (page_script 1 [''*://a.test/*''])) ''exclude'' = []"
    by (simp_all add: page_script_def meta_list_def pat_a_def parse_match_rule_def
        parse_scheme_def parse_host_def match_sat_def parse_url_def)
  have "\<exists>t \<in> set (matchUrl (\<lambda>_. False) ''https://a.test/x''
        (snd (scriptDelete ext_ok (Inr ()) (page_script 1 [''*://a.test/*'']) empty_rt))).
     sid t = sid (page_script 1 [''*://a.test/*'']) \<and> status t = SCRIPT_STATUS_ENABLE"
    by (rule scriptDelete_enabled_page_still_matched [OF h])
  then show ?thesis by (simp add: page_script_def)
qed

section \<open>Lemmas: the page-only invariant\<close>

lemma page_only_loadPageScript:
  "page_only st \<Longrightarrow> stype s = SCRIPT_TYPE_NORMAL \<Longrightarrow> page_only (snd (loadPageScript ex s st))"
  by (auto simp: page_only_def loadPageScript_eq Let_def)

lemma page_only_matchers:
  "page_only st \<Longrightarrow> rt_match st' = rt_match st \<Longrightarrow> rt_include st' = rt_include st \<Longrightarrow> page_only st'"
  by (simp add: page_only_def)

lemma page_only_enable: "page_only st \<Longrightarrow> page_only (snd (enable ex fl ans s st))"
  by (auto simp: enable_def page_only_loadPageScript buildScriptRunResource_fields(2)
      intro: page_only_matchers split: sum.splits)

lemma page_only_disable: "page_only st \<Longrightarrow> page_only (snd (disable ex ans s st))"
  by (auto simp: disable_def unloadPageScript_def page_only_loadPageScript
      intro: page_only_matchers)

lemma page_only_del: "page_only st \<Longrightarrow>
  page_only (st\<lparr>rt_match := matcher_del s (rt_match st), rt_include := matcher_del s (rt_include st)\<rparr>)"
  by (auto simp: page_only_def)

lemma page_only_scriptUpdate: "page_only st \<Longrightarrow> page_only (snd (scriptUpdate ex fl ans s st))"
  by (simp add: scriptUpdate_def page_only_enable page_only_disable)

lemma snd_scriptDelete:
  "snd (scriptDelete ex ans s st) =
     (let st1 = st\<lparr>rt_match := matcher_del s (rt_match st),
                   rt_include := matcher_del s (rt_include st)\<rparr>
      in if status s = SCRIPT_STATUS_ENABLE then snd (disable ex ans s st1) else st1)"
  by (simp add: scriptDelete_def Let_def split: prod.split sum.split)

lemma page_only_scriptDelete: "page_only st \<Longrightarrow> page_only (snd (scriptDelete ex ans s st))"
  by (simp add: snd_scriptDelete Let_def page_only_del page_only_disable)

lemma on_start_matchers [simp]:
  "rt_match (snd (on_start ex fl dao i st)) = rt_match st"
  "rt_include (snd (on_start ex fl dao i st)) = rt_include st"
  by (auto simp: on_start_def startBackgroundScript_def Let_def split: option.splits sum.splits prod.splits)

lemma on_stop_matchers [simp]:
  "rt_match (snd (on_stop dao i ans st)) = rt_match st"
  "rt_include (snd (on_stop dao i ans st)) = rt_include st"
  by (auto simp: on_stop_def stopBackgroundScript_def Let_def split: option.splits sum.splits prod.splits)

lemma rt_reachable_page_only: "rt_reachable st \<Longrightarrow> page_only st"
proof (induction rule: rt_reachable.induct)
  case init
  then show ?case by (simp add: page_only_def empty_rt_def empty_matcher_def)
next
  case (update st ex fl ans s)
  from update.IH show ?case by (rule page_only_scriptUpdate)
next
  case (delete st ex ans s)
  from delete.IH show ?case by (rule page_only_scriptDelete)
next
  case (start st ex fl dao i)
  then show ?case by (simp add: page_only_matchers)
next
  case (stop st dao i ans)
  then show ?case by (simp add: page_only_matchers)
qed

lemma page_only_matchUrl:
  assumes "page_only st" and "t \<in> set (matchUrl filt u st)"
  shows "stype t = SCRIPT_TYPE_NORMAL"
proof -
  have "t \<in> set (matcher_match match_sat (rt_match st) u) \<or>
      t \<in> set (matcher_match include_sat (rt_include st) u)"
    using matchUrl_member [OF assms(2)] by (rule conjunct2)
  then have "(\<exists>p. (p, t) \<in> set (rules (rt_match st))) \<or> (\<exists>q. (q, t) \<in> set (rules (rt_include st)))"
    by (auto simp only: matcher_match_iff)
  with assms(1) show ?thesis by (auto simp: page_only_def)
qed

lemma scriptUpdate_disabled_page_eq:
  assumes "stype s = SCRIPT_TYPE_NORMAL" and "status s = SCRIPT_STATUS_DISABLE"
  shows "scriptUpdate ex fl ans s st = loadPageScript ex s st"
  using assms by (simp add: scriptUpdate_def disable_def unloadPageScript_def)

section \<open>Properties of the index\<close>

text \<open>
  C6. In every state the runtime reaches, \<open>matchUrl\<close> returns page scripts
  only: a background or scheduled script is never indexed, because
  \<open>enable\<close>, \<open>disable\<close> and \<open>scriptDelete\<close> call the page loader only for
  scripts of type \<^verbatim>\<open>SCRIPT_TYPE_NORMAL\<close>.
\<close>

theorem reachable_matchUrl_page_only:
  assumes "rt_reachable st" and "t \<in> set (matchUrl filt u st)"
  shows "stype t = SCRIPT_TYPE_NORMAL"
  using rt_reachable_page_only [OF assms(1)] assms(2) by (rule page_only_matchUrl)

theorem reachable_matchUrl_page_only_witness:
  "rt_reachable (snd (scriptUpdate ext_ok ''flag'' (Inr ()) (page_script 1 [''*://a.test/*'']) empty_rt)) \<and>
   map stype (matchUrl (\<lambda>_. False) ''https://a.test/x''
     (snd (scriptUpdate ext_ok ''flag'' (Inr ()) (page_script 1 [''*://a.test/*'']) empty_rt))) =
     [SCRIPT_TYPE_NORMAL]"
proof -
  let ?st = "snd (scriptUpdate ext_ok ''flag'' (Inr ()) (page_script 1 [''*://a.test/*'']) empty_rt)"
  have r: "rt_reachable ?st"
    by (rule rt_reachable.update [OF rt_reachable.init])
  have len: "length (matchUrl (\<lambda>_. False) ''https://a.test/x'' ?st) = 1"
    by (simp add: rt_eval_simps ext_ok_def page_script_def)
  have "map stype (matchUrl (\<lambda>_. False) ''https://a.test/x'' ?st) =
      map (\<lambda>_. SCRIPT_TYPE_NORMAL) (matchUrl (\<lambda>_. False) ''https://a.test/x'' ?st)"
    using reachable_matchUrl_page_only [OF r] by (rule map_cong [OF refl])
  with len r show ?thesis by (simp add: map_replicate_const)
qed

text \<open>
  C7. Disabling a page script does not unindex it: \<open>disable\<close> of a page
  script is \<open>unloadPageScript\<close>, which loads its rules again (lines 541--543),
  so \<open>matchUrl\<close> still returns the script, now with status disabled; only
  the status filter of the page-load handler keeps it from being injected.
\<close>

theorem disable_page_script_stays_indexed:
  assumes "stype s = SCRIPT_TYPE_NORMAL" and "status s = SCRIPT_STATUS_DISABLE"
    and "r \<in> set (meta_list (metadata s) ''match'')" and "parse_match_rule r = Inr p"
    and "match_sat p u" and "meta_list (metadata s) ''exclude'' = []"
  shows "\<exists>t \<in> set (matchUrl (\<lambda>_. False) u (snd (scriptUpdate ex fl ans s st))).
           sid t = sid s \<and> status t = SCRIPT_STATUS_DISABLE"
proof -
  have "scriptUpdate ex fl ans s st = loadPageScript ex s st"
    using assms(1,2) by (rule scriptUpdate_disabled_page_eq)
  with loadPageScript_matched [OF assms(3-6)] assms(2) show ?thesis by simp
qed

theorem disable_page_script_stays_indexed_witness:
  "\<exists>t \<in> set (matchUrl (\<lambda>_. False) ''https://a.test/x''
        (snd (scriptUpdate ext_ok ''flag'' (Inr ())
          ((page_script 1 [''*://a.test/*''])\<lparr>status := SCRIPT_STATUS_DISABLE\<rparr>) empty_rt))).
     sid t = 1 \<and> status t = SCRIPT_STATUS_DISABLE"
proof -
  let ?s = "(page_script 1 [''*://a.test/*''])\<lparr>status := SCRIPT_STATUS_DISABLE\<rparr>"
  have h: "stype ?s = SCRIPT_TYPE_NORMAL" "status ?s = SCRIPT_STATUS_DISABLE"
    "''*://a.test/*'' \<in> set (meta_list (metadata ?s) ''match'')"
    "parse_match_rule ''*://a.test/*'' = Inr pat_a"
    "match_sat pat_a ''https://a.test/x''"
    "meta_list (metadata ?s) ''exclude'' = []"
    by (simp_all add: page_script_def meta_list_def pat_a_def parse_match_rule_def
        parse_scheme_def parse_host_def match_sat_def parse_url_def)
  from disable_page_script_stays_indexed [OF h, of ext_ok "''flag''" "Inr ()" empty_rt]
  show ?thesis by (simp add: page_script_def)
qed

section \<open>Properties of the start and stop handlers\<close>

text \<open>
  C35. Starting a background script does not wait for the sandbox: once the
  run resource is built the \<^verbatim>\<open>start\<close> handler resolves with true and the
  start RPC is sent, whatever the sandbox answers (line 577 does not await
  \<^verbatim>\<open>syncSend\<close>); stopping, in contrast, rejects with the sandbox's error
  (lines 581--593).
\<close>

theorem start_ignores_sandbox_answer:
  assumes "dao i = Some s" and "buildScriptRunResource ex fl s = Inr r"
  shows "on_start ex fl dao i st = (Inr True, st\<lparr>rpc_log := rpc_log st @ [RpcStart r]\<rparr>) \<and>
         fst (on_stop dao i (Inl e) st) = Inl e"
  using assms by (simp add: on_start_def on_stop_def startBackgroundScript_def stopBackgroundScript_def Let_def)

theorem start_ignores_sandbox_answer_witness:
  "fst (on_start ext_ok ''f'' [3 \<mapsto> background_script 3] 3 empty_rt) = Inr True \<and>
   fst (on_stop [3 \<mapsto> background_script 3] 3 (Inl (TransportError ''down'')) empty_rt) =
     Inl (TransportError ''down'')"
proof -
  obtain r where "buildScriptRunResource ext_ok ''f'' (background_script 3) = Inr r"
    by (simp add: buildScriptRunResource_def ext_ok_def Let_def)
  from start_ignores_sandbox_answer [of "[3 \<mapsto> background_script 3]" 3, OF _ this]
  show ?thesis by simp
qed

end
