(* ===== verification/Events.thy ===== *)
theory Events
  imports Runtime
begin

text \<open>
  The script-management event handlers of event.ts, the hook bus they
  trigger, and the listeners \<^verbatim>\<open>Runtime\<close> registers on it (runtime.ts):
  the constructor's lifecycle listeners (lines 86--89), the background-script
  cache \<^verbatim>\<open>runBackScript\<close> of \<^verbatim>\<open>start\<close> with its start-up loop (lines
  129--144) and its \<^verbatim>\<open>enable\<close>, \<^verbatim>\<open>disable\<close> and \<^verbatim>\<open>runStatus\<close> listeners
  (lines 237--261), and the run-status handlers (lines 425--447).

  A hook calls its listeners in the order they were registered and does not
  await them: the constructor's listener runs before the ones \<^verbatim>\<open>start\<close>
  adds, and the outcome of a runtime operation never reaches the handler that
  triggered it. Each handler is one step on \<open>sys_state\<close>; the answers of the
  stores, the clock and the sandbox for that step are the fields of \<open>step_env\<close>.
  A handler's promise is an \<open>outcome\<close>: \<open>Pending\<close> is a promise that never
  settles.
\<close>

section \<open>Data\<close>

datatype 'a outcome = Resolved 'a | Rejected error | Pending

record sys_state =
  store :: "nat \<rightharpoonup> script"
  rts :: rt_state
  runBackScript :: "(nat, script) jsmap"
  watchers :: "nat list"
  sent :: "(nat \<times> nat \<times> run_status) list"

record step_env =
  env_ext :: ext
  env_flag :: string
  env_rpc :: "unit result"
  env_now :: nat
  env_save :: "unit result"

section \<open>The hook listeners\<close>

text \<open>
  \<^verbatim>\<open>ScriptManager.hook.trigger("enable", script)\<close>: \<open>Runtime.scriptUpdate\<close>
  (line 88), then the cache listener of \<^verbatim>\<open>start\<close> (lines 237--242).
\<close>

definition hook_enable :: "step_env \<Rightarrow> script \<Rightarrow> sys_state \<Rightarrow> sys_state" where
  "hook_enable ev s S =
     (let S1 = S\<lparr>rts := snd (scriptUpdate (env_ext ev) (env_flag ev) (env_rpc ev) s (rts S))\<rparr>
      in if stype s \<noteq> SCRIPT_TYPE_NORMAL then S1\<lparr>runBackScript := jm_set (sid s) s (runBackScript S1)\<rparr>
         else S1)"

text \<open>\<^verbatim>\<open>trigger("disable", script)\<close>: line 89, then lines 243--247.\<close>

definition hook_disable :: "step_env \<Rightarrow> script \<Rightarrow> sys_state \<Rightarrow> sys_state" where
  "hook_disable ev s S =
     (let S1 = S\<lparr>rts := snd (scriptUpdate (env_ext ev) (env_flag ev) (env_rpc ev) s (rts S))\<rparr>
      in if stype s \<noteq> SCRIPT_TYPE_NORMAL then S1\<lparr>runBackScript := jm_delete (sid s) (runBackScript S1)\<rparr>
         else S1)"

text \<open>\<^verbatim>\<open>trigger("upsert", script)\<close>: line 86.\<close>

definition hook_upsert :: "step_env \<Rightarrow> script \<Rightarrow> sys_state \<Rightarrow> sys_state" where
  "hook_upsert ev s S = S\<lparr>rts := snd (scriptUpdate (env_ext ev) (env_flag ev) (env_rpc ev) s (rts S))\<rparr>"

text \<open>\<^verbatim>\<open>trigger("delete", script)\<close>: line 87.\<close>

definition hook_delete :: "step_env \<Rightarrow> script \<Rightarrow> sys_state \<Rightarrow> sys_state" where
  "hook_delete ev s S = S\<lparr>rts := snd (scriptDelete (env_ext ev) (env_rpc ev) s (rts S))\<rparr>"

text \<open>The cache listener of the \<^verbatim>\<open>runStatus\<close> hook (lines 249--261).\<close>

definition runStatus_listener :: "nat \<Rightarrow> sys_state \<Rightarrow> sys_state" where
  "runStatus_listener i S =
     (case store S i of
        None \<Rightarrow> S
      | Some s \<Rightarrow>
          if status s \<noteq> SCRIPT_STATUS_ENABLE then S\<lparr>runBackScript := jm_delete i (runBackScript S)\<rparr>
          else S\<lparr>runBackScript := jm_set i s (runBackScript S)\<rparr>)"

text \<open>
  \<^verbatim>\<open>Runtime.hook.trigger("runStatus", scriptId, runStatus)\<close>: the cache
  listener, registered by \<^verbatim>\<open>start\<close>, then one listener per watching channel
  (lines 438--444), which sends the pair on its channel.
\<close>

definition hook_runStatus :: "nat \<Rightarrow> run_status \<Rightarrow> sys_state \<Rightarrow> sys_state" where
  "hook_runStatus i rs S =
     (let S1 = runStatus_listener i S in S1\<lparr>sent := sent S1 @ map (\<lambda>c. (c, i, rs)) (watchers S1)\<rparr>)"

section \<open>The handlers\<close>

text \<open>
  \<^verbatim>\<open>upsertHandler\<close> (event.ts lines 50--75): reading
  \<^verbatim>\<open>script.metadata.version[0]\<close> throws in the promise executor when the
  script has no \<^verbatim>\<open>version\<close>, which rejects the promise.
\<close>

definition upsertHandler :: "step_env \<Rightarrow> script \<Rightarrow> sys_state \<Rightarrow> nat outcome \<times> sys_state" where
  "upsertHandler ev s S =
     (if metadata s ''version'' = None
      then (Rejected (TypeError ''Cannot read properties of undefined (reading '0')''), S)
      else (case env_save ev of
              Inl e \<Rightarrow> (Rejected e, S)
            | Inr _ \<Rightarrow> (Resolved (sid s), hook_upsert ev s (S\<lparr>store := (store S)(sid s \<mapsto> s)\<rparr>))))"

text \<open>
  \<^verbatim>\<open>enableHandler\<close> (lines 84--108): the save is not awaited, so the hook
  fires and the handler resolves whatever the store answers.
\<close>

definition enableHandler :: "step_env \<Rightarrow> nat \<Rightarrow> sys_state \<Rightarrow> nat outcome \<times> sys_state" where
  "enableHandler ev i S =
     (case store S i of
        None \<Rightarrow> (Rejected (NotFoundError ''script does not exist''), S)
      | Some s \<Rightarrow>
          if status s \<noteq> SCRIPT_STATUS_ENABLE then
            (let s' = s\<lparr>status := SCRIPT_STATUS_ENABLE, updatetime := env_now ev\<rparr>;
                 S1 = (case env_save ev of Inl _ \<Rightarrow> S | Inr _ \<Rightarrow> S\<lparr>store := (store S)(i \<mapsto> s')\<rparr>)
             in (Resolved 1, hook_enable ev s' S1))
          else (Resolved 1, S))"

text \<open>\<^verbatim>\<open>disableHandler\<close> (lines 110--134).\<close>

definition disableHandler :: "step_env \<Rightarrow> nat \<Rightarrow> sys_state \<Rightarrow> nat outcome \<times> sys_state" where
  "disableHandler ev i S =
     (case store S i of
        None \<Rightarrow> (Rejected (NotFoundError ''script does not exist''), S)
      | Some s \<Rightarrow>
          if status s = SCRIPT_STATUS_ENABLE then
            (let s' = s\<lparr>status := SCRIPT_STATUS_DISABLE, updatetime := env_now ev\<rparr>;
                 S1 = (case env_save ev of Inl _ \<Rightarrow> S | Inr _ \<Rightarrow> S\<lparr>store := (store S)(i \<mapsto> s')\<rparr>)
             in (Resolved 1, hook_disable ev s' S1))
          else (Resolved 1, S))"

text \<open>
  \<^verbatim>\<open>deleteHandler\<close> (lines 136--162): the rejection for a missing script
  and the exception of \<^verbatim>\<open>script.metadata.version[0]\<close> are raised inside
  \<^verbatim>\<open>then\<close> of a promise the handler never returns, so its own promise
  never settles.
\<close>

definition deleteHandler :: "step_env \<Rightarrow> nat \<Rightarrow> sys_state \<Rightarrow> nat outcome \<times> sys_state" where
  "deleteHandler ev i S =
     (case store S i of
        None \<Rightarrow> (Pending, S)
      | Some s \<Rightarrow>
          if metadata s ''version'' = None then (Pending, S)
          else (case env_save ev of
                  Inl e \<Rightarrow> (Rejected e, S)
                | Inr _ \<Rightarrow> (Resolved 1, hook_delete ev s (S\<lparr>store := (store S)(sid s := None)\<rparr>))))"

text \<open>
  \<^verbatim>\<open>fetchInfoHandler\<close> (lines 77--82): resolves with the cached install
  information of the script with that UUID, \<open>None\<close> when nothing is cached
  (the cache, keyed through \<^verbatim>\<open>CacheKey.scriptInfo\<close>, is an argument).
\<close>

definition fetchInfoHandler :: "(string \<rightharpoonup> 'a) \<Rightarrow> string \<Rightarrow> 'a option outcome" where
  "fetchInfoHandler cache u = Resolved (cache u)"

text \<open>
  \<^verbatim>\<open>checkUpdateHandler\<close> (lines 164--167) returns the promise of
  \<^verbatim>\<open>ScriptManager.checkUpdate(id, "user")\<close>, which is not in the sources: its
  answer is the argument, and an update it installs arrives as an upsert.
\<close>

definition checkUpdateHandler :: "'a result \<Rightarrow> 'a outcome" where
  "checkUpdateHandler ans = (case ans of Inl e \<Rightarrow> Rejected e | Inr v \<Rightarrow> Resolved v)"

text \<open>
  The \<^verbatim>\<open>scriptRunStatus\<close> message handler (runtime.ts lines 427--436): it
  records the status and the time (Dexie's \<^verbatim>\<open>update\<close> of a missing key
  does nothing) and triggers the hook.
\<close>

definition scriptRunStatus :: "step_env \<Rightarrow> nat \<Rightarrow> run_status \<Rightarrow> sys_state \<Rightarrow> sys_state" where
  "scriptRunStatus ev i rs S =
     hook_runStatus i rs
       (S\<lparr>store := (case store S i of
                      None \<Rightarrow> store S
                    | Some s \<Rightarrow> (store S)(i \<mapsto> s\<lparr>runStatus := Some rs, lastruntime := env_now ev\<rparr>))\<rparr>)"

text \<open>\<^verbatim>\<open>watchRunStatus\<close> (lines 438--446): a channel subscribes, and its disconnect handler unsubscribes it.\<close>

definition watchRunStatus :: "nat \<Rightarrow> sys_state \<Rightarrow> sys_state" where
  "watchRunStatus c S = S\<lparr>watchers := watchers S @ [c]\<rparr>"

definition disconnectWatch :: "nat \<Rightarrow> sys_state \<Rightarrow> sys_state" where
  "disconnectWatch c S = S\<lparr>watchers := remove1 c (watchers S)\<rparr>"

text \<open>
  The start-up loop (lines 130--144) over the rows of the script table, each
  with the answers its runtime call gets.
\<close>

definition startup_item :: "step_env \<Rightarrow> script \<Rightarrow> sys_state \<Rightarrow> sys_state" where
  "startup_item ev s S =
     (if status s = SCRIPT_STATUS_ENABLE then
        (let S1 = S\<lparr>rts := snd (enable (env_ext ev) (env_flag ev) (env_rpc ev) s (rts S))\<rparr>
         in if stype s \<noteq> SCRIPT_TYPE_NORMAL then S1\<lparr>runBackScript := jm_set (sid s) s (runBackScript S1)\<rparr>
            else S1)
      else if stype s = SCRIPT_TYPE_NORMAL then S\<lparr>rts := snd (disable (env_ext ev) (env_rpc ev) s (rts S))\<rparr>
      else S)"

definition startup :: "(script \<Rightarrow> step_env) \<Rightarrow> script list \<Rightarrow> sys_state \<Rightarrow> sys_state" where
  "startup evf items S = fold (\<lambda>s. startup_item (evf s) s) items S"

definition empty_sys :: sys_state where
  "empty_sys = \<lparr>store = Map.empty, rts = empty_rt, runBackScript = [], watchers = [], sent = []\<rparr>"

text \<open>One handler run: the messages and events the background page serves.\<close>

inductive sys_step :: "sys_state \<Rightarrow> sys_state \<Rightarrow> bool" where
  upsert: "sys_step S (snd (upsertHandler ev s S))"
| enable: "sys_step S (snd (enableHandler ev i S))"
| disable: "sys_step S (snd (disableHandler ev i S))"
| delete: "sys_step S (snd (deleteHandler ev i S))"
| run_status: "sys_step S (scriptRunStatus ev i rs S)"
| watch: "sys_step S (watchRunStatus c S)"
| disconnect: "sys_step S (disconnectWatch c S)"

text \<open>The system states the handlers reach from a fresh installation.\<close>

inductive sys_reachable :: "sys_state \<Rightarrow> bool" where
  init: "sys_reachable empty_sys"
| step: "sys_reachable S \<Longrightarrow> sys_step S S' \<Longrightarrow> sys_reachable S'"

text \<open>Concrete inputs: a disabled and a cached background script, and a step whose value store is down.\<close>

definition bg_sys :: sys_state where
  "bg_sys = empty_sys\<lparr>store := [7 \<mapsto> (background_script 7)\<lparr>status := SCRIPT_STATUS_DISABLE\<rparr>]\<rparr>"

definition env_values_down :: step_env where
  "env_values_down = \<lparr>env_ext = ext_values_down, env_flag = ''flag'', env_rpc = Inr (),
     env_now = 5, env_save = Inr ()\<rparr>"

definition cached_sys :: sys_state where
  "cached_sys = empty_sys\<lparr>store := [7 \<mapsto> (background_script 7)\<lparr>metadata := [''version'' \<mapsto> [''1'']]\<rparr>],
     runBackScript := [(7, background_script 7)]\<rparr>"

text \<open>A step whose stores and sandbox all answer.\<close>

definition env_ok :: step_env where
  "env_ok = \<lparr>env_ext = ext_ok, env_flag = ''flag'', env_rpc = Inr (), env_now = 5, env_save = Inr ()\<rparr>"

section \<open>The event registry\<close>

text \<open>
  The events of the script manager (\<^verbatim>\<open>ScriptEvent\<close>, event.ts lines
  13--19), a call of one of them with its data, and the answer of the
  handler the registry holds for it. \<^verbatim>\<open>ListenEventDecorator\<close> (lines
  20--26) records each decorated method under its event, and the
  constructor (lines 39--47) registers every recorded method with the
  manager, so a call runs the handler of its event.
\<close>

datatype script_event = Upsert | Fetch | Enable | Disable | Delete | CheckUpdate

datatype script_call =
    CallUpsert script | CallFetch string | CallEnable nat | CallDisable nat
  | CallDelete nat | CallCheckUpdate nat

datatype 'a answer = AnsNat "nat outcome" | AnsInfo "'a option outcome" | AnsUpdate "'a outcome"

fun call_event :: "script_call \<Rightarrow> script_event" where
  "call_event (CallUpsert _) = Upsert"
| "call_event (CallFetch _) = Fetch"
| "call_event (CallEnable _) = Enable"
| "call_event (CallDisable _) = Disable"
| "call_event (CallDelete _) = Delete"
| "call_event (CallCheckUpdate _) = CheckUpdate"

text \<open>
  The dispatch: \<open>cache\<close> is the install-information cache that
  \<^verbatim>\<open>fetch\<close> reads and \<open>upd\<close> the script manager's answer to
  \<^verbatim>\<open>checkUpdate\<close>.
\<close>

fun dispatch ::
  "step_env \<Rightarrow> (string \<rightharpoonup> 'a) \<Rightarrow> 'a result \<Rightarrow> script_call \<Rightarrow> sys_state \<Rightarrow> 'a answer \<times> sys_state" where
  "dispatch ev cache upd (CallUpsert s) S = apfst AnsNat (upsertHandler ev s S)"
| "dispatch ev cache upd (CallFetch u) S = (AnsInfo (fetchInfoHandler cache u), S)"
| "dispatch ev cache upd (CallEnable i) S = apfst AnsNat (enableHandler ev i S)"
| "dispatch ev cache upd (CallDisable i) S = apfst AnsNat (disableHandler ev i S)"
| "dispatch ev cache upd (CallDelete i) S = apfst AnsNat (deleteHandler ev i S)"
| "dispatch ev cache upd (CallCheckUpdate i) S = (AnsUpdate (checkUpdateHandler upd), S)"

section \<open>Lemmas\<close>

lemma rts_hooks [simp]:
  "rts (hook_enable ev s S) = snd (scriptUpdate (env_ext ev) (env_flag ev) (env_rpc ev) s (rts S))"
  "rts (hook_disable ev s S) = snd (scriptUpdate (env_ext ev) (env_flag ev) (env_rpc ev) s (rts S))"
  "rts (hook_upsert ev s S) = snd (scriptUpdate (env_ext ev) (env_flag ev) (env_rpc ev) s (rts S))"
  "rts (hook_delete ev s S) = snd (scriptDelete (env_ext ev) (env_rpc ev) s (rts S))"
  by (simp_all add: hook_enable_def hook_disable_def hook_upsert_def hook_delete_def Let_def)

lemma store_hooks [simp]:
  "store (hook_enable ev s S) = store S" "store (hook_disable ev s S) = store S"
  "store (hook_upsert ev s S) = store S"
  by (simp_all add: hook_enable_def hook_disable_def hook_upsert_def Let_def)

lemma runBackScript_hooks [simp]:
  "runBackScript (hook_enable ev s S) =
     (if stype s \<noteq> SCRIPT_TYPE_NORMAL then jm_set (sid s) s (runBackScript S) else runBackScript S)"
  "runBackScript (hook_disable ev s S) =
     (if stype s \<noteq> SCRIPT_TYPE_NORMAL then jm_delete (sid s) (runBackScript S) else runBackScript S)"
  "runBackScript (hook_upsert ev s S) = runBackScript S"
  "runBackScript (hook_delete ev s S) = runBackScript S"
  by (simp_all add: hook_enable_def hook_disable_def hook_upsert_def hook_delete_def Let_def)

lemma rts_runStatus [simp]: "rts (scriptRunStatus ev i rs S) = rts S"
  by (simp add: scriptRunStatus_def hook_runStatus_def runStatus_listener_def Let_def split: option.splits)

lemma enableHandler_disabled:
  assumes "store S i = Some s" and "status s \<noteq> SCRIPT_STATUS_ENABLE"
  shows "enableHandler ev i S =
    (Resolved 1, hook_enable ev (s\<lparr>status := SCRIPT_STATUS_ENABLE, updatetime := env_now ev\<rparr>)
       (case env_save ev of Inl _ \<Rightarrow> S
        | Inr _ \<Rightarrow> S\<lparr>store := (store S)(i \<mapsto> s\<lparr>status := SCRIPT_STATUS_ENABLE, updatetime := env_now ev\<rparr>)\<rparr>))"
  using assms by (simp add: enableHandler_def Let_def)

lemma runBackScript_save_case [simp]:
  "runBackScript (case r of Inl _ \<Rightarrow> S | Inr _ \<Rightarrow> S\<lparr>store := m\<rparr>) = runBackScript S"
  by (simp split: sum.splits)

lemma hook_sim:
  assumes "rts S1 = rts S" and "runBackScript S1 = runBackScript S"
  shows "rts (hook_enable ev s S1) = snd (scriptUpdate (env_ext ev) (env_flag ev) (env_rpc ev) s (rts S)) \<and>
           runBackScript (hook_enable ev s S1) \<in>
             {runBackScript S, jm_set (sid s) s (runBackScript S), jm_delete (sid s) (runBackScript S)}"
    "rts (hook_disable ev s S1) = snd (scriptUpdate (env_ext ev) (env_flag ev) (env_rpc ev) s (rts S)) \<and>
           runBackScript (hook_disable ev s S1) \<in>
             {runBackScript S, jm_set (sid s) s (runBackScript S), jm_delete (sid s) (runBackScript S)}"
    "rts (hook_upsert ev s S1) = snd (scriptUpdate (env_ext ev) (env_flag ev) (env_rpc ev) s (rts S)) \<and>
           runBackScript (hook_upsert ev s S1) \<in>
             {runBackScript S, jm_set (sid s) s (runBackScript S), jm_delete (sid s) (runBackScript S)}"
    "rts (hook_delete ev s S1) = snd (scriptDelete (env_ext ev) (env_rpc ev) s (rts S)) \<and>
           runBackScript (hook_delete ev s S1) = runBackScript S"
  using assms by simp_all

lemma save_case_fields [simp]:
  "rts (case r of Inl _ \<Rightarrow> S | Inr _ \<Rightarrow> S\<lparr>store := m\<rparr>) = rts S"
  by (simp split: sum.splits)

lemma enableHandler_shape:
  "snd (enableHandler ev i S) = S \<or>
   (\<exists>s. snd (enableHandler ev i S) =
      hook_enable ev s (case env_save ev of Inl _ \<Rightarrow> S | Inr _ \<Rightarrow> S\<lparr>store := (store S)(i \<mapsto> s)\<rparr>))"
  by (auto simp: enableHandler_def Let_def split: option.splits)

lemma disableHandler_shape:
  "snd (disableHandler ev i S) = S \<or>
   (\<exists>s. snd (disableHandler ev i S) =
      hook_disable ev s (case env_save ev of Inl _ \<Rightarrow> S | Inr _ \<Rightarrow> S\<lparr>store := (store S)(i \<mapsto> s)\<rparr>))"
  by (auto simp: disableHandler_def Let_def split: option.splits)

lemma deleteHandler_shape:
  "snd (deleteHandler ev i S) = S \<or>
   (\<exists>s. snd (deleteHandler ev i S) = hook_delete ev s (S\<lparr>store := (store S)(sid s := None)\<rparr>))"
  by (auto simp: deleteHandler_def split: option.splits sum.splits)

lemma upsertHandler_shape:
  "snd (upsertHandler ev s S) = S \<or>
   snd (upsertHandler ev s S) = hook_upsert ev s (S\<lparr>store := (store S)(sid s \<mapsto> s)\<rparr>)"
  by (auto simp: upsertHandler_def split: sum.splits)

lemma sys_step_rt:
  assumes "sys_step S S'" and "rt_reachable (rts S)"
  shows "rt_reachable (rts S')"
  using assms(1)
proof cases
  case (upsert ev s)
  with upsertHandler_shape [of ev s S] assms(2) show ?thesis
    by (auto intro: rt_reachable.update)
next
  case (enable ev i)
  with enableHandler_shape [of ev i S] assms(2) show ?thesis
    by (auto intro: rt_reachable.update)
next
  case (disable ev i)
  with disableHandler_shape [of ev i S] assms(2) show ?thesis
    by (auto intro: rt_reachable.update)
next
  case (delete ev i)
  with deleteHandler_shape [of ev i S] assms(2) show ?thesis
    by (auto intro: rt_reachable.delete)
qed (use assms(2) in \<open>simp_all add: watchRunStatus_def disconnectWatch_def\<close>)

lemma sys_reachable_rt_reachable: "sys_reachable S \<Longrightarrow> rt_reachable (rts S)"
proof (induction rule: sys_reachable.induct)
  case init
  then show ?case by (simp add: empty_sys_def rt_reachable.init)
next
  case (step S S')
  from step.hyps(2) step.IH show ?case by (rule sys_step_rt)
qed

text \<open>
  The registry serves every handler step: a dispatched call of a
  state-changing event is a step of \<open>sys_step\<close>, the two reads leave the
  state alone, and the handler steps of \<open>sys_step\<close> are exactly those
  dispatches and the runtime's own messages.
\<close>

lemma dispatch_step:
  "call_event call \<in> {Fetch, CheckUpdate} \<Longrightarrow> snd (dispatch ev cache upd call S) = S"
  "call_event call \<notin> {Fetch, CheckUpdate} \<Longrightarrow> sys_step S (snd (dispatch ev cache upd call S))"
  by (cases call; simp add: sys_step.intros)+

lemma sys_step_dispatch:
  "sys_step S S' \<longleftrightarrow>
     (\<exists>ev call. call_event call \<notin> {Fetch, CheckUpdate} \<and> S' = snd (dispatch ev Map.empty (Inr ()) call S)) \<or>
     (\<exists>ev i rs. S' = scriptRunStatus ev i rs S) \<or> (\<exists>c. S' = watchRunStatus c S) \<or>
     (\<exists>c. S' = disconnectWatch c S)"
proof
  assume "sys_step S S'"
  then show "(\<exists>ev call. call_event call \<notin> {Fetch, CheckUpdate} \<and> S' = snd (dispatch ev Map.empty (Inr ()) call S)) \<or>
     (\<exists>ev i rs. S' = scriptRunStatus ev i rs S) \<or> (\<exists>c. S' = watchRunStatus c S) \<or>
     (\<exists>c. S' = disconnectWatch c S)"
  proof cases
    case (upsert ev s)
    then have "call_event (CallUpsert s) \<notin> {Fetch, CheckUpdate} \<and>
        S' = snd (dispatch ev Map.empty (Inr ()) (CallUpsert s) S)" by simp
    then show ?thesis by blast
  next
    case (enable ev i)
    then have "call_event (CallEnable i) \<notin> {Fetch, CheckUpdate} \<and>
        S' = snd (dispatch ev Map.empty (Inr ()) (CallEnable i) S)" by simp
    then show ?thesis by blast
  next
    case (disable ev i)
    then have "call_event (CallDisable i) \<notin> {Fetch, CheckUpdate} \<and>
        S' = snd (dispatch ev Map.empty (Inr ()) (CallDisable i) S)" by simp
    then show ?thesis by blast
  next
    case (delete ev i)
    then have "call_event (CallDelete i) \<notin> {Fetch, CheckUpdate} \<and>
        S' = snd (dispatch ev Map.empty (Inr ()) (CallDelete i) S)" by simp
    then show ?thesis by blast
  qed blast+
next
  assume "(\<exists>ev call. call_event call \<notin> {Fetch, CheckUpdate} \<and> S' = snd (dispatch ev Map.empty (Inr ()) call S)) \<or>
     (\<exists>ev i rs. S' = scriptRunStatus ev i rs S) \<or> (\<exists>c. S' = watchRunStatus c S) \<or>
     (\<exists>c. S' = disconnectWatch c S)"
  then show "sys_step S S'" by (auto intro: sys_step.intros dispatch_step(2))
qed

lemma runBackScript_deleteHandler [simp]: "runBackScript (snd (deleteHandler ev i S)) = runBackScript S"
  by (simp add: deleteHandler_def split: option.splits sum.splits)

lemma runBackScript_runStatus_absent:
  "store S i = None \<Longrightarrow> runBackScript (scriptRunStatus ev i rs S) = runBackScript S"
  by (simp add: scriptRunStatus_def hook_runStatus_def runStatus_listener_def Let_def)

lemma runBackScript_startup_item:
  "runBackScript (startup_item ev s S) =
     (if status s = SCRIPT_STATUS_ENABLE \<and> stype s \<noteq> SCRIPT_TYPE_NORMAL
      then jm_set (sid s) s (runBackScript S) else runBackScript S)"
  by (simp add: startup_item_def Let_def)

lemma startup_Cons: "startup evf (s # items) S = startup evf items (startup_item (evf s) s S)"
  by (simp add: startup_def)

lemma runBackScript_startup:
  assumes "distinct (map sid items)" and "set (map fst (runBackScript S)) \<inter> set (map sid items) = {}"
  shows "runBackScript (startup evf items S) =
           runBackScript S @ map (\<lambda>s. (sid s, s))
             (filter (\<lambda>s. status s = SCRIPT_STATUS_ENABLE \<and> stype s \<noteq> SCRIPT_TYPE_NORMAL) items)"
  using assms
proof (induction items arbitrary: S)
  case Nil
  then show ?case by (simp add: startup_def)
next
  case (Cons s items)
  let ?S1 = "startup_item (evf s) s S"
  have "sid s \<notin> set (map fst (runBackScript S))" using Cons.prems(2) by auto
  then have r1: "runBackScript ?S1 =
      runBackScript S @ (if status s = SCRIPT_STATUS_ENABLE \<and> stype s \<noteq> SCRIPT_TYPE_NORMAL
                         then [(sid s, s)] else [])"
    by (simp add: runBackScript_startup_item jm_set_absent_append)
  then have "set (map fst (runBackScript ?S1)) \<inter> set (map sid items) = {}"
    using Cons.prems by (auto simp: image_iff)
  moreover have "distinct (map sid items)" using Cons.prems(1) by simp
  ultimately have "runBackScript (startup evf items ?S1) =
      runBackScript ?S1 @ map (\<lambda>s. (sid s, s))
        (filter (\<lambda>s. status s = SCRIPT_STATUS_ENABLE \<and> stype s \<noteq> SCRIPT_TYPE_NORMAL) items)"
    using Cons.IH by blast
  with r1 show ?case by (simp add: startup_Cons)
qed

section \<open>Properties of the handlers and the background cache\<close>

text \<open>
  C21. The background cache records a script whose start failed: enabling a
  disabled background script resolves with 1 and puts the script into
  \<^verbatim>\<open>runBackScript\<close> whatever its build and the sandbox answer, because
  the cache listener runs right after \<open>Runtime.scriptUpdate\<close> without
  waiting for it (runtime.ts 88, 237--242; event.ts 94--101).
\<close>

theorem enableHandler_caches_unstarted:
  assumes "store S i = Some s" and "sid s = i" and "status s = SCRIPT_STATUS_DISABLE"
    and "stype s \<noteq> SCRIPT_TYPE_NORMAL"
  shows "fst (enableHandler ev i S) = Resolved 1 \<and>
         map_of (runBackScript (snd (enableHandler ev i S))) i =
           Some (s\<lparr>status := SCRIPT_STATUS_ENABLE, updatetime := env_now ev\<rparr>)"
  using assms by (simp add: enableHandler_disabled jsmap_simps)

theorem enableHandler_caches_unstarted_witness:
  "fst (enableHandler env_values_down 7 bg_sys) = Resolved 1 \<and>
   map sid (map snd (runBackScript (snd (enableHandler env_values_down 7 bg_sys)))) = [7] \<and>
   rts (snd (enableHandler env_values_down 7 bg_sys)) = empty_rt"
proof -
  have h: "store bg_sys 7 = Some ((background_script 7)\<lparr>status := SCRIPT_STATUS_DISABLE\<rparr>)"
    "sid ((background_script 7)\<lparr>status := SCRIPT_STATUS_DISABLE\<rparr>) = 7"
    "status ((background_script 7)\<lparr>status := SCRIPT_STATUS_DISABLE\<rparr>) = SCRIPT_STATUS_DISABLE"
    "stype ((background_script 7)\<lparr>status := SCRIPT_STATUS_DISABLE\<rparr>) \<noteq> SCRIPT_TYPE_NORMAL"
    by (simp_all add: bg_sys_def background_script_def page_script_def)
  note c = enableHandler_caches_unstarted [OF h, of env_values_down]
  have "rts (snd (enableHandler env_values_down 7 bg_sys)) = empty_rt"
    by (simp add: enableHandler_def bg_sys_def empty_sys_def background_script_def page_script_def
        env_values_down_def rt_eval_simps ext_values_down_def ext_ok_def)
  moreover have "runBackScript (snd (enableHandler env_values_down 7 bg_sys)) =
      [(7, (background_script 7)\<lparr>status := SCRIPT_STATUS_ENABLE, updatetime := 5\<rparr>)]"
    by (simp add: enableHandler_def bg_sys_def empty_sys_def background_script_def page_script_def
        env_values_down_def Let_def)
  ultimately show ?thesis using c by (simp add: background_script_def page_script_def)
qed

text \<open>
  C22. Deleting a script id the store does not hold never settles, while
  enabling or disabling it rejects with a not-found error (event.ts 91--93,
  117--119, 141--143).
\<close>

theorem deleteHandler_missing_pending:
  assumes "store S i = None"
  shows "deleteHandler ev i S = (Pending, S) \<and>
         enableHandler ev i S = (Rejected (NotFoundError ''script does not exist''), S) \<and>
         disableHandler ev i S = (Rejected (NotFoundError ''script does not exist''), S)"
  using assms by (simp add: deleteHandler_def enableHandler_def disableHandler_def)

theorem deleteHandler_missing_pending_witness:
  "deleteHandler env_values_down 3 empty_sys = (Pending, empty_sys)"
  using deleteHandler_missing_pending [of empty_sys 3 env_values_down] by (simp add: empty_sys_def)

text \<open>
  C23. Deleting a cached background script leaves it in the cache: the
  delete handler removes the row and the runtime listener stops the script,
  but nothing removes it from \<^verbatim>\<open>runBackScript\<close>, and a later run-status
  report for it cannot either, since the listener returns when the store has
  no row (runtime.ts 248--252).
\<close>

theorem deleted_background_stays_cached:
  assumes "store S i = Some s" and "sid s = i" and "metadata s ''version'' \<noteq> None"
    and "env_save ev = Inr ()" and "map_of (runBackScript S) i = Some c"
  shows "fst (deleteHandler ev i S) = Resolved 1 \<and> store (snd (deleteHandler ev i S)) i = None \<and>
         map_of (runBackScript (snd (deleteHandler ev i S))) i = Some c \<and>
         runBackScript (scriptRunStatus ev' i rs (snd (deleteHandler ev i S))) =
           runBackScript (snd (deleteHandler ev i S))"
proof -
  have d: "deleteHandler ev i S = (Resolved 1, hook_delete ev s (S\<lparr>store := (store S)(i := None)\<rparr>))"
    using assms(1-4) by (simp add: deleteHandler_def)
  have "store (snd (deleteHandler ev i S)) i = None"
    by (simp add: d hook_delete_def)
  then show ?thesis using assms(5) by (simp add: d runBackScript_runStatus_absent)
qed

theorem deleted_background_stays_cached_witness:
  "fst (deleteHandler env_values_down 7 cached_sys) = Resolved 1 \<and>
   store (snd (deleteHandler env_values_down 7 cached_sys)) 7 = None \<and>
   map_of (runBackScript (snd (deleteHandler env_values_down 7 cached_sys))) 7 = Some (background_script 7) \<and>
   runBackScript (scriptRunStatus env_values_down 7 SCRIPT_RUN_STATUS_COMPLETE
       (snd (deleteHandler env_values_down 7 cached_sys))) =
     runBackScript (snd (deleteHandler env_values_down 7 cached_sys))"
proof -
  let ?s = "(background_script 7)\<lparr>metadata := [''version'' \<mapsto> [''1'']]\<rparr>"
  have h: "store cached_sys 7 = Some ?s" "sid ?s = 7" "metadata ?s ''version'' \<noteq> None"
    "env_save env_values_down = Inr ()" "map_of (runBackScript cached_sys) 7 = Some (background_script 7)"
    by (simp_all add: cached_sys_def empty_sys_def background_script_def page_script_def
        env_values_down_def)
  show ?thesis by (rule deleted_background_stays_cached [OF h])
qed

text \<open>
  C25. The start-up loop caches exactly the enabled non-page scripts, in the
  order of the table, each with its stored row (runtime.ts 130--144).
\<close>

theorem startup_caches_enabled_background:
  assumes "distinct (map sid items)"
  shows "runBackScript (startup evf items (S\<lparr>runBackScript := []\<rparr>)) =
           map (\<lambda>s. (sid s, s))
             (filter (\<lambda>s. status s = SCRIPT_STATUS_ENABLE \<and> stype s \<noteq> SCRIPT_TYPE_NORMAL) items)"
  using runBackScript_startup [OF assms, of "S\<lparr>runBackScript := []\<rparr>" evf] by simp

theorem startup_caches_enabled_background_witness:
  "runBackScript (startup (\<lambda>_. env_values_down)
      [background_script 2, page_script 3 [], (background_script 4)\<lparr>status := SCRIPT_STATUS_DISABLE\<rparr>]
      (empty_sys\<lparr>runBackScript := []\<rparr>)) = [(2, background_script 2)]"
  using startup_caches_enabled_background
      [of "[background_script 2, page_script 3 [], (background_script 4)\<lparr>status := SCRIPT_STATUS_DISABLE\<rparr>]"
        "\<lambda>_. env_values_down" empty_sys]
  by (simp add: background_script_def page_script_def)

text \<open>
  C26. A watcher that disconnects leaves no listener behind: subscribing and
  unsubscribing a channel restores the state, and a later run-status report
  sends nothing on that channel (runtime.ts 438--446, spec section 5).
\<close>

theorem watch_disconnect_no_leak:
  assumes "c \<notin> set (watchers S)"
  shows "disconnectWatch c (watchRunStatus c S) = S \<and>
         c \<notin> fst ` set (drop (length (sent S)) (sent (scriptRunStatus ev i rs S)))"
proof
  show "disconnectWatch c (watchRunStatus c S) = S"
    using assms by (simp add: disconnectWatch_def watchRunStatus_def remove1_append)
next
  have "watchers (runStatus_listener i S') = watchers S'" "sent (runStatus_listener i S') = sent S'" for S'
    by (simp_all add: runStatus_listener_def split: option.splits)
  then show "c \<notin> fst ` set (drop (length (sent S)) (sent (scriptRunStatus ev i rs S)))"
    using assms by (auto simp: scriptRunStatus_def hook_runStatus_def Let_def)
qed

theorem watch_disconnect_no_leak_witness:
  "disconnectWatch 4 (watchRunStatus 4 empty_sys) = empty_sys \<and>
   4 \<notin> fst ` set (drop (length (sent empty_sys))
     (sent (scriptRunStatus env_values_down 7 SCRIPT_RUN_STATUS_COMPLETE empty_sys)))"
  by (rule watch_disconnect_no_leak) (simp add: empty_sys_def)

text \<open>
  Enabling an enabled script or disabling a disabled one resolves with 1
  and changes nothing: no hook fires (event.ts 94, 120).
\<close>

lemma toggle_same_status_noop:
  assumes "store S i = Some s"
  shows "(status s = SCRIPT_STATUS_ENABLE \<longrightarrow> enableHandler ev i S = (Resolved 1, S)) \<and>
         (status s = SCRIPT_STATUS_DISABLE \<longrightarrow> disableHandler ev i S = (Resolved 1, S))"
  using assms by (simp add: enableHandler_def disableHandler_def)

text \<open>
  C36. A script without \<^verbatim>\<open>@version\<close> can be neither saved nor deleted:
  both handlers read \<^verbatim>\<open>script.metadata.version[0]\<close>, which throws; the
  upsert promise rejects and the delete promise never settles, and neither
  changes the state (event.ts 60, 147).
\<close>

theorem unversioned_script_stuck:
  assumes "metadata s ''version'' = None"
  shows "upsertHandler ev s S = (Rejected (TypeError ''Cannot read properties of undefined (reading '0')''), S) \<and>
         (store S i = Some s \<longrightarrow> deleteHandler ev i S = (Pending, S))"
  using assms by (simp add: upsertHandler_def deleteHandler_def)

theorem unversioned_script_stuck_witness:
  "upsertHandler env_values_down (page_script 1 []) (empty_sys\<lparr>store := [1 \<mapsto> page_script 1 []]\<rparr>) =
     (Rejected (TypeError ''Cannot read properties of undefined (reading '0')''),
      empty_sys\<lparr>store := [1 \<mapsto> page_script 1 []]\<rparr>) \<and>
   deleteHandler env_values_down 1 (empty_sys\<lparr>store := [1 \<mapsto> page_script 1 []]\<rparr>) =
     (Pending, empty_sys\<lparr>store := [1 \<mapsto> page_script 1 []]\<rparr>)"
  using unversioned_script_stuck [of "page_script 1 []" env_values_down "empty_sys\<lparr>store := [1 \<mapsto> page_script 1 []]\<rparr>" 1]
  by (simp add: page_script_def)

end
