(* ===== verification/PageLoad.thy ===== *)
theory PageLoad
  imports Runtime
begin

text \<open>
  The \<^verbatim>\<open>pageLoad\<close> handler of \<^verbatim>\<open>Runtime.start\<close> (runtime.ts lines
  324--422): a content page reports that it loaded; the handler resolves the
  scripts for its URL through \<open>matchUrl\<close>, drops those that are not enabled
  and, for a report that carries a frame id, those that declare
  \<^verbatim>\<open>@noframes\<close>; it injects the page-side bootstrap, then every kept
  script at its normalised \<^verbatim>\<open>run-at\<close> timing, answers with the session
  flag and the scripts, and adds their number to the tab's badge counter.
  The browser's \<^verbatim>\<open>executeScript\<close> calls are recorded in order in
  \<open>injections\<close>; the badge is the number \<^verbatim>\<open>parseInt\<close> reads from the
  tab's badge text (\<open>None\<close> where it reads none). The badge update is a
  read-modify-write through the asynchronous \<^verbatim>\<open>getBadgeText\<close> callback
  (lines 405--415), so it is two steps here: \<open>pageLoad\<close> queues a request
  in \<open>badge_reqs\<close>, \<open>badge_answer\<close> is the browser reading the text
  and queueing the callback in \<open>badge_cbs\<close>, \<open>badge_callback\<close> is the
  callback writing the sum; any interleaving of the steps is a run. \<open>scriptFlag\<close> is the
  random flag drawn at construction (line 84) and \<open>injectedSource\<close> the
  wrapped \<^verbatim>\<open>inject.js\<close> (lines 148--155), empty until its fetch resolves.
\<close>

section \<open>Data\<close>

datatype run_at = document_start | document_end | document_idle

datatype inj_code = BootstrapCode string | ScriptCode string

record injection =
  inj_tab :: nat
  inj_frame :: "nat option"
  inj_code :: inj_code
  inj_runAt :: run_at

record page_state =
  injections :: "injection list"
  badge :: "nat \<rightharpoonup> nat"
  badge_reqs :: "(nat \<times> nat) list"
  badge_cbs :: "(nat \<times> nat \<times> nat) list"

record page_response =
  resp_flag :: string
  resp_scripts :: "script list"

section \<open>Operations\<close>

text \<open>
  Lines 374--389: the \<^verbatim>\<open>switch\<close> on the timing string; \<open>None\<close> is
  \<^verbatim>\<open>undefined\<close> (an empty \<^verbatim>\<open>run-at\<close> list), which falls to the default.
\<close>

definition run_at_switch :: "string option \<Rightarrow> run_at" where
  "run_at_switch r =
     (case r of
        None \<Rightarrow> document_idle
      | Some x \<Rightarrow>
          if x = ''document-body'' \<or> x = ''document-menu'' \<or> x = ''document-start'' then document_start
          else if x = ''document-end'' then document_end
          else document_idle)"

text \<open>Lines 370--373: the first \<^verbatim>\<open>run-at\<close> value, \<^verbatim>\<open>document_idle\<close> when absent.\<close>

definition script_run_at :: "script \<Rightarrow> run_at" where
  "script_run_at s =
     run_at_switch (case metadata s ''run-at'' of
                      None \<Rightarrow> Some ''document_idle''
                    | Some xs \<Rightarrow> (case xs of [] \<Rightarrow> None | x # _ \<Rightarrow> Some x))"

text \<open>Lines 338--344: the scripts the handler leaves out.\<close>

definition page_filter :: "msg_sender \<Rightarrow> script \<Rightarrow> bool" where
  "page_filter sd s \<longleftrightarrow>
     status s \<noteq> SCRIPT_STATUS_ENABLE \<or> (frameId sd \<noteq> None \<and> metadata s ''noframes'' \<noteq> None)"

definition script_injection :: "nat \<Rightarrow> nat option \<Rightarrow> script \<Rightarrow> injection" where
  "script_injection t fr s =
     \<lparr>inj_tab = t, inj_frame = fr, inj_code = ScriptCode (code s), inj_runAt = script_run_at s\<rparr>"

text \<open>
  Lines 145--156: \<^verbatim>\<open>injectedSource\<close> is the empty string until the fetch of
  \<^verbatim>\<open>src/inject.js\<close> resolves (\<open>fetched = None\<close>); then it is the file wrapped
  in a function applied to the session flag, passed through \<open>dealScript\<close>.
\<close>

definition injected_source :: "ext \<Rightarrow> string \<Rightarrow> string option \<Rightarrow> string" where
  "injected_source ex scriptFlag fetched =
     (case fetched of
        None \<Rightarrow> []
      | Some source \<Rightarrow>
          dealScript ex (''(function (ScriptFlag) {'' @ [CHR 0x0A] @ source @ [CHR 0x0A] @
                         ''})('' @ [CHR 0x27] @ scriptFlag @ [CHR 0x27] @ '')''))"

text \<open>Lines 347--359: the bootstrap that installs \<^verbatim>\<open>inject.js\<close> in the page.\<close>

definition bootstrap_injection :: "nat \<Rightarrow> nat option \<Rightarrow> string \<Rightarrow> injection" where
  "bootstrap_injection t fr src =
     \<lparr>inj_tab = t, inj_frame = fr, inj_code = BootstrapCode src, inj_runAt = document_start\<rparr>"

text \<open>
  Lines 325--422. \<open>None\<close>: the promise never settles (no sender, or no URL
  or tab id, where an empty URL and tab id 0 count as absent).
\<close>

definition pageLoad ::
  "string \<Rightarrow> string \<Rightarrow> msg_sender option \<Rightarrow> rt_state \<Rightarrow> page_state \<Rightarrow>
     (page_response \<times> page_state) option" where
  "pageLoad scriptFlag injectedSource sender st ps =
     (case sender of
        None \<Rightarrow> None
      | Some sd \<Rightarrow>
          (case (url sd, tabId sd) of
             (Some u, Some t) \<Rightarrow>
               if u = [] \<or> t = 0 then None
               else
                 (let filt = matchUrl (page_filter sd) u st;
                      ps1 = ps\<lparr>injections := injections ps @ [bootstrap_injection t (frameId sd) injectedSource]\<rparr>
                  in if filt = [] then Some (\<lparr>resp_flag = scriptFlag, resp_scripts = []\<rparr>, ps1)
                     else Some (\<lparr>resp_flag = scriptFlag, resp_scripts = filt\<rparr>,
                       ps1\<lparr>injections := injections ps1 @ map (script_injection t (frameId sd)) filt,
                           badge_reqs := badge_reqs ps1 @ [(t, length filt)]\<rparr>))
           | _ \<Rightarrow> None))"

text \<open>
  \<^verbatim>\<open>parseInt(res, 10) || 0\<close> (line 411): the number read from the badge text,
  0 where there is none.
\<close>

definition badge_count :: "page_state \<Rightarrow> nat \<Rightarrow> nat" where
  "badge_count ps t = (case badge ps t of None \<Rightarrow> 0 | Some n \<Rightarrow> n)"

text \<open>The browser answers the oldest \<^verbatim>\<open>getBadgeText\<close> request (lines 405--408).\<close>

definition badge_answer :: "page_state \<Rightarrow> page_state" where
  "badge_answer ps =
     (case badge_reqs ps of
        [] \<Rightarrow> ps
      | (t, n) # rest \<Rightarrow> ps\<lparr>badge_reqs := rest, badge_cbs := badge_cbs ps @ [(t, n, badge_count ps t)]\<rparr>)"

text \<open>The oldest callback runs \<^verbatim>\<open>setBadgeText\<close> with the sum (lines 409--414).\<close>

definition badge_callback :: "page_state \<Rightarrow> page_state" where
  "badge_callback ps =
     (case badge_cbs ps of
        [] \<Rightarrow> ps
      | (t, n, r) # rest \<Rightarrow> ps\<lparr>badge_cbs := rest, badge := (badge ps)(t \<mapsto> n + r)\<rparr>)"

text \<open>Concrete inputs: a report from tab 5's top frame against one indexed page script.\<close>

definition top_sender :: "nat \<Rightarrow> string \<Rightarrow> msg_sender" where
  "top_sender t u = \<lparr>tabId = Some t, frameId = None, url = Some u, targetTag = ''content''\<rparr>"

definition empty_page :: page_state where
  "empty_page = \<lparr>injections = [], badge = Map.empty, badge_reqs = [], badge_cbs = []\<rparr>"

definition st_one_page :: rt_state where
  "st_one_page = snd (scriptUpdate ext_ok ''flag'' (Inr ()) (page_script 1 [''*://a.test/*'']) empty_rt)"

section \<open>Lemmas\<close>

lemma pageLoad_Some_iff:
  "pageLoad f src sender st ps = Some (r, ps') \<longleftrightarrow>
     (\<exists>sd u t. sender = Some sd \<and> url sd = Some u \<and> u \<noteq> [] \<and> tabId sd = Some t \<and> 0 < t \<and>
        r = \<lparr>resp_flag = f, resp_scripts = matchUrl (page_filter sd) u st\<rparr> \<and>
        ps' = ps\<lparr>injections := injections ps @ bootstrap_injection t (frameId sd) src #
                   map (script_injection t (frameId sd)) (matchUrl (page_filter sd) u st),
                 badge_reqs := badge_reqs ps @
                   (if matchUrl (page_filter sd) u st = [] then []
                    else [(t, length (matchUrl (page_filter sd) u st))])\<rparr>)"
  by (auto simp: pageLoad_def bootstrap_injection_def Let_def split: option.splits if_splits)

lemma pageLoad_None_iff:
  "pageLoad f src sender st ps = None \<longleftrightarrow>
     (case sender of None \<Rightarrow> True
      | Some sd \<Rightarrow> url sd = None \<or> url sd = Some [] \<or> tabId sd = None \<or> tabId sd = Some 0)"
  by (auto simp: pageLoad_def Let_def split: option.splits)

lemma matchUrl_page_filter:
  assumes "t \<in> set (matchUrl (page_filter sd) u st)"
  shows "status t = SCRIPT_STATUS_ENABLE \<and> (frameId sd \<noteq> None \<longrightarrow> metadata t ''noframes'' = None)"
  using matchUrl_member [OF assms] by (auto simp: page_filter_def)

lemma distinct_matchUrl: "distinct (map sid (matchUrl filt u st))"
  by (simp add: matchUrl_def map_sid_dedup_by_id)

lemma top_sender_simps [simp]:
  "tabId (top_sender t u) = Some t" "frameId (top_sender t u) = None" "url (top_sender t u) = Some u"
  by (simp_all add: top_sender_def)

lemma pageLoad_resp:
  assumes "pageLoad f src (Some sd) st ps = Some (r, ps')"
  obtains u t where "url sd = Some u" "tabId sd = Some t"
    "resp_scripts r = matchUrl (page_filter sd) u st"
    "injections ps' = injections ps @ bootstrap_injection t (frameId sd) src #
       map (script_injection t (frameId sd)) (resp_scripts r)"
  using assms by (auto simp: pageLoad_Some_iff)

lemma pageLoad_before_fetch:
  assumes "pageLoad f (injected_source ex f None) (Some sd) st ps = Some (r, ps')" and "tabId sd = Some t"
  shows "injections ps' ! length (injections ps) = bootstrap_injection t (frameId sd) []"
  using assms by (auto simp: pageLoad_Some_iff injected_source_def nth_append)

lemma st_one_page_match:
  "map sid (matchUrl (page_filter (top_sender 5 ''https://a.test/x'')) ''https://a.test/x'' st_one_page) = [1]"
  by (simp add: st_one_page_def rt_eval_simps ext_ok_def page_script_def page_filter_def)

lemma pageLoad_top_sender_Some:
  "\<exists>r ps'. pageLoad ''flag'' ''boot'' (Some (top_sender 5 ''https://a.test/x'')) st_one_page ps = Some (r, ps')"
proof -
  have "pageLoad ''flag'' ''boot'' (Some (top_sender 5 ''https://a.test/x'')) st_one_page ps \<noteq> None"
    by (simp add: pageLoad_None_iff)
  then show ?thesis by (metis option.exhaust prod.exhaust)
qed

lemma pageLoad_top_sender_resp:
  "pageLoad ''flag'' ''boot'' (Some (top_sender 5 ''https://a.test/x'')) st_one_page ps = Some (r, ps') \<Longrightarrow>
     length (resp_scripts r) = 1"
  using st_one_page_match by (auto simp: pageLoad_Some_iff dest: arg_cong [where f = length])

lemma badge_sequential:
  assumes "badge_reqs ps = (t, n) # rest" and "badge_cbs ps = []"
  shows "badge (badge_callback (badge_answer ps)) t = Some (n + badge_count ps t)"
  using assms by (simp add: badge_answer_def badge_callback_def)

lemma badge_lost_update:
  assumes "badge_reqs ps = [(t, n1), (t, n2)]" and "badge_cbs ps = []"
  shows "badge (badge_callback (badge_callback (badge_answer (badge_answer ps)))) t =
           Some (n2 + badge_count ps t)"
  using assms by (simp add: badge_answer_def badge_callback_def badge_count_def)

lemma pageLoad_badge_fields:
  assumes "pageLoad f src (Some sd) st ps = Some (r, ps')" and "tabId sd = Some t"
  shows "badge ps' = badge ps \<and> badge_cbs ps' = badge_cbs ps \<and>
         badge_reqs ps' = badge_reqs ps @ (if resp_scripts r = [] then [] else [(t, length (resp_scripts r))])"
  using assms by (auto simp: pageLoad_Some_iff)

lemma page_filter_compiled_enabled:
  "status s = SCRIPT_STATUS_ENABLE \<Longrightarrow> metadata s ''noframes'' = None \<Longrightarrow>
     \<not> page_filter sd (compiled_page_script ex s)"
  by (simp add: page_filter_def)

text \<open>
  A page load of a URL that an enabled, indexed page script's \<^verbatim>\<open>@match\<close>
  rule covers answers with the script and injects its code.
\<close>

lemma pageLoad_injects_loaded:
  assumes "r \<in> set (meta_list (metadata s) ''match'')" and "parse_match_rule r = Inr p"
    and "match_sat p u" and "meta_list (metadata s) ''exclude'' = []"
    and "status s = SCRIPT_STATUS_ENABLE" and "metadata s ''noframes'' = None"
    and "url sd = Some u" and "u \<noteq> []" and "tabId sd = Some t" and "0 < t"
  shows "\<exists>res ps'. pageLoad f src (Some sd) (snd (loadPageScript ex s st)) ps = Some (res, ps') \<and>
           compiled_page_script ex s \<in> set (resp_scripts res) \<and>
           script_injection t (frameId sd) (compiled_page_script ex s) \<in> set (injections ps')"
proof -
  have "\<exists>x \<in> set (matchUrl (page_filter sd) u (snd (loadPageScript ex s st))).
      x = compiled_page_script ex s"
    using assms(1-4) page_filter_compiled_enabled [OF assms(5,6)] by (rule loadPageScript_matched_filt)
  with assms(7-10) show ?thesis by (auto simp: pageLoad_Some_iff)
qed

section \<open>Properties of the page-load handler\<close>

text \<open>
  C13. Every script \<open>pageLoad\<close> answers with and injects is enabled,
  appears once, and, when the report carries a frame id, does not declare
  \<^verbatim>\<open>@noframes\<close> (lines 336--344). The top frame of a tab also reports a
  frame id (0), so a \<^verbatim>\<open>@noframes\<close> script is never injected at all.
\<close>

theorem pageLoad_injects_enabled:
  assumes "pageLoad f src (Some sd) st ps = Some (r, ps')"
  shows "distinct (map sid (resp_scripts r)) \<and>
         (\<forall>s \<in> set (resp_scripts r). status s = SCRIPT_STATUS_ENABLE \<and>
            (frameId sd \<noteq> None \<longrightarrow> metadata s ''noframes'' = None))"
proof -
  obtain u t where "resp_scripts r = matchUrl (page_filter sd) u st"
    using assms by (rule pageLoad_resp)
  then show ?thesis using matchUrl_page_filter [of _ sd u st] by (simp add: distinct_matchUrl)
qed

theorem pageLoad_injects_enabled_witness:
  "\<exists>r ps'. pageLoad ''flag'' ''boot'' (Some (top_sender 5 ''https://a.test/x'')) st_one_page empty_page =
      Some (r, ps') \<and> map status (resp_scripts r) = [SCRIPT_STATUS_ENABLE]"
proof -
  obtain r ps' where e: "pageLoad ''flag'' ''boot'' (Some (top_sender 5 ''https://a.test/x''))
      st_one_page empty_page = Some (r, ps')"
    using pageLoad_top_sender_Some by blast
  have "\<forall>s \<in> set (resp_scripts r). status s = SCRIPT_STATUS_ENABLE \<and>
      (frameId (top_sender 5 ''https://a.test/x'') \<noteq> None \<longrightarrow> metadata s ''noframes'' = None)"
    using pageLoad_injects_enabled [OF e] by (rule conjunct2)
  moreover have "length (resp_scripts r) = 1"
    using e by (rule pageLoad_top_sender_resp)
  ultimately have "map status (resp_scripts r) = [SCRIPT_STATUS_ENABLE]"
    by (cases "resp_scripts r") auto
  with e show ?thesis by (intro exI conjI)
qed

text \<open>
  C14. The handler's promise settles exactly when the report has a sender with
  a non-empty URL and a non-zero tab id; otherwise it returns before
  \<^verbatim>\<open>resolve\<close> and the content page waits forever (lines 329--334).
\<close>

theorem pageLoad_settles:
  "(\<exists>res. pageLoad f src sender st ps = Some res) \<longleftrightarrow>
     (\<exists>sd u t. sender = Some sd \<and> url sd = Some u \<and> u \<noteq> [] \<and> tabId sd = Some t \<and> 0 < t)"
proof -
  have "(\<exists>res. pageLoad f src sender st ps = Some res) \<longleftrightarrow> pageLoad f src sender st ps \<noteq> None"
    by auto
  then show ?thesis by (auto simp: pageLoad_None_iff split: option.splits)
qed

text \<open>
  C15. The handler injects the bootstrap first, at \<^verbatim>\<open>document_start\<close>,
  then each answered script in order, in the reporting tab and frame
  (lines 347--401).
\<close>

theorem pageLoad_injection_order:
  assumes "pageLoad f src (Some sd) st ps = Some (r, ps')" and "tabId sd = Some t"
  shows "injections ps' = injections ps @ bootstrap_injection t (frameId sd) src #
           map (script_injection t (frameId sd)) (resp_scripts r)"
  using assms by (auto simp: pageLoad_Some_iff)

theorem pageLoad_injection_order_witness:
  "\<exists>r ps'. pageLoad ''flag'' ''boot'' (Some (top_sender 5 ''https://a.test/x'')) st_one_page empty_page =
      Some (r, ps') \<and> length (injections ps') = 2 \<and>
      hd (injections ps') = bootstrap_injection 5 None ''boot''"
proof -
  obtain r ps' where e: "pageLoad ''flag'' ''boot'' (Some (top_sender 5 ''https://a.test/x''))
      st_one_page empty_page = Some (r, ps')"
    using pageLoad_top_sender_Some by blast
  have "injections ps' = injections empty_page @ bootstrap_injection 5 None ''boot'' #
      map (script_injection 5 None) (resp_scripts r)"
    using pageLoad_injection_order [OF e] by simp
  moreover have "length (resp_scripts r) = 1"
    using e by (rule pageLoad_top_sender_resp)
  ultimately show ?thesis using e by (simp add: empty_page_def)
qed

text \<open>
  C17. A page load that answers with scripts, followed by the browser's answer
  and the callback, adds their number to the tab's badge counter (lines
  405--415).
\<close>

theorem pageLoad_badge_sequential:
  assumes "pageLoad f src (Some sd) st ps = Some (r, ps')" and "tabId sd = Some t"
    and "badge_reqs ps = []" and "badge_cbs ps = []" and "resp_scripts r \<noteq> []"
  shows "badge (badge_callback (badge_answer ps')) t = Some (length (resp_scripts r) + badge_count ps t)"
proof -
  have "badge_reqs ps' = [(t, length (resp_scripts r))]" "badge_cbs ps' = []" "badge ps' = badge ps"
    using pageLoad_badge_fields [OF assms(1,2)] assms(3-5) by simp_all
  then show ?thesis by (simp add: badge_sequential badge_count_def)
qed

theorem pageLoad_badge_sequential_witness:
  "\<exists>r ps'. pageLoad ''flag'' ''boot'' (Some (top_sender 5 ''https://a.test/x'')) st_one_page empty_page =
      Some (r, ps') \<and> badge (badge_callback (badge_answer ps')) 5 = Some 1"
proof -
  obtain r ps' where e: "pageLoad ''flag'' ''boot'' (Some (top_sender 5 ''https://a.test/x''))
      st_one_page empty_page = Some (r, ps')"
    using pageLoad_top_sender_Some by blast
  have len: "length (resp_scripts r) = 1"
    using e by (rule pageLoad_top_sender_resp)
  have "badge (badge_callback (badge_answer ps')) 5 = Some (length (resp_scripts r) + badge_count empty_page 5)"
    by (rule pageLoad_badge_sequential [OF e]) (use len in \<open>auto simp: empty_page_def\<close>)
  with len e show ?thesis by (auto simp: badge_count_def empty_page_def)
qed

text \<open>
  C18. The badge update is not atomic: when two page loads of the same tab
  are both answered by the browser before either callback runs, both
  callbacks add to the same old value and the counter ends one load short.
\<close>

theorem pageLoad_badge_lost_update:
  assumes "pageLoad f src (Some sd) st ps = Some (r1, ps1)"
    and "pageLoad f src (Some sd) st ps1 = Some (r2, ps2)" and "tabId sd = Some t"
    and "badge_reqs ps = []" and "badge_cbs ps = []" and "resp_scripts r1 \<noteq> []"
  shows "resp_scripts r2 = resp_scripts r1 \<and>
         badge (badge_callback (badge_callback (badge_answer (badge_answer ps2)))) t =
           Some (length (resp_scripts r1) + badge_count ps t)"
proof -
  have r: "resp_scripts r2 = resp_scripts r1"
    using assms(1,2) by (auto simp: pageLoad_Some_iff)
  have "badge_reqs ps1 = [(t, length (resp_scripts r1))]" "badge_cbs ps1 = []" "badge ps1 = badge ps"
    using pageLoad_badge_fields [OF assms(1,3)] assms(4-6) by simp_all
  moreover have "badge_reqs ps2 = badge_reqs ps1 @ [(t, length (resp_scripts r1))]"
    "badge_cbs ps2 = badge_cbs ps1" "badge ps2 = badge ps1"
    using pageLoad_badge_fields [OF assms(2,3)] r assms(6) by simp_all
  ultimately have "badge (badge_callback (badge_callback (badge_answer (badge_answer ps2)))) t =
      Some (length (resp_scripts r1) + badge_count ps2 t)"
    by (simp add: badge_lost_update)
  with r \<open>badge ps2 = badge ps1\<close> \<open>badge ps1 = badge ps\<close> show ?thesis
    by (simp add: badge_count_def)
qed

theorem pageLoad_badge_lost_update_witness:
  "\<exists>r1 ps1 r2 ps2.
     pageLoad ''flag'' ''boot'' (Some (top_sender 5 ''https://a.test/x'')) st_one_page empty_page = Some (r1, ps1) \<and>
     pageLoad ''flag'' ''boot'' (Some (top_sender 5 ''https://a.test/x'')) st_one_page ps1 = Some (r2, ps2) \<and>
     badge (badge_callback (badge_callback (badge_answer (badge_answer ps2)))) 5 = Some 1"
proof -
  obtain r1 ps1 where e1: "pageLoad ''flag'' ''boot'' (Some (top_sender 5 ''https://a.test/x''))
      st_one_page empty_page = Some (r1, ps1)"
    using pageLoad_top_sender_Some by blast
  obtain r2 ps2 where e2: "pageLoad ''flag'' ''boot'' (Some (top_sender 5 ''https://a.test/x''))
      st_one_page ps1 = Some (r2, ps2)"
    using pageLoad_top_sender_Some by blast
  have len: "length (resp_scripts r1) = 1"
    using e1 by (rule pageLoad_top_sender_resp)
  have "resp_scripts r2 = resp_scripts r1 \<and>
      badge (badge_callback (badge_callback (badge_answer (badge_answer ps2)))) 5 =
      Some (length (resp_scripts r1) + badge_count empty_page 5)"
    by (rule pageLoad_badge_lost_update [OF e1 e2])
      (use len in \<open>auto simp: empty_page_def\<close>)
  with len have "badge (badge_callback (badge_callback (badge_answer (badge_answer ps2)))) 5 = Some 1"
    by (simp add: badge_count_def empty_page_def)
  with e1 e2 show ?thesis by blast
qed

end
