(* ===== verification/Async.thy ===== *)
theory Async
  imports Events PageLoad
begin

text \<open>
  The event handlers of Events with the one await of the runtime listener
  made explicit. \<^verbatim>\<open>Runtime.enable\<close> (runtime.ts lines 485--492) starts
  with \<^verbatim>\<open>await this.buildScriptRunResource(script)\<close>, whose value and
  resource lookups go to the stores, so its message to the sandbox (a
  background script) or its re-index (a page script) happens in a later task;
  \<^verbatim>\<open>Runtime.disable\<close> (lines 495--500) awaits nothing before it sends or
  re-indexes. A hook does not await its listeners, so the handler that
  triggered an enable has resolved, and other handlers may run, before that
  enable completes. \<open>async_state\<close> is \<open>sys_state\<close> with the queue of
  enables waiting for their build, each with the answers it will get;
  \<open>build_done k\<close> completes the \<open>k\<close>-th of them, in any order, since the
  stores may answer in any order. Completing every build right after the
  handler that started it gives back the handlers of Events.
\<close>

section \<open>State\<close>

record async_state =
  sys :: sys_state
  builds :: "(step_env \<times> script) list"

section \<open>The runtime listener, split at its await\<close>

text \<open>
  \<^verbatim>\<open>Runtime.scriptUpdate\<close> (lines 450--455) as a hook calls it: an enabled
  script's \<^verbatim>\<open>enable\<close> stops at the await of line 487 and is queued; a
  disabled script's \<^verbatim>\<open>disable\<close> runs to its message or re-index at once.
\<close>

definition scriptUpdate_async :: "step_env \<Rightarrow> script \<Rightarrow> async_state \<Rightarrow> async_state" where
  "scriptUpdate_async ev s A =
     (if status s = SCRIPT_STATUS_ENABLE then A\<lparr>builds := builds A @ [(ev, s)]\<rparr>
      else A\<lparr>sys := (sys A)\<lparr>rts := snd (disable (env_ext ev) (env_rpc ev) s (rts (sys A)))\<rparr>\<rparr>)"

text \<open>
  Lines 487--491 after the await: the build of the \<open>k\<close>-th pending enable
  has its answers, and the rest of \<^verbatim>\<open>enable\<close> runs on the runtime state of
  that moment. An index past the queue is no event.
\<close>

definition build_done :: "nat \<Rightarrow> async_state \<Rightarrow> async_state" where
  "build_done k A =
     (if k < length (builds A) then
        (let (ev, s) = builds A ! k
         in A\<lparr>sys := (sys A)\<lparr>rts := snd (enable (env_ext ev) (env_flag ev) (env_rpc ev) s (rts (sys A)))\<rparr>,
              builds := take k (builds A) @ drop (Suc k) (builds A)\<rparr>)
      else A)"

text \<open>
  The \<^verbatim>\<open>enable\<close>, \<^verbatim>\<open>disable\<close> and \<^verbatim>\<open>upsert\<close> hooks: the runtime
  listener (lines 86--89), then the cache listener of \<^verbatim>\<open>start\<close>
  (lines 237--247), which runs while the runtime listener awaits.
\<close>

definition hook_enable_async :: "step_env \<Rightarrow> script \<Rightarrow> async_state \<Rightarrow> async_state" where
  "hook_enable_async ev s A =
     (let A1 = scriptUpdate_async ev s A
      in if stype s \<noteq> SCRIPT_TYPE_NORMAL
         then A1\<lparr>sys := (sys A1)\<lparr>runBackScript := jm_set (sid s) s (runBackScript (sys A1))\<rparr>\<rparr>
         else A1)"

definition hook_disable_async :: "step_env \<Rightarrow> script \<Rightarrow> async_state \<Rightarrow> async_state" where
  "hook_disable_async ev s A =
     (let A1 = scriptUpdate_async ev s A
      in if stype s \<noteq> SCRIPT_TYPE_NORMAL
         then A1\<lparr>sys := (sys A1)\<lparr>runBackScript := jm_delete (sid s) (runBackScript (sys A1))\<rparr>\<rparr>
         else A1)"

section \<open>The handlers\<close>

text \<open>\<^verbatim>\<open>enableHandler\<close> (event.ts lines 84--108) with the queued enable.\<close>

definition a_enableHandler :: "step_env \<Rightarrow> nat \<Rightarrow> async_state \<Rightarrow> nat outcome \<times> async_state" where
  "a_enableHandler ev i A =
     (case store (sys A) i of
        None \<Rightarrow> (Rejected (NotFoundError ''script does not exist''), A)
      | Some s \<Rightarrow>
          if status s \<noteq> SCRIPT_STATUS_ENABLE then
            (let s' = s\<lparr>status := SCRIPT_STATUS_ENABLE, updatetime := env_now ev\<rparr>;
                 S1 = (case env_save ev of Inl _ \<Rightarrow> sys A | Inr _ \<Rightarrow> (sys A)\<lparr>store := (store (sys A))(i \<mapsto> s')\<rparr>)
             in (Resolved 1, hook_enable_async ev s' (A\<lparr>sys := S1\<rparr>)))
          else (Resolved 1, A))"

text \<open>\<^verbatim>\<open>disableHandler\<close> (lines 110--134).\<close>

definition a_disableHandler :: "step_env \<Rightarrow> nat \<Rightarrow> async_state \<Rightarrow> nat outcome \<times> async_state" where
  "a_disableHandler ev i A =
     (case store (sys A) i of
        None \<Rightarrow> (Rejected (NotFoundError ''script does not exist''), A)
      | Some s \<Rightarrow>
          if status s = SCRIPT_STATUS_ENABLE then
            (let s' = s\<lparr>status := SCRIPT_STATUS_DISABLE, updatetime := env_now ev\<rparr>;
                 S1 = (case env_save ev of Inl _ \<Rightarrow> sys A | Inr _ \<Rightarrow> (sys A)\<lparr>store := (store (sys A))(i \<mapsto> s')\<rparr>)
             in (Resolved 1, hook_disable_async ev s' (A\<lparr>sys := S1\<rparr>)))
          else (Resolved 1, A))"

text \<open>\<^verbatim>\<open>upsertHandler\<close> (lines 50--75): an enabled script's enable is queued.\<close>

definition a_upsertHandler :: "step_env \<Rightarrow> script \<Rightarrow> async_state \<Rightarrow> nat outcome \<times> async_state" where
  "a_upsertHandler ev s A =
     (if metadata s ''version'' = None
      then (Rejected (TypeError ''Cannot read properties of undefined (reading '0')''), A)
      else (case env_save ev of
              Inl e \<Rightarrow> (Rejected e, A)
            | Inr _ \<Rightarrow> (Resolved (sid s),
                scriptUpdate_async ev s (A\<lparr>sys := (sys A)\<lparr>store := (store (sys A))(sid s \<mapsto> s)\<rparr>\<rparr>))))"

text \<open>
  The handlers without an await before their effects: the delete listener
  (\<^verbatim>\<open>scriptDelete\<close> awaits \<^verbatim>\<open>disable\<close>, which has sent its message
  before it returns), the run-status message and the watch channels.
\<close>

inductive async_step :: "async_state \<Rightarrow> async_state \<Rightarrow> bool" where
  upsert: "async_step A (snd (a_upsertHandler ev s A))"
| enable: "async_step A (snd (a_enableHandler ev i A))"
| disable: "async_step A (snd (a_disableHandler ev i A))"
| delete: "async_step A (A\<lparr>sys := snd (deleteHandler ev i (sys A))\<rparr>)"
| run_status: "async_step A (A\<lparr>sys := scriptRunStatus ev i rs (sys A)\<rparr>)"
| watch: "async_step A (A\<lparr>sys := watchRunStatus c (sys A)\<rparr>)"
| disconnect: "async_step A (A\<lparr>sys := disconnectWatch c (sys A)\<rparr>)"
| build: "k < length (builds A) \<Longrightarrow> async_step A (build_done k A)"

inductive async_reachable :: "async_state \<Rightarrow> bool" where
  init: "async_reachable \<lparr>sys = empty_sys, builds = []\<rparr>"
| step: "async_reachable A \<Longrightarrow> async_step A A' \<Longrightarrow> async_reachable A'"

text \<open>
  The invariant of the reachable states: the runtime state is reachable in
  the runtime's own transition system, and every queued enable is of an
  enabled script.
\<close>

definition async_inv :: "async_state \<Rightarrow> bool" where
  "async_inv A \<longleftrightarrow> rt_reachable (rts (sys A)) \<and> list_all (\<lambda>(_, s). status s = SCRIPT_STATUS_ENABLE) (builds A)"

section \<open>Concrete inputs\<close>

text \<open>A disabled page script and a disabled background script, both with a version, in the store.\<close>

definition page_off :: script where
  "page_off = (page_script 1 [''*://a.test/*''])\<lparr>status := SCRIPT_STATUS_DISABLE,
     metadata := [''match'' \<mapsto> [''*://a.test/*''], ''version'' \<mapsto> [''1'']]\<rparr>"

definition two_off :: async_state where
  "two_off = \<lparr>sys = empty_sys\<lparr>store := [1 \<mapsto> page_off, 7 \<mapsto> (background_script 7)\<lparr>status := SCRIPT_STATUS_DISABLE\<rparr>]\<rparr>,
     builds = []\<rparr>"

section \<open>Lemmas\<close>

lemma a_disableHandler_eq:
  "a_disableHandler ev i A = (fst (disableHandler ev i (sys A)), A\<lparr>sys := snd (disableHandler ev i (sys A))\<rparr>)"
  by (simp add: a_disableHandler_def disableHandler_def hook_disable_async_def hook_disable_def
      scriptUpdate_async_def scriptUpdate_def Let_def split: option.splits sum.splits)

lemma build_done_last:
  "build_done (length (builds A)) (A\<lparr>builds := builds A @ [(ev, s)]\<rparr>) =
     A\<lparr>sys := (sys A)\<lparr>rts := snd (enable (env_ext ev) (env_flag ev) (env_rpc ev) s (rts (sys A)))\<rparr>\<rparr>"
  by (simp add: build_done_def)

lemma build_done_past [simp]: "length (builds A) \<le> k \<Longrightarrow> build_done k A = A"
  by (simp add: build_done_def)

lemma build_done_sys [simp]:
  "store (sys (build_done k A)) = store (sys A)"
  "runBackScript (sys (build_done k A)) = runBackScript (sys A)"
  "watchers (sys (build_done k A)) = watchers (sys A)"
  "sent (sys (build_done k A)) = sent (sys A)"
  by (simp_all add: build_done_def split: prod.splits)

text \<open>
  Refinement of the atomic model: completing the build right after the
  handler that queued it gives the handler of Events, outcome and state.
\<close>

lemma a_enableHandler_sequential:
  "fst (a_enableHandler ev i A) = fst (enableHandler ev i (sys A)) \<and>
   build_done (length (builds A)) (snd (a_enableHandler ev i A)) = A\<lparr>sys := snd (enableHandler ev i (sys A))\<rparr>"
  by (auto simp: a_enableHandler_def enableHandler_def hook_enable_async_def hook_enable_def
      scriptUpdate_async_def scriptUpdate_def build_done_def Let_def split: option.splits sum.splits)

lemma a_upsertHandler_sequential:
  "fst (a_upsertHandler ev s A) = fst (upsertHandler ev s (sys A)) \<and>
   build_done (length (builds A)) (snd (a_upsertHandler ev s A)) = A\<lparr>sys := snd (upsertHandler ev s (sys A))\<rparr>"
  by (auto simp: a_upsertHandler_def upsertHandler_def hook_upsert_def
      scriptUpdate_async_def scriptUpdate_def build_done_def Let_def split: option.splits sum.splits)

text \<open>
  Enabling a disabled script and disabling it again before the build of the
  enable has finished: the store holds the disabled row, the disable has
  acted, and the enable waits in the queue.
\<close>

lemma enable_then_disable:
  assumes "store (sys A) i = Some s" and "sid s = i" and "status s \<noteq> SCRIPT_STATUS_ENABLE"
    and "env_save ev1 = Inr ()" and "env_save ev2 = Inr ()"
  shows "store (sys (snd (a_disableHandler ev2 i (snd (a_enableHandler ev1 i A))))) i =
           Some (s\<lparr>status := SCRIPT_STATUS_DISABLE, updatetime := env_now ev2\<rparr>)"
    "builds (snd (a_disableHandler ev2 i (snd (a_enableHandler ev1 i A)))) =
       builds A @ [(ev1, s\<lparr>status := SCRIPT_STATUS_ENABLE, updatetime := env_now ev1\<rparr>)]"
    "rts (sys (snd (a_disableHandler ev2 i (snd (a_enableHandler ev1 i A))))) =
       snd (disable (env_ext ev2) (env_rpc ev2) (s\<lparr>status := SCRIPT_STATUS_DISABLE, updatetime := env_now ev2\<rparr>)
         (rts (sys A)))"
    "map_of (runBackScript (sys (snd (a_disableHandler ev2 i (snd (a_enableHandler ev1 i A)))))) i =
       (if stype s \<noteq> SCRIPT_TYPE_NORMAL then None else map_of (runBackScript (sys A)) i)"
  using assms
  by (simp_all add: a_enableHandler_def a_disableHandler_def hook_enable_async_def hook_disable_async_def
      scriptUpdate_async_def Let_def)

text \<open>
  Invariant: the runtime state stays reachable in the runtime's own
  transition system, and every queued enable is of an enabled script, so
  completing it is a \<open>scriptUpdate\<close>.
\<close>

lemma async_inv_sys:
  "async_inv A \<Longrightarrow> sys_step (sys A) S' \<Longrightarrow> async_inv (A\<lparr>sys := S'\<rparr>)"
  by (simp add: async_inv_def sys_step_rt)

lemma async_inv_scriptUpdate_async:
  assumes "async_inv A"
  shows "async_inv (scriptUpdate_async ev s A)"
proof (cases "status s = SCRIPT_STATUS_ENABLE")
  case True
  with assms show ?thesis by (simp add: async_inv_def scriptUpdate_async_def)
next
  case False
  then have "snd (disable (env_ext ev) (env_rpc ev) s (rts (sys A))) =
      snd (scriptUpdate (env_ext ev) (env_flag ev) (env_rpc ev) s (rts (sys A)))"
    by (simp add: scriptUpdate_def)
  with assms False show ?thesis by (simp add: async_inv_def scriptUpdate_async_def rt_reachable.update)
qed

lemma async_inv_store [simp]:
  "async_inv (A\<lparr>sys := (sys A)\<lparr>store := m\<rparr>\<rparr>) = async_inv A"
  "async_inv (A\<lparr>sys := (sys A)\<lparr>runBackScript := c\<rparr>\<rparr>) = async_inv A"
  by (simp_all add: async_inv_def)

lemma async_inv_build_done:
  assumes "async_inv A"
  shows "async_inv (build_done k A)"
proof (cases "k < length (builds A)")
  case True
  obtain ev s where b: "builds A ! k = (ev, s)" by (cases "builds A ! k")
  with True assms have "status s = SCRIPT_STATUS_ENABLE"
    by (auto simp: async_inv_def list_all_length)
  then have "snd (enable (env_ext ev) (env_flag ev) (env_rpc ev) s (rts (sys A))) =
      snd (scriptUpdate (env_ext ev) (env_flag ev) (env_rpc ev) s (rts (sys A)))"
    by (simp add: scriptUpdate_def)
  moreover have "list_all (\<lambda>(_, s). status s = SCRIPT_STATUS_ENABLE) (take k (builds A) @ drop (Suc k) (builds A))"
    using assms by (auto simp: async_inv_def list_all_iff dest: in_set_takeD in_set_dropD)
  ultimately show ?thesis
    using True b assms by (simp add: build_done_def async_inv_def rt_reachable.update)
qed (simp add: assms)

lemma async_step_inv:
  assumes "async_step A A'" and "async_inv A"
  shows "async_inv A'"
  using assms(1)
proof cases
  case (upsert ev s)
  with assms(2) show ?thesis
    by (auto simp: a_upsertHandler_def intro: async_inv_scriptUpdate_async split: sum.splits)
next
  case (enable ev i)
  with assms(2) show ?thesis
    by (auto simp: a_enableHandler_def hook_enable_async_def Let_def
        intro!: async_inv_scriptUpdate_async split: option.splits sum.splits)
next
  case (disable ev i)
  with assms(2) show ?thesis by (simp add: a_disableHandler_eq async_inv_sys sys_step.disable)
qed (use assms(2) in \<open>simp_all add: async_inv_sys async_inv_build_done sys_step.intros\<close>)

lemma async_reachable_inv: "async_reachable A \<Longrightarrow> async_inv A"
proof (induction rule: async_reachable.induct)
  case init
  then show ?case by (simp add: async_inv_def empty_sys_def rt_reachable.init)
next
  case (step A A')
  then show ?case by (blast intro: async_step_inv)
qed

section \<open>Properties of the interleaved handlers\<close>

text \<open>
  C16. Enabling a disabled page script and disabling it before the build of
  the enable has finished leaves the script injected: the disable re-indexes
  the disabled script at once, then the pending enable indexes the enabled
  object built from the enable handler's copy, so the next page load of a
  URL its \<^verbatim>\<open>@match\<close> rule covers answers with the script and injects its
  code although the store holds it disabled (runtime.ts 485--500,
  503--538; event.ts 94--101, 120--127).
\<close>

theorem enable_disable_race_page:
  assumes "store (sys A) i = Some s" and "sid s = i" and "status s = SCRIPT_STATUS_DISABLE"
    and "stype s = SCRIPT_TYPE_NORMAL" and "builds A = []"
    and "env_save ev1 = Inr ()" and "env_save ev2 = Inr ()"
    and "buildScriptRunResource (env_ext ev1) (env_flag ev1)
           (s\<lparr>status := SCRIPT_STATUS_ENABLE, updatetime := env_now ev1\<rparr>) = Inr r"
    and "m \<in> set (meta_list (metadata r) ''match'')" and "parse_match_rule m = Inr p"
    and "match_sat p u" and "meta_list (metadata r) ''exclude'' = []"
    and "metadata r ''noframes'' = None"
    and "url sd = Some u" and "u \<noteq> []" and "tabId sd = Some t" and "0 < t"
  shows "status (the (store (sys (build_done 0 (snd (a_disableHandler ev2 i (snd (a_enableHandler ev1 i A)))))) i))
           = SCRIPT_STATUS_DISABLE \<and>
         (\<exists>res ps'. pageLoad f src (Some sd)
             (rts (sys (build_done 0 (snd (a_disableHandler ev2 i (snd (a_enableHandler ev1 i A))))))) ps =
             Some (res, ps') \<and>
           compiled_page_script (env_ext ev1) r \<in> set (resp_scripts res) \<and>
           sid (compiled_page_script (env_ext ev1) r) = i \<and>
           script_injection t (frameId sd) (compiled_page_script (env_ext ev1) r) \<in> set (injections ps'))"
proof -
  note e = enable_then_disable [OF assms(1,2) _ assms(6,7)]
  have f: "sid r = i" "status r = SCRIPT_STATUS_ENABLE" "stype r = SCRIPT_TYPE_NORMAL"
    using buildScriptRunResource_fields [OF assms(8)] assms(2,4) by simp_all
  let ?st = "snd (disable (env_ext ev2) (env_rpc ev2) (s\<lparr>status := SCRIPT_STATUS_DISABLE, updatetime := env_now ev2\<rparr>)
         (rts (sys A)))"
  have st: "rts (sys (build_done 0 (snd (a_disableHandler ev2 i (snd (a_enableHandler ev1 i A)))))) =
      snd (loadPageScript (env_ext ev1) r ?st)"
    using assms(3-5,8) by (simp add: e build_done_def enable_def)
  have "\<exists>res ps'. pageLoad f src (Some sd) (snd (loadPageScript (env_ext ev1) r ?st)) ps = Some (res, ps') \<and>
           compiled_page_script (env_ext ev1) r \<in> set (resp_scripts res) \<and>
           script_injection t (frameId sd) (compiled_page_script (env_ext ev1) r) \<in> set (injections ps')"
    using assms(9-12) f(2) assms(13-17) by (rule pageLoad_injects_loaded)
  then show ?thesis using assms(3) f(1) by (simp add: st e)
qed

theorem enable_disable_race_page_witness:
  "status (the (store (sys (build_done 0 (snd (a_disableHandler env_ok 1 (snd (a_enableHandler env_ok 1 two_off)))))) 1))
     = SCRIPT_STATUS_DISABLE \<and>
   (\<exists>res ps'. pageLoad ''flag'' ''boot'' (Some (top_sender 5 ''https://a.test/x''))
       (rts (sys (build_done 0 (snd (a_disableHandler env_ok 1 (snd (a_enableHandler env_ok 1 two_off))))))) empty_page =
       Some (res, ps') \<and>
     1 \<in> sid ` set (resp_scripts res))"
proof -
  let ?s1 = "page_off\<lparr>status := SCRIPT_STATUS_ENABLE, updatetime := 5\<rparr>"
  let ?r = "projr (buildScriptRunResource ext_ok ''flag'' ?s1)"
  have b: "buildScriptRunResource ext_ok ''flag'' ?s1 = Inr ?r"
    by (simp add: buildScriptRunResource_def ext_ok_def Let_def)
  have m: "metadata ?r = [''match'' \<mapsto> [''*://a.test/*''], ''version'' \<mapsto> [''1'']]"
    using buildScriptRunResource_fields(5) [OF b] by (simp add: page_off_def page_script_def)
  have h1: "store (sys two_off) 1 = Some page_off" "sid page_off = 1" "status page_off = SCRIPT_STATUS_DISABLE"
    "stype page_off = SCRIPT_TYPE_NORMAL" "builds two_off = []"
    "env_save env_ok = Inr ()" "env_save env_ok = Inr ()"
    "buildScriptRunResource (env_ext env_ok) (env_flag env_ok)
       (page_off\<lparr>status := SCRIPT_STATUS_ENABLE, updatetime := env_now env_ok\<rparr>) = Inr ?r"
    using b by (simp_all add: two_off_def empty_sys_def page_off_def page_script_def env_ok_def)
  have h2: "''*://a.test/*'' \<in> set (meta_list (metadata ?r) ''match'')"
    "parse_match_rule ''*://a.test/*'' = Inr pat_a"
    "match_sat pat_a ''https://a.test/x''"
    "meta_list (metadata ?r) ''exclude'' = []"
    "metadata ?r ''noframes'' = None"
    "url (top_sender 5 ''https://a.test/x'') = Some ''https://a.test/x''"
    "''https://a.test/x'' \<noteq> []" "tabId (top_sender 5 ''https://a.test/x'') = Some 5" "0 < (5::nat)"
    by (simp_all only: m) (simp_all add: meta_list_def pat_a_def parse_match_rule_def parse_scheme_def
        parse_host_def match_sat_def parse_url_def top_sender_def)
  note h = h1 h2
  from enable_disable_race_page [OF h, of "''flag''" "''boot''" empty_page] show ?thesis by force
qed
text \<open>
  C27. Enabling a disabled background script and disabling it before the
  build of the enable has finished leaves the sandbox running it: the
  sandbox receives the disable message first and the enable message last,
  while the store holds the script disabled and the popup's background
  cache no longer lists it (runtime.ts 485--500, 546--573, 237--247).
\<close>

theorem enable_disable_race_background:
  assumes "store (sys A) i = Some s" and "sid s = i" and "status s = SCRIPT_STATUS_DISABLE"
    and "stype s \<noteq> SCRIPT_TYPE_NORMAL" and "builds A = []"
    and "env_save ev1 = Inr ()" and "env_save ev2 = Inr ()"
    and "buildScriptRunResource (env_ext ev1) (env_flag ev1)
           (s\<lparr>status := SCRIPT_STATUS_ENABLE, updatetime := env_now ev1\<rparr>) = Inr r"
  shows "status (the (store (sys (build_done 0 (snd (a_disableHandler ev2 i (snd (a_enableHandler ev1 i A)))))) i))
           = SCRIPT_STATUS_DISABLE \<and>
         map_of (runBackScript (sys (build_done 0 (snd (a_disableHandler ev2 i (snd (a_enableHandler ev1 i A))))))) i
           = None \<and>
         rpc_log (rts (sys (build_done 0 (snd (a_disableHandler ev2 i (snd (a_enableHandler ev1 i A)))))))
           = rpc_log (rts (sys A)) @ [RpcDisable i, RpcEnable r] \<and>
         sid r = i \<and> status r = SCRIPT_STATUS_ENABLE"
proof -
  note e = enable_then_disable [OF assms(1,2) _ assms(6,7)]
  have f: "sid r = i" "status r = SCRIPT_STATUS_ENABLE"
    using buildScriptRunResource_fields [OF assms(8)] assms(2) by simp_all
  show ?thesis
    using assms(2-5,8) f
    by (simp add: e build_done_def enable_def disable_def loadBackgroundScript_def
        unloadBackgroundScript_def Let_def split: sum.splits)
qed

theorem enable_disable_race_background_witness:
  "status (the (store (sys (build_done 0 (snd (a_disableHandler env_ok 7 (snd (a_enableHandler env_ok 7 two_off)))))) 7))
     = SCRIPT_STATUS_DISABLE \<and>
   map_of (runBackScript (sys (build_done 0 (snd (a_disableHandler env_ok 7 (snd (a_enableHandler env_ok 7 two_off))))))) 7
     = None \<and>
   (\<exists>r. rpc_log (rts (sys (build_done 0 (snd (a_disableHandler env_ok 7 (snd (a_enableHandler env_ok 7 two_off)))))))
       = [RpcDisable 7, RpcEnable r] \<and> sid r = 7 \<and> status r = SCRIPT_STATUS_ENABLE)"
proof -
  let ?s = "(background_script 7)\<lparr>status := SCRIPT_STATUS_DISABLE\<rparr>"
  let ?r = "projr (buildScriptRunResource ext_ok ''flag'' (?s\<lparr>status := SCRIPT_STATUS_ENABLE, updatetime := 5\<rparr>))"
  have h: "store (sys two_off) 7 = Some ?s" "sid ?s = 7" "status ?s = SCRIPT_STATUS_DISABLE"
    "stype ?s \<noteq> SCRIPT_TYPE_NORMAL" "builds two_off = []"
    "env_save env_ok = Inr ()" "env_save env_ok = Inr ()"
    "buildScriptRunResource (env_ext env_ok) (env_flag env_ok)
       (?s\<lparr>status := SCRIPT_STATUS_ENABLE, updatetime := env_now env_ok\<rparr>) = Inr ?r"
    by (simp_all add: two_off_def empty_sys_def background_script_def page_script_def env_ok_def
        buildScriptRunResource_def ext_ok_def Let_def)
  have "rpc_log (rts (sys two_off)) = []" by (simp add: two_off_def empty_sys_def empty_rt_def)
  with enable_disable_race_background [OF h] show ?thesis by auto
qed


section \<open>The atomic handlers as runs of the interleaved ones\<close>

lemma async_reachable_build_done: "async_reachable A \<Longrightarrow> async_reachable (build_done k A)"
  by (cases "k < length (builds A)") (auto intro: async_reachable.step async_step.build)



end
