(* ===== verification/Agreement.thy ===== *)
theory Agreement
  imports Async
begin

text \<open>
  How far the page index follows the script table, in the await-accurate
  model of Async. The handlers change the table and the runtime re-indexes
  from the hook listeners, an enable only once its build is done. On the runs
  where every save and build succeeds, no script is deleted, no upsert
  changes a script's type and no handler acts on a script whose enable waits
  for its build, the index holds only page scripts of the table with the
  status they have in the table it was last built from, and an entry for
  every rule of every enabled page script of that table; that table is the
  script table except at the waiting scripts. So a page load injects only
  scripts the table holds enabled, and every enabled script whose rules
  cover the URL and whose enable is not waiting (C11). Each excluded event
  breaks this: a delete (C19), a failed save or build (the findings on
  event.ts 97 and C21), a disable that overtakes a waiting enable (C16), and
  a change of type (C30), which leaves the page entries of a script that
  became a background script in the index.
\<close>

section \<open>Definitions\<close>

text \<open>The script objects the two matchers hold in their rules: what \<open>matchUrl\<close> can return.\<close>

definition indexed :: "rt_state \<Rightarrow> script set" where
  "indexed st = snd ` set (rules (rt_match st)) \<union> snd ` set (rules (rt_include st))"

text \<open>
  The index mirrors the script table: every indexed object is a page script
  of the table, with the status its row has.
\<close>

definition mirrors :: "(nat \<rightharpoonup> script) \<Rightarrow> rt_state \<Rightarrow> bool" where
  "mirrors db st \<longleftrightarrow>
     (\<forall>x \<in> indexed st. \<exists>s. db (sid x) = Some s \<and> status x = status s \<and> stype s = SCRIPT_TYPE_NORMAL)"

text \<open>
  The index covers the table: for every enabled page script of the table,
  each \<^verbatim>\<open>@match\<close> rule of its merged metadata that compiles has an
  entry of the script, its indexed objects carry that merged metadata, and
  its exclusions are the compiled \<^verbatim>\<open>@exclude\<close> rules of that metadata.
\<close>

definition covers :: "(nat \<rightharpoonup> script) \<Rightarrow> rt_state \<Rightarrow> bool" where
  "covers db st \<longleftrightarrow>
     (\<forall>i s. db i = Some s \<longrightarrow> stype s = SCRIPT_TYPE_NORMAL \<longrightarrow> status s = SCRIPT_STATUS_ENABLE \<longrightarrow>
        (\<forall>p \<in> set (ok_rules parse_match_rule (meta_list (metadata (merge_self_metadata s)) ''match'')).
           \<exists>x. (p, x) \<in> set (rules (rt_match st)) \<and> sid x = i) \<and>
        (\<forall>x \<in> indexed st. sid x = i \<longrightarrow> metadata x = metadata (merge_self_metadata s)) \<and>
        (\<forall>qx \<in> set (excludes (rt_match st)). sid (snd qx) = i \<longrightarrow>
           fst qx \<in> set (ok_rules parse_match_rule (meta_list (metadata (merge_self_metadata s)) ''exclude''))))"

text \<open>An upsert that keeps the type of the stored row (or adds a new row).\<close>

definition type_kept :: "(nat \<rightharpoonup> script) \<Rightarrow> script \<Rightarrow> bool" where
  "type_kept db s \<longleftrightarrow> (case db (sid s) of None \<Rightarrow> True | Some t \<Rightarrow> stype t = stype s)"

text \<open>A step whose save succeeds and whose builds all succeed.\<close>

definition env_good :: "step_env \<Rightarrow> bool" where
  "env_good ev \<longleftrightarrow> env_save ev = Inr () \<and>
     (\<forall>s. \<exists>r. buildScriptRunResource (env_ext ev) (env_flag ev) s = Inr r)"

text \<open>The scripts whose enable waits for its build.\<close>

definition pending :: "async_state \<Rightarrow> nat set" where
  "pending A = (\<lambda>(_, t). sid t) ` set (builds A)"

text \<open>Two rows the index cannot tell apart: same status, type and merged metadata.\<close>

definition same_view :: "script \<Rightarrow> script \<Rightarrow> bool" where
  "same_view u t \<longleftrightarrow> status u = status t \<and> stype u = stype t \<and>
     metadata (merge_self_metadata u) = metadata (merge_self_metadata t)"

text \<open>
  The steps of the await-accurate model (Async) on the path where nothing
  fails: saves and builds succeed, no script is deleted, no upsert changes a
  script's type, and no handler acts on a script whose enable still waits for
  its build. Builds complete in any order, and handlers on other scripts and
  run-status messages on any script run in between.
\<close>

inductive good_step :: "async_state \<Rightarrow> async_state \<Rightarrow> bool" where
  upsert: "env_good ev \<Longrightarrow> type_kept (store (sys A)) s \<Longrightarrow> sid s \<notin> pending A \<Longrightarrow>
     good_step A (snd (a_upsertHandler ev s A))"
| enable: "env_good ev \<Longrightarrow> i \<notin> pending A \<Longrightarrow> good_step A (snd (a_enableHandler ev i A))"
| disable: "env_good ev \<Longrightarrow> i \<notin> pending A \<Longrightarrow> good_step A (snd (a_disableHandler ev i A))"
| run_status: "good_step A (A\<lparr>sys := scriptRunStatus ev i rs (sys A)\<rparr>)"
| watch: "good_step A (A\<lparr>sys := watchRunStatus c (sys A)\<rparr>)"
| disconnect: "good_step A (A\<lparr>sys := disconnectWatch c (sys A)\<rparr>)"
| build: "k < length (builds A) \<Longrightarrow> good_step A (build_done k A)"

inductive good_reachable :: "async_state \<Rightarrow> bool" where
  init: "good_reachable \<lparr>sys = empty_sys, builds = []\<rparr>"
| step: "good_reachable A \<Longrightarrow> good_step A A' \<Longrightarrow> good_reachable A'"

text \<open>
  The invariant, over the table \<open>V\<close> the index was last built from: rows
  are stored under their own id; the index mirrors and covers \<open>V\<close>;
  \<open>V\<close> is the script table except at the pending scripts, where it holds
  a row of the type the table has; each pending enable is the only one of its
  script, has answers that succeed and carries an enabled row that the table
  holds up to its run status.
\<close>

definition async_ok :: "(nat \<rightharpoonup> script) \<Rightarrow> async_state \<Rightarrow> bool" where
  "async_ok V A \<longleftrightarrow> (\<forall>i s. store (sys A) i = Some s \<longrightarrow> sid s = i) \<and>
     mirrors V (rts (sys A)) \<and> covers V (rts (sys A)) \<and>
     (\<forall>i. i \<notin> pending A \<longrightarrow> V i = store (sys A) i) \<and>
     (\<forall>i u. V i = Some u \<longrightarrow> (\<exists>t. store (sys A) i = Some t \<and> stype t = stype u)) \<and>
     distinct (map (\<lambda>(_, t). sid t) (builds A)) \<and>
     (\<forall>(ev, t) \<in> set (builds A). env_good ev \<and> status t = SCRIPT_STATUS_ENABLE \<and>
        (\<exists>u. store (sys A) (sid t) = Some u \<and> same_view u t))"

section \<open>Concrete inputs\<close>

text \<open>A page script with a version, and the same script turned into a background script.\<close>

definition versioned_page :: script where
  "versioned_page = (page_script 1 [''*://a.test/*''])\<lparr>metadata := [''match'' \<mapsto> [''*://a.test/*''], ''version'' \<mapsto> [''1'']]\<rparr>"

definition versioned_bg :: script where
  "versioned_bg = versioned_page\<lparr>stype := SCRIPT_TYPE_BACKGROUND\<rparr>"

section \<open>Lemmas\<close>

lemma scriptUpdate_background_matchers:
  assumes "stype s \<noteq> SCRIPT_TYPE_NORMAL"
  shows "rt_match (snd (scriptUpdate ex fl ans s st)) = rt_match st \<and>
         rt_include (snd (scriptUpdate ex fl ans s st)) = rt_include st"
  using assms by (simp add: scriptUpdate_def enable_def disable_def split: sum.splits)

lemma pageLoad_same_matchers:
  "rt_match st' = rt_match st \<Longrightarrow> rt_include st' = rt_include st \<Longrightarrow>
     pageLoad f src sender st' ps = pageLoad f src sender st ps"
proof -
  assume "rt_match st' = rt_match st" "rt_include st' = rt_include st"
  then have "\<And>filt u. matchUrl filt u st' = matchUrl filt u st" by (simp add: matchUrl_def)
  then show ?thesis by (simp only: pageLoad_def)
qed

text \<open>
  C30. Turning a page script into a background script leaves its page
  entries in the index: after an upsert stores a non-page version of a
  script, every page load answers and injects exactly as before, so pages
  keep getting the old page code. The upsert listener (runtime.ts 86, 450--455)
  calls \<^verbatim>\<open>enable\<close> or \<^verbatim>\<open>disable\<close> with the new type, and for a
  background script neither touches the matchers (485--500, 546--573).
\<close>

theorem upsert_background_keeps_page_answer:
  assumes "stype s \<noteq> SCRIPT_TYPE_NORMAL" and "metadata s ''version'' \<noteq> None" and "env_save ev = Inr ()"
  shows "store (snd (upsertHandler ev s S)) (sid s) = Some s \<and>
         pageLoad f src sender (rts (snd (upsertHandler ev s S))) ps = pageLoad f src sender (rts S) ps"
proof -
  have u: "upsertHandler ev s S = (Resolved (sid s), hook_upsert ev s (S\<lparr>store := (store S)(sid s \<mapsto> s)\<rparr>))"
    using assms(2,3) by (simp add: upsertHandler_def)
  have "rt_match (rts (snd (upsertHandler ev s S))) = rt_match (rts S)"
    "rt_include (rts (snd (upsertHandler ev s S))) = rt_include (rts S)"
    using scriptUpdate_background_matchers [OF assms(1)] by (simp_all add: u)
  then have "pageLoad f src sender (rts (snd (upsertHandler ev s S))) ps = pageLoad f src sender (rts S) ps"
    by (rule pageLoad_same_matchers)
  moreover have "store (snd (upsertHandler ev s S)) (sid s) = Some s" by (simp add: u)
  ultimately show ?thesis by blast
qed

lemma versioned_page_match:
  "map sid (matchUrl (page_filter (top_sender 5 ''https://a.test/x'')) ''https://a.test/x''
     (rts (snd (upsertHandler env_ok versioned_page empty_sys)))) = [1]"
  "map stype (matchUrl (page_filter (top_sender 5 ''https://a.test/x'')) ''https://a.test/x''
     (rts (snd (upsertHandler env_ok versioned_page empty_sys)))) = [SCRIPT_TYPE_NORMAL]"
  by (simp_all add: upsertHandler_def versioned_page_def env_ok_def empty_sys_def rt_eval_simps ext_ok_def
      page_script_def page_filter_def)

text \<open>
  The converse change: upserting a page version of a running background
  script sends the sandbox nothing and leaves it in the background cache.
\<close>

lemma upsert_page_sends_nothing:
  assumes "stype s = SCRIPT_TYPE_NORMAL"
  shows "rpc_log (rts (snd (upsertHandler ev s S))) = rpc_log (rts S) \<and>
         runBackScript (snd (upsertHandler ev s S)) = runBackScript S"
  using assms by (auto simp: upsertHandler_def hook_upsert_def scriptUpdate_def enable_def disable_def
      unloadPageScript_def split: sum.splits)

theorem upsert_background_keeps_page_answer_witness:
  "store (snd (upsertHandler env_ok versioned_bg (snd (upsertHandler env_ok versioned_page empty_sys)))) 1 =
     Some versioned_bg \<and>
   (\<exists>r ps'. pageLoad ''flag'' ''boot'' (Some (top_sender 5 ''https://a.test/x''))
      (rts (snd (upsertHandler env_ok versioned_bg (snd (upsertHandler env_ok versioned_page empty_sys)))))
      empty_page = Some (r, ps') \<and>
      map sid (resp_scripts r) = [1] \<and> map stype (resp_scripts r) = [SCRIPT_TYPE_NORMAL])"
proof -
  let ?S = "snd (upsertHandler env_ok versioned_page empty_sys)"
  have h: "stype versioned_bg \<noteq> SCRIPT_TYPE_NORMAL" "metadata versioned_bg ''version'' \<noteq> None"
    "env_save env_ok = Inr ()" "sid versioned_bg = 1"
    by (simp_all add: versioned_bg_def versioned_page_def page_script_def env_ok_def)
  note k = upsert_background_keeps_page_answer [OF h(1-3), of ?S "''flag''" "''boot''"
      "Some (top_sender 5 ''https://a.test/x'')" empty_page]
  have "pageLoad ''flag'' ''boot'' (Some (top_sender 5 ''https://a.test/x'')) (rts ?S) empty_page \<noteq> None"
    by (simp add: pageLoad_None_iff)
  then obtain r ps' where e: "pageLoad ''flag'' ''boot'' (Some (top_sender 5 ''https://a.test/x''))
      (rts ?S) empty_page = Some (r, ps')" by (metis option.exhaust prod.exhaust)
  have "map sid (resp_scripts r) = [1]" "map stype (resp_scripts r) = [SCRIPT_TYPE_NORMAL]"
    using e versioned_page_match by (auto simp: pageLoad_Some_iff)
  with k e h(4) show ?thesis by auto
qed

section \<open>Lemmas: the index mirrors the table\<close>

lemma indexed_loadPageScript:
  "indexed (snd (loadPageScript ex s st)) \<subseteq> {x \<in> indexed st. sid x \<noteq> sid s} \<union> {compiled_page_script ex s}"
  by (auto simp: indexed_def loadPageScript_eq Let_def)

lemma mirrors_load:
  assumes "mirrors db st" and "stype t = SCRIPT_TYPE_NORMAL" and "status t = status s"
  shows "mirrors (db(sid s \<mapsto> t)) (snd (loadPageScript ex s st))"
  unfolding mirrors_def
proof
  fix x assume "x \<in> indexed (snd (loadPageScript ex s st))"
  then have "x \<in> indexed st \<and> sid x \<noteq> sid s \<or> x = compiled_page_script ex s"
    using indexed_loadPageScript by blast
  then show "\<exists>s'. (db(sid s \<mapsto> t)) (sid x) = Some s' \<and> status x = status s' \<and> stype s' = SCRIPT_TYPE_NORMAL"
    using assms by (auto simp: mirrors_def)
qed

lemma mirrors_other:
  assumes "mirrors db st" and "\<forall>u. db i = Some u \<longrightarrow> stype u \<noteq> SCRIPT_TYPE_NORMAL"
  shows "mirrors (db(i \<mapsto> t)) st"
  using assms by (fastforce simp: mirrors_def)

lemma mirrors_same:
  assumes "mirrors db st" and "db i = Some u" and "status t = status u" and "stype t = stype u"
  shows "mirrors (db(i \<mapsto> t)) st"
  using assms by (fastforce simp: mirrors_def)

lemma mirrors_matchers:
  "mirrors db st \<Longrightarrow> rt_match st' = rt_match st \<Longrightarrow> rt_include st' = rt_include st \<Longrightarrow> mirrors db st'"
  by (simp add: mirrors_def indexed_def)

lemma mirrors_scriptUpdate:
  assumes "mirrors db st" and "type_kept db s"
    and "\<exists>r. buildScriptRunResource ex fl s = Inr r"
  shows "mirrors (db(sid s \<mapsto> s)) (snd (scriptUpdate ex fl ans s st))"
proof (cases "stype s = SCRIPT_TYPE_NORMAL")
  case True
  show ?thesis
  proof (cases "status s = SCRIPT_STATUS_ENABLE")
    case en: True
    obtain r where r: "buildScriptRunResource ex fl s = Inr r" using assms(3) by blast
    have "sid r = sid s" "status r = status s"
      using buildScriptRunResource_fields [OF r] by simp_all
    moreover have "mirrors (db(sid r \<mapsto> s)) (snd (loadPageScript ex r st))"
      using assms(1) True \<open>status r = status s\<close> by (intro mirrors_load) simp_all
    ultimately show ?thesis using en True r by (simp add: scriptUpdate_def enable_def)
  next
    case False
    have "mirrors (db(sid s \<mapsto> s)) (snd (loadPageScript ex s st))"
      using assms(1) True by (intro mirrors_load) simp_all
    with False True show ?thesis by (simp add: scriptUpdate_def disable_def unloadPageScript_def)
  qed
next
  case False
  have "\<forall>u. db (sid s) = Some u \<longrightarrow> stype u \<noteq> SCRIPT_TYPE_NORMAL"
    using assms(2) False by (simp add: type_kept_def split: option.splits)
  with assms(1) have "mirrors (db(sid s \<mapsto> s)) st" by (rule mirrors_other)
  with False show ?thesis using scriptUpdate_background_matchers [OF False] by (blast intro: mirrors_matchers)
qed

lemma match_load:
  "rules (rt_match (snd (loadPageScript ex r st))) =
     filter (\<lambda>(_, t). sid t \<noteq> sid r) (rules (rt_match st)) @
     map (\<lambda>p. (p, compiled_page_script ex r)) (ok_rules parse_match_rule (meta_list (metadata r) ''match''))"
  "excludes (rt_match (snd (loadPageScript ex r st))) =
     filter (\<lambda>(_, t). sid t \<noteq> sid r) (excludes (rt_match st)) @
     map (\<lambda>p. (p, compiled_page_script ex r)) (ok_rules parse_match_rule (meta_list (metadata r) ''exclude''))"
  by (simp_all add: loadPageScript_eq Let_def)

lemma covers_load:
  assumes "covers db st"
    and "stype t = SCRIPT_TYPE_NORMAL \<Longrightarrow> status t = SCRIPT_STATUS_ENABLE \<Longrightarrow>
           metadata r = metadata (merge_self_metadata t)"
  shows "covers (db(sid r \<mapsto> t)) (snd (loadPageScript ex r st))"
  unfolding covers_def
proof (intro allI impI conjI)
  fix j s
  assume db: "(db(sid r \<mapsto> t)) j = Some s" and ty: "stype s = SCRIPT_TYPE_NORMAL"
    and en: "status s = SCRIPT_STATUS_ENABLE"
  let ?st = "snd (loadPageScript ex r st)"
  let ?m = "metadata (merge_self_metadata s)"
  let ?c = "compiled_page_script ex r"
  have ix: "\<forall>x \<in> indexed ?st. x \<in> indexed st \<and> sid x \<noteq> sid r \<or> x = ?c"
    using indexed_loadPageScript [of ex r st] by blast
  show "\<forall>p \<in> set (ok_rules parse_match_rule (meta_list ?m ''match'')).
           \<exists>x. (p, x) \<in> set (rules (rt_match ?st)) \<and> sid x = j"
  proof (cases "j = sid r")
    case True
    then have "metadata r = ?m" using db assms(2) ty en by auto
    with True show ?thesis by (auto simp: match_load)
  next
    case False
    then have "db j = Some s" using db by simp
    with assms(1) ty en have "\<forall>p \<in> set (ok_rules parse_match_rule (meta_list ?m ''match'')).
        \<exists>x. (p, x) \<in> set (rules (rt_match st)) \<and> sid x = j"
      by (simp add: covers_def)
    with False show ?thesis by (force simp: match_load)
  qed
  show "\<forall>x \<in> indexed ?st. sid x = j \<longrightarrow> metadata x = ?m"
  proof (cases "j = sid r")
    case True
    then have "metadata r = ?m" using db assms(2) ty en by auto
    with True ix show ?thesis by auto
  next
    case False
    then have "db j = Some s" using db by simp
    with assms(1) ty en have "\<forall>x \<in> indexed st. sid x = j \<longrightarrow> metadata x = ?m"
      by (simp add: covers_def)
    with False ix show ?thesis by auto
  qed
  show "\<forall>qx \<in> set (excludes (rt_match ?st)). sid (snd qx) = j \<longrightarrow>
           fst qx \<in> set (ok_rules parse_match_rule (meta_list ?m ''exclude''))"
  proof (cases "j = sid r")
    case True
    then have "metadata r = ?m" using db assms(2) ty en by auto
    with True show ?thesis by (auto simp: match_load)
  next
    case False
    then have "db j = Some s" using db by simp
    with assms(1) ty en have "\<forall>qx \<in> set (excludes (rt_match st)). sid (snd qx) = j \<longrightarrow>
           fst qx \<in> set (ok_rules parse_match_rule (meta_list ?m ''exclude''))"
      by (simp add: covers_def)
    with False show ?thesis by (auto simp: match_load)
  qed
qed

lemma covers_other:
  "covers db st \<Longrightarrow> \<not> (stype t = SCRIPT_TYPE_NORMAL \<and> status t = SCRIPT_STATUS_ENABLE) \<Longrightarrow>
     covers (db(i \<mapsto> t)) st"
  by (auto simp: covers_def)

lemma covers_same:
  assumes "covers db st" and "db i = Some u" and "status t = status u" and "stype t = stype u"
    and "metadata (merge_self_metadata t) = metadata (merge_self_metadata u)"
  shows "covers (db(i \<mapsto> t)) st"
  unfolding covers_def
proof (intro allI impI)
  fix j s
  assume db: "(db(i \<mapsto> t)) j = Some s" and ty: "stype s = SCRIPT_TYPE_NORMAL"
    and en: "status s = SCRIPT_STATUS_ENABLE"
  obtain s0 where s0: "db j = Some s0" "stype s0 = SCRIPT_TYPE_NORMAL" "status s0 = SCRIPT_STATUS_ENABLE"
    "metadata (merge_self_metadata s) = metadata (merge_self_metadata s0)"
    using db ty en assms(2-5) by (cases "j = i") auto
  note c = assms(1) [unfolded covers_def, rule_format, OF s0(1-3)]
  then show "(\<forall>p \<in> set (ok_rules parse_match_rule (meta_list (metadata (merge_self_metadata s)) ''match'')).
           \<exists>x. (p, x) \<in> set (rules (rt_match st)) \<and> sid x = j) \<and>
        (\<forall>x \<in> indexed st. sid x = j \<longrightarrow> metadata x = metadata (merge_self_metadata s)) \<and>
        (\<forall>qx \<in> set (excludes (rt_match st)). sid (snd qx) = j \<longrightarrow>
           fst qx \<in> set (ok_rules parse_match_rule (meta_list (metadata (merge_self_metadata s)) ''exclude'')))"
    by (simp only: s0(4))
qed

lemma covers_matchers:
  "covers db st \<Longrightarrow> rt_match st' = rt_match st \<Longrightarrow> rt_include st' = rt_include st \<Longrightarrow> covers db st'"
  by (simp add: covers_def indexed_def)

lemma covers_scriptUpdate:
  assumes "covers db st" and "type_kept db s"
    and "\<exists>r. buildScriptRunResource ex fl s = Inr r"
  shows "covers (db(sid s \<mapsto> s)) (snd (scriptUpdate ex fl ans s st))"
proof (cases "stype s = SCRIPT_TYPE_NORMAL \<and> status s = SCRIPT_STATUS_ENABLE")
  case True
  obtain r where r: "buildScriptRunResource ex fl s = Inr r" using assms(3) by blast
  have "sid r = sid s" "metadata r = metadata (merge_self_metadata s)"
    using buildScriptRunResource_fields [OF r] by simp_all
  then have "covers (db(sid s \<mapsto> s)) (snd (loadPageScript ex r st))"
    using covers_load [OF assms(1), of s r ex] by simp
  with True r show ?thesis by (simp add: scriptUpdate_def enable_def)
next
  case False
  then have c: "covers (db(sid s \<mapsto> s)) st" using assms(1) by (rule covers_other [rotated])
  show ?thesis
  proof (cases "stype s = SCRIPT_TYPE_NORMAL")
    case True
    with False have "status s \<noteq> SCRIPT_STATUS_ENABLE" by simp
    moreover have "covers (db(sid s \<mapsto> s)) (snd (loadPageScript ex s st))"
      using covers_load [OF assms(1), of s s ex] False by simp
    ultimately show ?thesis using True by (simp add: scriptUpdate_def disable_def unloadPageScript_def)
  next
    case nt: False
    with c show ?thesis using scriptUpdate_background_matchers [OF nt] by (blast intro: covers_matchers)
  qed
qed

lemma env_good_build: "env_good ev \<Longrightarrow> \<exists>r. buildScriptRunResource (env_ext ev) (env_flag ev) s = Inr r"
  by (simp add: env_good_def)

lemma async_ok_cong:
  "store (sys A') = store (sys A) \<Longrightarrow> rts (sys A') = rts (sys A) \<Longrightarrow> builds A' = builds A \<Longrightarrow>
     async_ok V A' = async_ok V A"
  by (simp add: async_ok_def pending_def)

lemma pending_snoc [simp]: "pending (A\<lparr>builds := builds A @ [(ev, t)]\<rparr>) = insert (sid t) (pending A)"
  by (auto simp: pending_def)

lemma pending_entry: "(ev, t) \<in> set (builds A) \<Longrightarrow> sid t \<in> pending A"
  by (force simp: pending_def)

text \<open>Removing the \<open>k\<close>-th pending enable removes its script, and only it, from the pending ones.\<close>

lemma pending_build_done:
  assumes "distinct (map (\<lambda>(_, t). sid t) (builds A))" and "k < length (builds A)" and "builds A ! k = (ev, t)"
  shows "pending (build_done k A) = pending A - {sid t}"
proof -
  let ?f = "\<lambda>(_::step_env, t). sid t"
  have xs: "builds A = take k (builds A) @ (ev, t) # drop (Suc k) (builds A)"
    using assms(2,3) id_take_nth_drop by fastforce
  have "distinct (map ?f (take k (builds A)) @ sid t # map ?f (drop (Suc k) (builds A)))"
    using assms(1) xs by (metis (no_types, lifting) list.simps(9) map_append case_prod_conv)
  then have "sid t \<notin> ?f ` set (take k (builds A) @ drop (Suc k) (builds A))" by auto
  moreover have "pending A = insert (sid t) (?f ` set (take k (builds A) @ drop (Suc k) (builds A)))"
    unfolding pending_def by (subst xs) auto
  ultimately show ?thesis using assms(2,3) by (auto simp: pending_def build_done_def)
qed

text \<open>A handler on a script that is not pending queues its enable.\<close>

lemma async_ok_queue:
  assumes ok: "async_ok V A" and np: "sid t \<notin> pending A" and tk: "type_kept (store (sys A)) t"
    and "env_good ev" and "status t = SCRIPT_STATUS_ENABLE"
    and st: "store (sys A') = (store (sys A))(sid t \<mapsto> t)" and "rts (sys A') = rts (sys A)"
    and bs: "builds A' = builds A @ [(ev, t)]"
  shows "async_ok V A'"
proof -
  have pa: "pending A' = insert (sid t) (pending A)"
    using bs pending_snoc [of A ev t] by (simp add: pending_def)
  have v: "V (sid t) = store (sys A) (sid t)" using ok np by (simp add: async_ok_def)
  have old: "\<forall>(ev', t') \<in> set (builds A). store (sys A') (sid t') = store (sys A) (sid t')"
    using np st by (auto dest: pending_entry)
  have ids: "\<forall>i s. store (sys A') i = Some s \<longrightarrow> sid s = i"
    using ok by (simp add: st async_ok_def)
  have eq: "\<forall>i. i \<notin> pending A' \<longrightarrow> V i = store (sys A') i"
    using ok by (simp add: pa st async_ok_def)
  have ty: "\<forall>i u. V i = Some u \<longrightarrow> (\<exists>t'. store (sys A') i = Some t' \<and> stype t' = stype u)"
    using ok v tk by (auto simp: st async_ok_def type_kept_def)
  have ds: "distinct (map (\<lambda>(_, t). sid t) (builds A'))"
    using ok np by (simp add: bs async_ok_def pending_def)
  have q_old: "\<forall>(ev', t') \<in> set (builds A). env_good ev' \<and> status t' = SCRIPT_STATUS_ENABLE \<and>
        (\<exists>u. store (sys A) (sid t') = Some u \<and> same_view u t')"
    using ok by (simp add: async_ok_def)
  have qs: "\<forall>(ev', t') \<in> set (builds A'). env_good ev' \<and> status t' = SCRIPT_STATUS_ENABLE \<and>
        (\<exists>u. store (sys A') (sid t') = Some u \<and> same_view u t')"
  proof
    fix x assume x: "x \<in> set (builds A')"
    show "case x of (ev', t') \<Rightarrow> env_good ev' \<and> status t' = SCRIPT_STATUS_ENABLE \<and>
        (\<exists>u. store (sys A') (sid t') = Some u \<and> same_view u t')"
    proof (cases "x = (ev, t)")
      case True
      then show ?thesis using assms(4,5) by (simp add: st same_view_def)
    next
      case False
      then have "x \<in> set (builds A)" using x bs by simp
      then show ?thesis using q_old old by fastforce
    qed
  qed
  show ?thesis using ok ids eq ty ds qs assms(7) by (simp add: async_ok_def)
qed

text \<open>The pending enables stay as they are while the table keeps their rows.\<close>

lemma async_ok_queue_kept:
  assumes ok: "async_ok V A" and "\<forall>i \<in> pending A. store (sys A') i = store (sys A) i"
    and "builds A' = builds A"
  shows "\<forall>(ev', t') \<in> set (builds A'). env_good ev' \<and> status t' = SCRIPT_STATUS_ENABLE \<and>
           (\<exists>u. store (sys A') (sid t') = Some u \<and> same_view u t')"
proof
  fix x assume x: "x \<in> set (builds A')"
  obtain ev' t' where xe: "x = (ev', t')" by (cases x)
  have "(ev', t') \<in> set (builds A)" using x xe assms(3) by simp
  moreover have "\<forall>(ev', t') \<in> set (builds A). env_good ev' \<and> status t' = SCRIPT_STATUS_ENABLE \<and>
        (\<exists>u. store (sys A) (sid t') = Some u \<and> same_view u t')"
    using ok by (simp add: async_ok_def)
  ultimately have "env_good ev' \<and> status t' = SCRIPT_STATUS_ENABLE \<and>
        (\<exists>u. store (sys A) (sid t') = Some u \<and> same_view u t')" by fastforce
  moreover have "store (sys A') (sid t') = store (sys A) (sid t')"
    using assms(2) pending_entry [OF \<open>(ev', t') \<in> set (builds A)\<close>] by blast
  ultimately show "case x of (ev', t') \<Rightarrow> env_good ev' \<and> status t' = SCRIPT_STATUS_ENABLE \<and>
        (\<exists>u. store (sys A') (sid t') = Some u \<and> same_view u t')" by (simp add: xe)
qed

text \<open>A handler on a script that is not pending re-indexes it at once.\<close>

lemma async_ok_now:
  assumes ok: "async_ok V A" and np: "sid t \<notin> pending A" and tk: "type_kept (store (sys A)) t"
    and eg: "env_good ev"
    and st: "store (sys A') = (store (sys A))(sid t \<mapsto> t)"
    and rt: "rts (sys A') = snd (scriptUpdate (env_ext ev) (env_flag ev) (env_rpc ev) t (rts (sys A)))"
    and bs: "builds A' = builds A"
  shows "async_ok (V(sid t \<mapsto> t)) A'"
proof -
  have pa: "pending A' = pending A" using bs by (simp add: pending_def)
  have v: "V (sid t) = store (sys A) (sid t)" using ok np by (simp add: async_ok_def)
  have tkv: "type_kept V t" using tk v by (simp add: type_kept_def)
  have mi: "mirrors (V(sid t \<mapsto> t)) (rts (sys A'))"
    unfolding rt by (rule mirrors_scriptUpdate [OF _ tkv env_good_build [OF eg]]) (use ok in \<open>simp add: async_ok_def\<close>)
  have co: "covers (V(sid t \<mapsto> t)) (rts (sys A'))"
    unfolding rt by (rule covers_scriptUpdate [OF _ tkv env_good_build [OF eg]]) (use ok in \<open>simp add: async_ok_def\<close>)
  have ids: "\<forall>i s. store (sys A') i = Some s \<longrightarrow> sid s = i"
    using ok by (simp add: st async_ok_def)
  have eq: "\<forall>i. i \<notin> pending A' \<longrightarrow> (V(sid t \<mapsto> t)) i = store (sys A') i"
    using ok by (simp add: pa st async_ok_def)
  have ty: "\<forall>i u. (V(sid t \<mapsto> t)) i = Some u \<longrightarrow> (\<exists>t'. store (sys A') i = Some t' \<and> stype t' = stype u)"
    using ok by (simp add: st async_ok_def)
  have ds: "distinct (map (\<lambda>(_, t). sid t) (builds A'))"
    using ok by (simp add: bs async_ok_def)
  have "\<forall>i \<in> pending A. store (sys A') i = store (sys A) i" using np st by auto
  note qs = async_ok_queue_kept [OF ok this bs]
  show ?thesis using ids mi co eq ty ds qs by (simp add: async_ok_def)
qed

text \<open>A completed build re-indexes its script from the row it carries, which the table holds up to its run status.\<close>

lemma async_ok_build:
  assumes ok: "async_ok V A" and k: "k < length (builds A)" and e: "builds A ! k = (ev, t)"
    and u: "store (sys A) (sid t) = Some u"
  shows "async_ok (V(sid t \<mapsto> u)) (build_done k A)"
proof -
  let ?A' = "build_done k A"
  have ds0: "distinct (map (\<lambda>(_, t). sid t) (builds A))" using ok by (simp add: async_ok_def)
  have mem: "(ev, t) \<in> set (builds A)" using k e nth_mem by metis
  have q: "env_good ev \<and> status t = SCRIPT_STATUS_ENABLE \<and> (\<exists>u. store (sys A) (sid t) = Some u \<and> same_view u t)"
    using ok mem by (fastforce simp: async_ok_def)
  then have sv: "same_view u t" using u by auto
  have pa: "pending ?A' = pending A - {sid t}" by (rule pending_build_done [OF ds0 k e])
  have rt: "rts (sys ?A') = snd (scriptUpdate (env_ext ev) (env_flag ev) (env_rpc ev) t (rts (sys A)))"
    using k e q by (simp add: build_done_def scriptUpdate_def)
  have bs: "builds ?A' = take k (builds A) @ drop (Suc k) (builds A)"
    using k e by (simp add: build_done_def)
  have tkv: "type_kept V t"
    using ok u sv by (fastforce simp: async_ok_def type_kept_def same_view_def split: option.splits)
  have mi: "mirrors (V(sid t \<mapsto> u)) (rts (sys ?A'))"
  proof -
    have "mirrors (V(sid t \<mapsto> t)) (rts (sys ?A'))"
      unfolding rt by (rule mirrors_scriptUpdate [OF _ tkv env_good_build]) (use ok q in \<open>simp_all add: async_ok_def\<close>)
    from mirrors_same [OF this, of "sid t" t u] sv show ?thesis by (simp add: same_view_def)
  qed
  have co: "covers (V(sid t \<mapsto> u)) (rts (sys ?A'))"
  proof -
    have "covers (V(sid t \<mapsto> t)) (rts (sys ?A'))"
      unfolding rt by (rule covers_scriptUpdate [OF _ tkv env_good_build]) (use ok q in \<open>simp_all add: async_ok_def\<close>)
    from covers_same [OF this, of "sid t" t u] sv show ?thesis by (simp add: same_view_def)
  qed
  have ids: "\<forall>i s. store (sys ?A') i = Some s \<longrightarrow> sid s = i"
    using ok by (simp add: async_ok_def)
  have eq: "\<forall>i. i \<notin> pending ?A' \<longrightarrow> (V(sid t \<mapsto> u)) i = store (sys ?A') i"
    using ok u by (simp add: pa async_ok_def)
  have ty: "\<forall>i u'. (V(sid t \<mapsto> u)) i = Some u' \<longrightarrow> (\<exists>t'. store (sys ?A') i = Some t' \<and> stype t' = stype u')"
    using ok u by (simp add: async_ok_def)
  have ds: "distinct (map (\<lambda>(_, t). sid t) (builds ?A'))"
  proof -
    let ?xs = "map (\<lambda>(_, t). sid t) (builds A)"
    have "?xs = take k ?xs @ ?xs ! k # drop (Suc k) ?xs" using k by (metis id_take_nth_drop length_map)
    then have "distinct (take k ?xs @ ?xs ! k # drop (Suc k) ?xs)" using ds0 by simp
    then show ?thesis by (simp add: bs take_map drop_map)
  qed
  have qs: "\<forall>(ev', t') \<in> set (builds ?A'). env_good ev' \<and> status t' = SCRIPT_STATUS_ENABLE \<and>
           (\<exists>u. store (sys ?A') (sid t') = Some u \<and> same_view u t')"
  proof -
    have "set (builds ?A') \<subseteq> set (builds A)" using bs set_take_subset set_drop_subset by fastforce
    then show ?thesis using ok by (fastforce simp: async_ok_def)
  qed
  show ?thesis using ids mi co eq ty ds qs by (simp add: async_ok_def)
qed

lemma same_view_trans: "same_view a b \<Longrightarrow> same_view b c \<Longrightarrow> same_view a c"
  by (simp add: same_view_def)

text \<open>A change of a row that the index cannot see, such as its run status, keeps the invariant.\<close>

lemma async_ok_same:
  assumes ok: "async_ok V A" and s: "store (sys A) i = Some s" and sv: "same_view s' s" and "sid s' = sid s"
    and st: "store (sys A') = (store (sys A))(i \<mapsto> s')" and rt: "rts (sys A') = rts (sys A)"
    and bs: "builds A' = builds A"
  shows "\<exists>V'. async_ok V' A'"
proof -
  have pa: "pending A' = pending A" using bs by (simp add: pending_def)
  have ids: "\<forall>i s. store (sys A') i = Some s \<longrightarrow> sid s = i"
    using ok s assms(4) by (simp add: st async_ok_def)
  have ds: "distinct (map (\<lambda>(_, t). sid t) (builds A'))"
    using ok by (simp add: bs async_ok_def)
  show ?thesis
  proof (cases "i \<in> pending A")
    case True
    have eq: "\<forall>j. j \<notin> pending A' \<longrightarrow> V j = store (sys A') j"
      using ok True by (auto simp: pa st async_ok_def)
    have ty: "\<forall>j u. V j = Some u \<longrightarrow> (\<exists>t'. store (sys A') j = Some t' \<and> stype t' = stype u)"
      using ok s sv by (fastforce simp: st async_ok_def same_view_def)
    have qs: "\<forall>(ev', t') \<in> set (builds A'). env_good ev' \<and> status t' = SCRIPT_STATUS_ENABLE \<and>
           (\<exists>u. store (sys A') (sid t') = Some u \<and> same_view u t')"
    proof
      fix x assume x: "x \<in> set (builds A')"
      obtain ev' t' where xe: "x = (ev', t')" by (cases x)
      have "env_good ev' \<and> status t' = SCRIPT_STATUS_ENABLE \<and>
          (\<exists>u. store (sys A) (sid t') = Some u \<and> same_view u t')"
        using ok x xe bs by (fastforce simp: async_ok_def)
      moreover have "store (sys A) (sid t') = Some u \<Longrightarrow> same_view u t' \<Longrightarrow>
          \<exists>u'. store (sys A') (sid t') = Some u' \<and> same_view u' t'" for u
        using s sv by (cases "sid t' = i") (auto simp: st intro: same_view_trans)
      ultimately show "case x of (ev', t') \<Rightarrow> env_good ev' \<and> status t' = SCRIPT_STATUS_ENABLE \<and>
          (\<exists>u. store (sys A') (sid t') = Some u \<and> same_view u t')" by (auto simp: xe)
    qed
    show ?thesis using ok ids eq ty ds qs by (auto simp: async_ok_def rt)
  next
    case False
    have v: "V i = Some s" using ok False s by (simp add: async_ok_def)
    have mi: "mirrors (V(i \<mapsto> s')) (rts (sys A'))"
      using mirrors_same [of V _ i s s'] v ok sv by (simp add: rt async_ok_def same_view_def)
    have co: "covers (V(i \<mapsto> s')) (rts (sys A'))"
      using covers_same [of V _ i s s'] v ok sv by (simp add: rt async_ok_def same_view_def)
    have eq: "\<forall>j. j \<notin> pending A' \<longrightarrow> (V(i \<mapsto> s')) j = store (sys A') j"
      using ok by (simp add: pa st async_ok_def)
    have ty: "\<forall>j u. (V(i \<mapsto> s')) j = Some u \<longrightarrow> (\<exists>t'. store (sys A') j = Some t' \<and> stype t' = stype u)"
      using ok by (simp add: st async_ok_def)
    have "\<forall>j \<in> pending A. store (sys A') j = store (sys A) j" using False st by auto
    note qs = async_ok_queue_kept [OF ok this bs]
    show ?thesis using ids mi co eq ty ds qs by (auto simp: async_ok_def)
  qed
qed

lemma store_runStatus:
  "store (scriptRunStatus ev i rs S) =
     (case store S i of None \<Rightarrow> store S | Some s \<Rightarrow> (store S)(i \<mapsto> s\<lparr>runStatus := Some rs, lastruntime := env_now ev\<rparr>))"
  by (simp add: scriptRunStatus_def hook_runStatus_def runStatus_listener_def Let_def split: option.splits)

lemma same_view_runStatus: "same_view (s\<lparr>runStatus := r, lastruntime := l\<rparr>) s"
  by (simp add: same_view_def merge_self_metadata_def split: option.splits)

lemma good_step_ok:
  assumes "good_step A A'" and ok: "async_ok V A"
  shows "\<exists>V'. async_ok V' A'"
  using assms(1)
proof cases
  case (upsert ev s)
  have sv: "env_save ev = Inr ()" using upsert(2) by (simp add: env_good_def)
  show ?thesis
  proof (cases "metadata s ''version'' = None")
    case True
    then show ?thesis using upsert ok by (auto simp: a_upsertHandler_def)
  next
    case False
    let ?U = "A\<lparr>sys := (sys A)\<lparr>store := (store (sys A))(sid s \<mapsto> s)\<rparr>\<rparr>"
    have a': "A' = scriptUpdate_async ev s ?U" using upsert(1) False sv by (simp add: a_upsertHandler_def)
    show ?thesis
    proof (cases "status s = SCRIPT_STATUS_ENABLE")
      case True
      have "async_ok V A'"
        by (rule async_ok_queue [OF ok upsert(4,3,2) True]) (simp_all add: a' scriptUpdate_async_def True)
      then show ?thesis by blast
    next
      case False
      have "async_ok (V(sid s \<mapsto> s)) A'"
        by (rule async_ok_now [OF ok upsert(4,3,2)]) (simp_all add: a' scriptUpdate_async_def False scriptUpdate_def)
      then show ?thesis by blast
    qed
  qed
next
  case (enable ev i)
  show ?thesis
  proof (cases "store (sys A) i")
    case None
    then show ?thesis using enable ok by (auto simp: a_enableHandler_def)
  next
    case (Some s)
    show ?thesis
    proof (cases "status s = SCRIPT_STATUS_ENABLE")
      case True
      then show ?thesis using enable Some ok by (auto simp: a_enableHandler_def)
    next
      case False
      let ?s' = "s\<lparr>status := SCRIPT_STATUS_ENABLE, updatetime := env_now ev\<rparr>"
      have i: "sid s = i" using ok Some by (simp add: async_ok_def)
      have sv: "env_save ev = Inr ()" using enable(2) by (simp add: env_good_def)
      have a': "A' = hook_enable_async ev ?s' (A\<lparr>sys := (sys A)\<lparr>store := (store (sys A))(i \<mapsto> ?s')\<rparr>\<rparr>)"
        using enable(1) Some False sv by (simp add: a_enableHandler_def Let_def)
      have "async_ok V A'"
        by (rule async_ok_queue [OF ok, of ?s' ev])
          (simp_all add: a' i enable(2,3) Some hook_enable_async_def scriptUpdate_async_def Let_def type_kept_def)
      then show ?thesis by blast
    qed
  qed
next
  case (disable ev i)
  have a': "A' = A\<lparr>sys := snd (disableHandler ev i (sys A))\<rparr>" using disable(1) by (simp add: a_disableHandler_eq)
  show ?thesis
  proof (cases "store (sys A) i")
    case None
    then show ?thesis using a' ok by (auto simp: disableHandler_def)
  next
    case (Some s)
    show ?thesis
    proof (cases "status s = SCRIPT_STATUS_ENABLE")
      case False
      then show ?thesis using a' Some ok by (auto simp: disableHandler_def)
    next
      case True
      let ?s' = "s\<lparr>status := SCRIPT_STATUS_DISABLE, updatetime := env_now ev\<rparr>"
      have i: "sid s = i" using ok Some by (simp add: async_ok_def)
      have sv: "env_save ev = Inr ()" using disable(2) by (simp add: env_good_def)
      have a2: "sys A' = hook_disable ev ?s' ((sys A)\<lparr>store := (store (sys A))(i \<mapsto> ?s')\<rparr>)"
        using a' Some True sv by (simp add: disableHandler_def Let_def)
      have "async_ok (V(sid ?s' \<mapsto> ?s')) A'"
        by (rule async_ok_now [OF ok, of ?s' ev])
          (simp_all add: a2 i disable(2,3) Some type_kept_def a' [THEN arg_cong, of builds, simplified])
      then show ?thesis by blast
    qed
  qed
next
  case (run_status ev i rs)
  show ?thesis
  proof (cases "store (sys A) i")
    case None
    then have "async_ok V A'" using ok run_status by (subst async_ok_cong) (simp_all add: store_runStatus)
    then show ?thesis by blast
  next
    case (Some s)
    show ?thesis
      by (rule async_ok_same [OF ok Some same_view_runStatus])
        (simp_all add: run_status Some store_runStatus)
  qed
next
  case (watch c)
  then have "async_ok V A'" using ok by (subst async_ok_cong) (simp_all add: watchRunStatus_def)
  then show ?thesis by blast
next
  case (disconnect c)
  then have "async_ok V A'" using ok by (subst async_ok_cong) (simp_all add: disconnectWatch_def)
  then show ?thesis by blast
next
  case (build k)
  obtain ev t where e: "builds A ! k = (ev, t)" by (cases "builds A ! k")
  have "(ev, t) \<in> set (builds A)" using build(2) e nth_mem by metis
  then obtain u where "store (sys A) (sid t) = Some u" using ok by (fastforce simp: async_ok_def)
  from async_ok_build [OF ok build(2) e this] build(1) show ?thesis by blast
qed

lemma good_reachable_ok: "good_reachable A \<Longrightarrow> \<exists>V. async_ok V A"
proof (induction rule: good_reachable.induct)
  case init
  have "async_ok Map.empty \<lparr>sys = empty_sys, builds = []\<rparr>"
    by (simp add: async_ok_def pending_def mirrors_def covers_def indexed_def empty_sys_def empty_rt_def
        empty_matcher_def)
  then show ?case by blast
next
  case (step A A')
  from step.IH obtain V where "async_ok V A" ..
  with step.hyps(2) show ?case by (rule good_step_ok)
qed

lemma matchUrl_indexed: "x \<in> set (matchUrl filt u st) \<Longrightarrow> x \<in> indexed st"
  by (force simp: indexed_def matcher_match_iff dest!: matchUrl_member)

lemma env_good_ok: "env_good env_ok"
  by (simp add: env_good_def env_ok_def ext_ok_def buildScriptRunResource_def Let_def)

text \<open>Soundness: what a page load answers with is enabled in the table.\<close>

lemma good_pageLoad_sound:
  assumes "mirrors db st" and "pageLoad f src (Some sd) st ps = Some (r, ps')"
    and "x \<in> set (resp_scripts r)"
  shows "\<exists>s. db (sid x) = Some s \<and> status s = SCRIPT_STATUS_ENABLE \<and> stype s = SCRIPT_TYPE_NORMAL"
proof -
  obtain u t where "resp_scripts r = matchUrl (page_filter sd) u (st)"
    using assms(2) by (rule pageLoad_resp)
  with assms(3) have m: "x \<in> set (matchUrl (page_filter sd) u (st))" by simp
  from assms(1) obtain s where "db (sid x) = Some s" "status x = status s" "stype s = SCRIPT_TYPE_NORMAL"
    using matchUrl_indexed [OF m] by (auto simp: mirrors_def)
  moreover have "status x = SCRIPT_STATUS_ENABLE" using matchUrl_page_filter [OF m] by blast
  ultimately show ?thesis by auto
qed

text \<open>
  Completeness: an enabled page script of the table whose merged
  \<^verbatim>\<open>@match\<close> rule covers the URL, and none of whose compiled
  \<^verbatim>\<open>@exclude\<close> rules does, is answered, unless it is marked
  \<^verbatim>\<open>@noframes\<close>.
\<close>

lemma good_pageLoad_complete:
  assumes mi: "mirrors db st" and c: "covers db st"
    and "pageLoad f src (Some sd) st ps = Some (r, ps')" and "url sd = Some u"
    and "db i = Some s" and "stype s = SCRIPT_TYPE_NORMAL" and "status s = SCRIPT_STATUS_ENABLE"
    and "m \<in> set (meta_list (metadata (merge_self_metadata s)) ''match'')" and "parse_match_rule m = Inr p"
    and "match_sat p u"
    and "\<forall>e \<in> set (meta_list (metadata (merge_self_metadata s)) ''exclude'').
           \<forall>q. parse_match_rule e = Inr q \<longrightarrow> \<not> match_sat q u"
    and "metadata (merge_self_metadata s) ''noframes'' = None"
  shows "i \<in> sid ` set (resp_scripts r)"
proof -
  have "p \<in> set (ok_rules parse_match_rule (meta_list (metadata (merge_self_metadata s)) ''match''))"
    using assms(8,9) by (auto simp: set_ok_rules)
  note ci = c [unfolded covers_def, rule_format, OF assms(5-7)]
  obtain x where x: "(p, x) \<in> set (rules (rt_match (st)))" "sid x = i"
    using ci \<open>p \<in> _\<close> by blast
  have ix: "x \<in> indexed (st)" using x(1) by (force simp: indexed_def)
  have md: "metadata x = metadata (merge_self_metadata s)"
    using ci ix x(2) by blast
  have "status x = status s" using mi ix x(2) assms(5) by (auto simp: mirrors_def)
  have "\<not> excluded match_sat (rt_match (st)) u x"
  proof
    assume "excluded match_sat (rt_match (st)) u x"
    then obtain q t where q: "(q, t) \<in> set (excludes (rt_match (st)))" "sid t = i" "match_sat q u"
      using x(2) by (auto simp: excluded_iff)
    then have "q \<in> set (ok_rules parse_match_rule (meta_list (metadata (merge_self_metadata s)) ''exclude''))"
      using ci by fastforce
    then show False using assms(11) q(3) by (auto simp: set_ok_rules)
  qed
  then have "x \<in> set (matcher_match match_sat (rt_match (st)) u)"
    using x(1) assms(10) by (auto simp: matcher_match_iff)
  moreover have "\<not> page_filter sd x"
    using md assms(7,12) \<open>status x = status s\<close> by (simp add: page_filter_def)
  ultimately obtain t' where "t' \<in> set (matchUrl (page_filter sd) u (st))" "sid t' = i"
    using matchUrl_covers [of x "st" u "page_filter sd"] x(2) by blast
  moreover obtain u' t where "url sd = Some u'" "resp_scripts r = matchUrl (page_filter sd) u' (st)"
    using assms(3) by (rule pageLoad_resp)
  ultimately show ?thesis using assms(4) by force
qed

text \<open>
  An indexed enabled page script of the table the index was built from is an
  enabled page script of the script table: at a pending script the table
  holds the enabled row of the waiting enable, of the type the index has.
\<close>

lemma async_ok_enabled:
  assumes ok: "async_ok V A" and v: "V j = Some s0" and "status s0 = SCRIPT_STATUS_ENABLE"
    and "stype s0 = SCRIPT_TYPE_NORMAL"
  shows "\<exists>s. store (sys A) j = Some s \<and> status s = SCRIPT_STATUS_ENABLE \<and> stype s = SCRIPT_TYPE_NORMAL"
proof (cases "j \<in> pending A")
  case True
  then obtain ev t where e: "(ev, t) \<in> set (builds A)" "sid t = j" by (auto simp: pending_def)
  then obtain u where u: "store (sys A) j = Some u" "same_view u t" "status t = SCRIPT_STATUS_ENABLE"
    using ok by (fastforce simp: async_ok_def)
  obtain t' where "store (sys A) j = Some t'" "stype t' = stype s0" using ok v by (fastforce simp: async_ok_def)
  with u assms(4) show ?thesis by (auto simp: same_view_def)
next
  case False
  then show ?thesis using ok v assms(3,4) by (simp add: async_ok_def)
qed

section \<open>Properties\<close>

text \<open>
  C11. On every run of the await-accurate model in which saves and builds
  succeed, no script is deleted, no upsert changes a script's type and no
  handler acts on a script whose enable still waits for its build (builds
  may complete in any order, and handlers on other scripts run in between),
  a page load answers as the script table says: only scripts the table
  holds as enabled page scripts, and every enabled page script whose
  enable is not waiting, whose merged \<^verbatim>\<open>@match\<close> rule covers the URL, none of
  whose \<^verbatim>\<open>@exclude\<close> rules does and that is not marked
  \<^verbatim>\<open>@noframes\<close>. C16 shows that the condition on waiting enables is
  needed; the index mirrors and covers the table it was last built from,
  by rule induction.
\<close>

theorem good_pageLoad_matches_store:
  assumes "good_reachable A" and "pageLoad f src (Some sd) (rts (sys A)) ps = Some (r, ps')" and "url sd = Some u"
  shows "(\<forall>x \<in> set (resp_scripts r). \<exists>s. store (sys A) (sid x) = Some s \<and>
            status s = SCRIPT_STATUS_ENABLE \<and> stype s = SCRIPT_TYPE_NORMAL) \<and>
         (\<forall>i s m p. i \<notin> pending A \<and> store (sys A) i = Some s \<and> stype s = SCRIPT_TYPE_NORMAL \<and>
            status s = SCRIPT_STATUS_ENABLE \<and>
            m \<in> set (meta_list (metadata (merge_self_metadata s)) ''match'') \<and>
            parse_match_rule m = Inr p \<and> match_sat p u \<and>
            (\<forall>e \<in> set (meta_list (metadata (merge_self_metadata s)) ''exclude'').
               \<forall>q. parse_match_rule e = Inr q \<longrightarrow> \<not> match_sat q u) \<and>
            metadata (merge_self_metadata s) ''noframes'' = None \<longrightarrow>
            i \<in> sid ` set (resp_scripts r))"
proof -
  obtain V where ok: "async_ok V A" using good_reachable_ok [OF assms(1)] by blast
  then have mi: "mirrors V (rts (sys A))" and co: "covers V (rts (sys A))"
    and eq: "\<forall>i. i \<notin> pending A \<longrightarrow> V i = store (sys A) i" by (simp_all add: async_ok_def)
  have "\<exists>s. store (sys A) (sid x) = Some s \<and> status s = SCRIPT_STATUS_ENABLE \<and> stype s = SCRIPT_TYPE_NORMAL"
    if "x \<in> set (resp_scripts r)" for x
    using good_pageLoad_sound [OF mi assms(2) that] async_ok_enabled [OF ok] by blast
  moreover have "i \<in> sid ` set (resp_scripts r)"
    if "i \<notin> pending A" and "store (sys A) i = Some s" and "stype s = SCRIPT_TYPE_NORMAL"
      and "status s = SCRIPT_STATUS_ENABLE"
      and "m \<in> set (meta_list (metadata (merge_self_metadata s)) ''match'')" and "parse_match_rule m = Inr p"
      and "match_sat p u"
      and "\<forall>e \<in> set (meta_list (metadata (merge_self_metadata s)) ''exclude'').
             \<forall>q. parse_match_rule e = Inr q \<longrightarrow> \<not> match_sat q u"
      and "metadata (merge_self_metadata s) ''noframes'' = None" for i s m p
    using good_pageLoad_complete [OF mi co assms(2,3)] that eq by simp
  ultimately show ?thesis by blast
qed

theorem good_pageLoad_matches_store_witness:
  "\<exists>r ps'. pageLoad ''flag'' ''boot'' (Some (top_sender 5 ''https://a.test/x''))
      (rts (sys (build_done 0 (snd (a_upsertHandler env_ok versioned_page \<lparr>sys = empty_sys, builds = []\<rparr>)))))
      empty_page = Some (r, ps') \<and>
    1 \<in> sid ` set (resp_scripts r) \<and>
    filter (\<lambda>x. store (sys (build_done 0 (snd (a_upsertHandler env_ok versioned_page
        \<lparr>sys = empty_sys, builds = []\<rparr>)))) (sid x) \<noteq> Some versioned_page) (resp_scripts r) = []"
proof -
  let ?Z = "\<lparr>sys = empty_sys, builds = []\<rparr>"
  let ?U = "snd (a_upsertHandler env_ok versioned_page ?Z)"
  let ?A = "build_done 0 ?U"
  let ?S = "snd (upsertHandler env_ok versioned_page empty_sys)"
  have sA: "sys ?A = ?S" using a_upsertHandler_sequential [of env_ok versioned_page ?Z] by simp
  have q: "0 < length (builds ?U)"
    by (simp add: a_upsertHandler_def scriptUpdate_async_def versioned_page_def page_script_def env_ok_def)
  have reach: "good_reachable ?A"
  proof (rule good_reachable.step [OF good_reachable.step [OF good_reachable.init]])
    show "good_step ?Z ?U"
      by (rule good_step.upsert [OF env_good_ok]) (simp_all add: type_kept_def empty_sys_def pending_def)
    show "good_step ?U ?A" using q by (rule good_step.build)
  qed
  have "pageLoad ''flag'' ''boot'' (Some (top_sender 5 ''https://a.test/x'')) (rts ?S) empty_page \<noteq> None"
    by (simp add: pageLoad_None_iff)
  then obtain r ps' where e: "pageLoad ''flag'' ''boot'' (Some (top_sender 5 ''https://a.test/x''))
      (rts (sys ?A)) empty_page = Some (r, ps')" unfolding sA by (metis option.exhaust prod.exhaust)
  have st: "store (sys ?A) = [1 \<mapsto> versioned_page]"
    unfolding sA
    by (simp add: upsertHandler_def versioned_page_def page_script_def env_ok_def hook_upsert_def empty_sys_def)
  have np: "1 \<notin> pending ?A"
    by (simp add: pending_def build_done_def a_upsertHandler_def scriptUpdate_async_def versioned_page_def
        page_script_def env_ok_def)
  have h1: "store (sys ?A) 1 = Some versioned_page" using st by simp
  have pre: "1 \<notin> pending ?A \<and> store (sys ?A) 1 = Some versioned_page \<and> stype versioned_page = SCRIPT_TYPE_NORMAL \<and>
      status versioned_page = SCRIPT_STATUS_ENABLE \<and>
      ''*://a.test/*'' \<in> set (meta_list (metadata (merge_self_metadata versioned_page)) ''match'') \<and>
      parse_match_rule ''*://a.test/*'' = Inr pat_a \<and> match_sat pat_a ''https://a.test/x'' \<and>
      (\<forall>e \<in> set (meta_list (metadata (merge_self_metadata versioned_page)) ''exclude'').
         \<forall>q. parse_match_rule e = Inr q \<longrightarrow> \<not> match_sat q ''https://a.test/x'') \<and>
      metadata (merge_self_metadata versioned_page) ''noframes'' = None"
    using np h1 by (simp add: versioned_page_def page_script_def merge_self_metadata_def meta_list_def pat_a_def
        parse_match_rule_def parse_scheme_def parse_host_def match_sat_def parse_url_def)
  have u: "url (top_sender 5 ''https://a.test/x'') = Some ''https://a.test/x''" by (simp add: top_sender_def)
  note w = good_pageLoad_matches_store [OF reach e u]
  have "1 \<in> sid ` set (resp_scripts r)"
    using w [THEN conjunct2, rule_format, OF pre] .
  moreover have "filter (\<lambda>x. store (sys ?A) (sid x) \<noteq> Some versioned_page) (resp_scripts r) = []"
    using w st by (auto simp: filter_empty_conv split: if_splits)
  ultimately show ?thesis using e by blast
qed

end
