(* ===== verification/Menu.thy ===== *)
theory Menu
  imports Script
begin

text \<open>
  The menu registry of \<^verbatim>\<open>Runtime.start\<close> (runtime.ts lines 157--235): the
  \<^verbatim>\<open>scriptMenu\<close> map from an owner (a tab id, or the tag of a non-page
  context) to a map from script id to the registered menu entries, both
  JavaScript Maps; the listeners of the \<^verbatim>\<open>registerMenu\<close> and
  \<^verbatim>\<open>unregisterMenu\<close> hooks and of tab activation. \<^verbatim>\<open>genScriptMenu\<close>
  (runtime/background/utils, not among the sources) rebuilds the browser's
  context menu of one owner from the registry; the model records each call
  with the entries it reads. A request's parameters are
  \<^verbatim>\<open>[id, name, accessKey]\<close>; a channel is known by its flag and can be closed.
\<close>

section \<open>Data\<close>

datatype owner = Tab nat | Ctx string

record menu_params =
  menu_id :: nat
  menu_name :: string
  menu_accessKey :: "string option"

record menu_request =
  req_sender :: msg_sender
  scriptId :: nat
  params :: menu_params

record channel =
  ch_flag :: string

type_synonym menu_entry = "menu_request \<times> channel"

type_synonym registry = "(owner, (nat, menu_entry list) jsmap) jsmap"

record menu_state =
  scriptMenu :: registry
  closed_channels :: "string list"
  menu_builds :: "(owner \<times> menu_entry list) list"

section \<open>Operations\<close>

text \<open>
  Lines 171--177: \<^verbatim>\<open>if (!request.sender.tabId)\<close> takes the context tag
  when the tab id is absent or 0.
\<close>

definition sender_key :: "msg_sender \<Rightarrow> owner" where
  "sender_key sd =
     (case tabId sd of
        None \<Rightarrow> Ctx (targetTag sd)
      | Some t \<Rightarrow> if t = 0 then Ctx (targetTag sd) else Tab t)"

text \<open>The entries of one owner, in registration order per script.\<close>

definition owner_menus :: "registry \<Rightarrow> owner \<Rightarrow> menu_entry list" where
  "owner_menus sm ow = (case map_of sm ow of None \<Rightarrow> [] | Some tm \<Rightarrow> concat (map snd tm))"

definition genScriptMenu :: "owner \<Rightarrow> registry \<Rightarrow> menu_state \<Rightarrow> menu_state" where
  "genScriptMenu ow sm st = st\<lparr>menu_builds := menu_builds st @ [(ow, owner_menus sm ow)]\<rparr>"

text \<open>
  Lines 189--195: \<^verbatim>\<open>for (let i = 0; menuArr.length; i += 1)\<close>. The
  condition is the array's length, not \<open>i < length\<close>: on an empty array the
  body never runs (\<open>Inr False\<close>); on a non-empty one it runs until an entry
  has the same menu id (\<open>Inr True\<close>) or \<open>i\<close> passes the end, where
  \<^verbatim>\<open>menuArr[i].request\<close> reads a property of \<^verbatim>\<open>undefined\<close> and throws.
\<close>

function menu_loop :: "menu_entry list \<Rightarrow> nat \<Rightarrow> nat \<Rightarrow> bool result" where
  "menu_loop arr p i =
     (if length arr = 0 then Inr False
      else if i < length arr then
        (if menu_id (params (fst (arr ! i))) = p then Inr True else menu_loop arr p (Suc i))
      else Inl (TypeError ''Cannot read properties of undefined (reading 'request')''))"
  by pat_completeness auto
termination
  by (relation "measure (\<lambda>(arr, p, i). length arr - i)") auto

text \<open>Lines 168--200: the \<^verbatim>\<open>registerMenu\<close> listener.\<close>

definition registerMenu :: "menu_request \<Rightarrow> channel \<Rightarrow> menu_state \<Rightarrow> unit result \<times> menu_state" where
  "registerMenu req ch st =
     (let ow = sender_key (req_sender req);
          tabMap = (case map_of (scriptMenu st) ow of None \<Rightarrow> [] | Some tm \<Rightarrow> tm);
          menuArr = (case map_of tabMap (scriptId req) of None \<Rightarrow> [] | Some a \<Rightarrow> a);
          tabMap1 = (case map_of tabMap (scriptId req) of
                       None \<Rightarrow> jm_set (scriptId req) [] tabMap | Some _ \<Rightarrow> tabMap);
          sm1 = jm_set ow tabMap1 (scriptMenu st)
      in case menu_loop menuArr (menu_id (params req)) 0 of
           Inl e \<Rightarrow> (Inl e, st\<lparr>scriptMenu := sm1\<rparr>)
         | Inr True \<Rightarrow> (Inr (), st\<lparr>scriptMenu := sm1, closed_channels := closed_channels st @ [ch_flag ch]\<rparr>)
         | Inr False \<Rightarrow>
             (let sm2 = jm_set ow (jm_set (scriptId req) (menuArr @ [(req, ch)]) tabMap1) sm1
              in (Inr (), genScriptMenu ow sm2 (st\<lparr>scriptMenu := sm2\<rparr>))))"

text \<open>Lines 213--219: remove the first entry with the menu id.\<close>

fun remove_first_menu :: "nat \<Rightarrow> menu_entry list \<Rightarrow> menu_entry list" where
  "remove_first_menu mid [] = []"
| "remove_first_menu mid (e # es) =
     (if menu_id (params (fst e)) = mid then es else e # remove_first_menu mid es)"

text \<open>
  \<^verbatim>\<open>Object.keys(m)\<close> of a JavaScript \<^verbatim>\<open>Map\<close>: a Map keeps its entries in
  internal slots, not as own enumerable properties, so the array is empty
  whatever the Map holds.
\<close>

definition object_keys :: "('k, 'v) jsmap \<Rightarrow> string list" where
  "object_keys m = []"

text \<open>Lines 201--230: the \<^verbatim>\<open>unregisterMenu\<close> listener.\<close>

definition unregisterMenu :: "nat \<Rightarrow> menu_request \<Rightarrow> menu_state \<Rightarrow> menu_state" where
  "unregisterMenu mid req st =
     (let ow = sender_key (req_sender req);
          sm = (case map_of (scriptMenu st) ow of
                  None \<Rightarrow> scriptMenu st
                | Some tabMap \<Rightarrow>
                    (let tabMap1 =
                       (case map_of tabMap (scriptId req) of
                          None \<Rightarrow> tabMap
                        | Some menuArr \<Rightarrow>
                            (let arr1 = remove_first_menu mid menuArr in
                             if length arr1 = 0 then jm_delete (scriptId req) tabMap
                             else jm_set (scriptId req) arr1 tabMap))
                     in if length (object_keys tabMap1) = 0 then jm_delete ow (scriptMenu st)
                        else jm_set ow tabMap1 (scriptMenu st)))
      in genScriptMenu ow sm (st\<lparr>scriptMenu := sm\<rparr>))"

text \<open>Lines 233--235: switching tabs rebuilds the menu of the new tab.\<close>

definition onActivated :: "nat \<Rightarrow> menu_state \<Rightarrow> menu_state" where
  "onActivated t st = genScriptMenu (Tab t) (scriptMenu st) st"

definition empty_menus :: menu_state where
  "empty_menus = \<lparr>scriptMenu = [], closed_channels = [], menu_builds = []\<rparr>"

section \<open>Specification functions and concrete instances\<close>

text \<open>The entries registered for one script under one owner.\<close>

definition menus_of :: "registry \<Rightarrow> owner \<Rightarrow> nat \<Rightarrow> menu_entry list" where
  "menus_of sm ow k =
     (case map_of sm ow of None \<Rightarrow> [] | Some tm \<Rightarrow> (case map_of tm k of None \<Rightarrow> [] | Some a \<Rightarrow> a))"

text \<open>The registries reachable from an empty one through the three listeners.\<close>

inductive menu_reachable :: "menu_state \<Rightarrow> bool" where
  init: "menu_reachable empty_menus"
| register: "menu_reachable st \<Longrightarrow> menu_reachable (snd (registerMenu req ch st))"
| unregister: "menu_reachable st \<Longrightarrow> menu_reachable (unregisterMenu mid req st)"
| activate: "menu_reachable st \<Longrightarrow> menu_reachable (onActivated t st)"

text \<open>
  Well-formedness of the nested Maps: the owners are distinct keys, and so
  are the script ids under each owner (what a JavaScript \<^verbatim>\<open>Map\<close>
  guarantees and the association-list model has to keep).
\<close>

text \<open>A menu request from script \<open>k\<close> in tab 5 with the given menu id and name.\<close>

definition tab5_request :: "nat \<Rightarrow> nat \<Rightarrow> string \<Rightarrow> menu_request" where
  "tab5_request k mid nm =
     \<lparr>req_sender = \<lparr>tabId = Some 5, frameId = None, url = Some ''https://a.test/'',
                    targetTag = ''content''\<rparr>,
      scriptId = k, params = \<lparr>menu_id = mid, menu_name = nm, menu_accessKey = None\<rparr>\<rparr>"

section \<open>Lemmas\<close>

declare menu_loop.simps [simp del]

text \<open>The scan ends with \<open>Inr True\<close> exactly when some entry from \<open>i\<close> on has the id.\<close>

lemma menu_loop_eq:
  "menu_loop arr p i =
     (if arr = [] then Inr False
      else if \<exists>j. i \<le> j \<and> j < length arr \<and> menu_id (params (fst (arr ! j))) = p then Inr True
      else Inl (TypeError ''Cannot read properties of undefined (reading 'request')''))"
proof (induction arr p i rule: menu_loop.induct)
  case (1 arr p i)
  show ?case
  proof (cases "arr = []")
    case True
    then show ?thesis by (simp add: menu_loop.simps)
  next
    case False
    show ?thesis
    proof (cases "i < length arr")
      case True
      show ?thesis
      proof (cases "menu_id (params (fst (arr ! i))) = p")
        case True
        with \<open>i < length arr\<close> False show ?thesis by (auto simp: menu_loop.simps [of arr p i])
      next
        case ne: False
        have "(\<exists>j. i \<le> j \<and> j < length arr \<and> menu_id (params (fst (arr ! j))) = p) \<longleftrightarrow>
              (\<exists>j. Suc i \<le> j \<and> j < length arr \<and> menu_id (params (fst (arr ! j))) = p)"
        proof
          assume "\<exists>j. i \<le> j \<and> j < length arr \<and> menu_id (params (fst (arr ! j))) = p"
          then obtain j where j: "i \<le> j" "j < length arr" "menu_id (params (fst (arr ! j))) = p"
            by blast
          with ne have "Suc i \<le> j" by (cases "j = i") auto
          with j show "\<exists>j. Suc i \<le> j \<and> j < length arr \<and> menu_id (params (fst (arr ! j))) = p"
            by blast
        next
          assume "\<exists>j. Suc i \<le> j \<and> j < length arr \<and> menu_id (params (fst (arr ! j))) = p"
          then show "\<exists>j. i \<le> j \<and> j < length arr \<and> menu_id (params (fst (arr ! j))) = p"
            by (auto intro: Suc_leD)
        qed
        with 1 False True ne show ?thesis by (simp add: menu_loop.simps [of arr p i])
      qed
    next
      case False
      with \<open>arr \<noteq> []\<close> show ?thesis by (auto simp: menu_loop.simps [of arr p i])
    qed
  qed
qed

lemma menu_loop_0:
  "menu_loop arr p 0 =
     (if arr = [] then Inr False
      else if p \<in> (\<lambda>e. menu_id (params (fst e))) ` set arr then Inr True
      else Inl (TypeError ''Cannot read properties of undefined (reading 'request')''))"
proof -
  have "(\<exists>j. 0 \<le> j \<and> j < length arr \<and> menu_id (params (fst (arr ! j))) = p) \<longleftrightarrow>
        p \<in> (\<lambda>e. menu_id (params (fst e))) ` set arr"
  proof
    assume "\<exists>j. 0 \<le> j \<and> j < length arr \<and> menu_id (params (fst (arr ! j))) = p"
    then obtain j where "j < length arr" "menu_id (params (fst (arr ! j))) = p" by blast
    then show "p \<in> (\<lambda>e. menu_id (params (fst e))) ` set arr" by (auto intro: nth_mem)
  next
    assume "p \<in> (\<lambda>e. menu_id (params (fst e))) ` set arr"
    then obtain e where e: "e \<in> set arr" "p = menu_id (params (fst e))" by blast
    then obtain j where "j < length arr" "arr ! j = e" by (auto simp: in_set_conv_nth)
    with e show "\<exists>j. 0 \<le> j \<and> j < length arr \<and> menu_id (params (fst (arr ! j))) = p" by blast
  qed
  then show ?thesis by (simp only: menu_loop_eq)
qed

lemma menus_of_nonempty:
  "menus_of sm ow k \<noteq> [] \<Longrightarrow>
     \<exists>tm. map_of sm ow = Some tm \<and> map_of tm k = Some (menus_of sm ow k)"
  by (auto simp: menus_of_def split: option.splits)

text \<open>When the script already has entries under the owner, the registry is unchanged.\<close>

lemma registerMenu_existing:
  assumes "menus_of (scriptMenu st) (sender_key (req_sender req)) (scriptId req) = arr" and "arr \<noteq> []"
  shows "registerMenu req ch st =
     (case menu_loop arr (menu_id (params req)) 0 of
        Inl e \<Rightarrow> (Inl e, st)
      | Inr True \<Rightarrow> (Inr (), st\<lparr>closed_channels := closed_channels st @ [ch_flag ch]\<rparr>)
      | Inr False \<Rightarrow> (Inr (), st))"
proof -
  obtain tm where tm: "map_of (scriptMenu st) (sender_key (req_sender req)) = Some tm"
    and arr: "map_of tm (scriptId req) = Some arr"
    using menus_of_nonempty assms by fastforce
  have "jm_set (sender_key (req_sender req)) tm (scriptMenu st) = scriptMenu st"
    using tm by (rule jm_set_same)
  with tm arr assms(2) show ?thesis
    by (simp add: registerMenu_def Let_def menu_loop_0 split: sum.splits bool.splits)
qed

lemma scriptMenu_registerMenu_present:
  assumes "menus_of (scriptMenu st) (sender_key (req_sender req)) (scriptId req) \<noteq> []"
  shows "scriptMenu (snd (registerMenu req ch st)) = scriptMenu st"
  using assms by (simp add: registerMenu_existing split: sum.splits bool.splits)

lemma registerMenu_absent:
  assumes "menus_of (scriptMenu st) (sender_key (req_sender req)) (scriptId req) = []"
  shows "fst (registerMenu req ch st) = Inr ()"
    "menus_of (scriptMenu (snd (registerMenu req ch st))) ow k =
       (if (ow, k) = (sender_key (req_sender req), scriptId req) then [(req, ch)]
        else menus_of (scriptMenu st) ow k)"
    "menu_builds (snd (registerMenu req ch st)) =
       menu_builds st @ [(sender_key (req_sender req),
         owner_menus (scriptMenu (snd (registerMenu req ch st))) (sender_key (req_sender req)))]"
  using assms
  by (auto simp: registerMenu_def Let_def menu_loop_0 menus_of_def genScriptMenu_def
      split: option.splits)

lemma menus_of_unregisterMenu:
  "menus_of (scriptMenu (unregisterMenu mid req st)) ow k =
     (if ow = sender_key (req_sender req) then [] else menus_of (scriptMenu st) ow k)"
  by (auto simp: unregisterMenu_def Let_def object_keys_def genScriptMenu_def menus_of_def
      split: option.splits)

lemma tab5_request_fields [simp]:
  "sender_key (req_sender (tab5_request k mid nm)) = Tab 5"
  "scriptId (tab5_request k mid nm) = k"
  "menu_id (params (tab5_request k mid nm)) = mid"
  by (simp_all add: tab5_request_def sender_key_def)

section \<open>Properties of the registry\<close>

text \<open>
  C8. A registration whose menu id the same script already registered under
  the same owner is rejected: its channel is closed and the registry is left
  as it was, so the first registration wins.
\<close>

theorem registerMenu_duplicate_rejected:
  assumes "e \<in> set (menus_of (scriptMenu st) (sender_key (req_sender req)) (scriptId req))"
    and "menu_id (params (fst e)) = menu_id (params req)"
  shows "registerMenu req ch st = (Inr (), st\<lparr>closed_channels := closed_channels st @ [ch_flag ch]\<rparr>)"
proof -
  let ?arr = "menus_of (scriptMenu st) (sender_key (req_sender req)) (scriptId req)"
  have "?arr \<noteq> []" using assms(1) by auto
  moreover have "menu_loop ?arr (menu_id (params req)) 0 = Inr True"
    using assms \<open>?arr \<noteq> []\<close> by (force simp: menu_loop_0)
  ultimately show ?thesis by (simp add: registerMenu_existing)
qed

theorem registerMenu_duplicate_rejected_witness:
  "registerMenu (tab5_request 1 1 ''Bar'') \<lparr>ch_flag = ''c2''\<rparr>
     (snd (registerMenu (tab5_request 1 1 ''Foo'') \<lparr>ch_flag = ''c1''\<rparr> empty_menus)) =
   (Inr (), (snd (registerMenu (tab5_request 1 1 ''Foo'') \<lparr>ch_flag = ''c1''\<rparr> empty_menus))
              \<lparr>closed_channels := [''c2'']\<rparr>)"
proof -
  let ?st = "snd (registerMenu (tab5_request 1 1 ''Foo'') \<lparr>ch_flag = ''c1''\<rparr> empty_menus)"
  have e0: "menus_of (scriptMenu empty_menus) (Tab 5) 1 = []"
    by (simp add: empty_menus_def menus_of_def)
  have "menus_of (scriptMenu ?st) (Tab 5) 1 = [(tab5_request 1 1 ''Foo'', \<lparr>ch_flag = ''c1''\<rparr>)]"
    using registerMenu_absent(2) [of empty_menus "tab5_request 1 1 ''Foo''"] e0 by simp
  then have h: "(tab5_request 1 1 ''Foo'', \<lparr>ch_flag = ''c1''\<rparr>)
      \<in> set (menus_of (scriptMenu ?st) (sender_key (req_sender (tab5_request 1 1 ''Bar'')))
               (scriptId (tab5_request 1 1 ''Bar'')))"
    by simp
  have "closed_channels ?st = []"
    using e0 by (simp add: registerMenu_def Let_def menu_loop_0 genScriptMenu_def empty_menus_def
        menus_of_def)
  with registerMenu_duplicate_rejected [OF h] show ?thesis by simp
qed

text \<open>
  C9. A second menu with a different id for the same script and owner is
  never registered: the scan of lines 189--195 runs past the end of the
  non-empty array and throws a \<^verbatim>\<open>TypeError\<close>, and the registry is left
  unchanged (the new channel is not even closed).
\<close>

theorem registerMenu_second_menu_throws:
  assumes "menus_of (scriptMenu st) (sender_key (req_sender req)) (scriptId req) \<noteq> []"
    and "\<forall>e \<in> set (menus_of (scriptMenu st) (sender_key (req_sender req)) (scriptId req)).
           menu_id (params (fst e)) \<noteq> menu_id (params req)"
  shows "registerMenu req ch st =
           (Inl (TypeError ''Cannot read properties of undefined (reading 'request')''), st)"
proof -
  let ?arr = "menus_of (scriptMenu st) (sender_key (req_sender req)) (scriptId req)"
  have "menu_loop ?arr (menu_id (params req)) 0 =
          Inl (TypeError ''Cannot read properties of undefined (reading 'request')'')"
    using assms by (auto simp: menu_loop_0)
  with assms(1) show ?thesis by (simp add: registerMenu_existing)
qed

theorem registerMenu_second_menu_throws_witness:
  "registerMenu (tab5_request 1 2 ''Bar'') \<lparr>ch_flag = ''c2''\<rparr>
     (snd (registerMenu (tab5_request 1 1 ''Foo'') \<lparr>ch_flag = ''c1''\<rparr> empty_menus)) =
   (Inl (TypeError ''Cannot read properties of undefined (reading 'request')''),
    snd (registerMenu (tab5_request 1 1 ''Foo'') \<lparr>ch_flag = ''c1''\<rparr> empty_menus))"
proof -
  let ?st = "snd (registerMenu (tab5_request 1 1 ''Foo'') \<lparr>ch_flag = ''c1''\<rparr> empty_menus)"
  have e0: "menus_of (scriptMenu empty_menus) (Tab 5) 1 = []"
    by (simp add: empty_menus_def menus_of_def)
  have m: "menus_of (scriptMenu ?st) (Tab 5) 1 = [(tab5_request 1 1 ''Foo'', \<lparr>ch_flag = ''c1''\<rparr>)]"
    using registerMenu_absent(2) [of empty_menus "tab5_request 1 1 ''Foo''"] e0 by simp
  have h1: "menus_of (scriptMenu ?st) (sender_key (req_sender (tab5_request 1 2 ''Bar'')))
      (scriptId (tab5_request 1 2 ''Bar'')) \<noteq> []"
    using m by simp
  have h2: "\<forall>e \<in> set (menus_of (scriptMenu ?st) (sender_key (req_sender (tab5_request 1 2 ''Bar'')))
      (scriptId (tab5_request 1 2 ''Bar''))). menu_id (params (fst e)) \<noteq> menu_id (params (tab5_request 1 2 ''Bar''))"
    using m by simp
  show ?thesis by (rule registerMenu_second_menu_throws [OF h1 h2])
qed

text \<open>
  C10. Unregistering one menu entry drops the whole owner from the registry:
  \<^verbatim>\<open>Object.keys(tabMap)\<close> of a Map is always empty (line 224), so every
  other script's menus under the same tab or context are lost with it; the
  other owners are untouched.
\<close>

theorem unregisterMenu_drops_owner:
  "map_of (scriptMenu (unregisterMenu mid req st)) (sender_key (req_sender req)) = None \<and>
   (\<forall>ow. ow \<noteq> sender_key (req_sender req) \<longrightarrow>
      map_of (scriptMenu (unregisterMenu mid req st)) ow = map_of (scriptMenu st) ow)"
  by (auto simp: unregisterMenu_def Let_def object_keys_def genScriptMenu_def split: option.splits)

theorem unregisterMenu_drops_owner_witness:
  "menus_of (scriptMenu (snd (registerMenu (tab5_request 2 7 ''Other'') \<lparr>ch_flag = ''c2''\<rparr>
      (snd (registerMenu (tab5_request 1 1 ''Foo'') \<lparr>ch_flag = ''c1''\<rparr> empty_menus))))) (Tab 5) 2
     = [(tab5_request 2 7 ''Other'', \<lparr>ch_flag = ''c2''\<rparr>)] \<and>
   menus_of (scriptMenu (unregisterMenu 1 (tab5_request 1 1 ''Foo'')
     (snd (registerMenu (tab5_request 2 7 ''Other'') \<lparr>ch_flag = ''c2''\<rparr>
      (snd (registerMenu (tab5_request 1 1 ''Foo'') \<lparr>ch_flag = ''c1''\<rparr> empty_menus)))))) (Tab 5) 2 = []"
proof -
  let ?st1 = "snd (registerMenu (tab5_request 1 1 ''Foo'') \<lparr>ch_flag = ''c1''\<rparr> empty_menus)"
  let ?st2 = "snd (registerMenu (tab5_request 2 7 ''Other'') \<lparr>ch_flag = ''c2''\<rparr> ?st1)"
  have e0: "menus_of (scriptMenu empty_menus) (Tab 5) k = []" for k
    by (simp add: empty_menus_def menus_of_def)
  have e1: "menus_of (scriptMenu ?st1) (Tab 5) 2 = []"
    using registerMenu_absent(2) [of empty_menus "tab5_request 1 1 ''Foo''"] e0 by simp
  have m2: "menus_of (scriptMenu ?st2) (Tab 5) 2 = [(tab5_request 2 7 ''Other'', \<lparr>ch_flag = ''c2''\<rparr>)]"
    using registerMenu_absent(2) [of ?st1 "tab5_request 2 7 ''Other''"] e1 by simp
  have "map_of (scriptMenu (unregisterMenu 1 (tab5_request 1 1 ''Foo'') ?st2)) (Tab 5) = None"
    using unregisterMenu_drops_owner [of 1 "tab5_request 1 1 ''Foo''" ?st2] by simp
  then have "menus_of (scriptMenu (unregisterMenu 1 (tab5_request 1 1 ''Foo'') ?st2)) (Tab 5) 2 = []"
    by (simp add: menus_of_def)
  with m2 show ?thesis by simp
qed

text \<open>
  C12. In every registry the listeners reach, a script has at most one menu
  entry per owner: a consequence of C9, since an entry is only ever appended
  to an empty list.
\<close>

theorem menu_reachable_single_entry:
  "menu_reachable st \<Longrightarrow> length (menus_of (scriptMenu st) ow k) \<le> 1"
proof (induction arbitrary: ow k rule: menu_reachable.induct)
  case init
  then show ?case by (simp add: empty_menus_def menus_of_def)
next
  case (register st req ch)
  show ?case
  proof (cases "menus_of (scriptMenu st) (sender_key (req_sender req)) (scriptId req) = []")
    case True
    then show ?thesis using register.IH by (simp add: registerMenu_absent(2))
  next
    case False
    then show ?thesis using register.IH by (simp add: scriptMenu_registerMenu_present)
  qed
next
  case (unregister st mid req)
  then show ?case by (simp add: menus_of_unregisterMenu)
next
  case (activate st t)
  then show ?case by (simp add: onActivated_def genScriptMenu_def)
qed

theorem menu_reachable_single_entry_witness:
  "menu_reachable (snd (registerMenu (tab5_request 1 1 ''Foo'') \<lparr>ch_flag = ''c1''\<rparr> empty_menus)) \<and>
   length (menus_of (scriptMenu (snd (registerMenu (tab5_request 1 1 ''Foo'') \<lparr>ch_flag = ''c1''\<rparr>
     empty_menus))) (Tab 5) 1) \<le> 1"
proof -
  have r: "menu_reachable (snd (registerMenu (tab5_request 1 1 ''Foo'') \<lparr>ch_flag = ''c1''\<rparr> empty_menus))"
    by (rule menu_reachable.register [OF menu_reachable.init])
  from r menu_reachable_single_entry [OF r] show ?thesis by blast
qed

end
