(* ===== verification/Query.thy ===== *)
theory Query
  imports Events Menu
begin

text \<open>
  The \<^verbatim>\<open>queryPageScript\<close> handler of \<^verbatim>\<open>Runtime.start\<close> (runtime.ts lines
  263--322): the popup of tab \<open>t\<close> showing \<open>url\<close> asks for the scripts
  that match the URL, each with the menu commands it registered in that tab,
  and for the cached background scripts, each with the menu commands it
  registered from the sandbox. It reads the matchers (\<open>rt_state\<close>), the
  menu registry (\<open>registry\<close>) and \<^verbatim>\<open>runBackScript\<close>, and changes nothing.
\<close>

section \<open>Data\<close>

text \<open>The types \<^verbatim>\<open>ScriptMenuItem\<close> and \<^verbatim>\<open>ScriptMenu\<close> (runtime.ts lines 34--50) and the answer of the handler.\<close>

record script_menu_item =
  item_name :: string
  item_accessKey :: "string option"
  item_id :: nat
  item_sender :: msg_sender
  item_channelFlag :: string

record script_menu =
  sm_id :: nat
  sm_name :: string
  sm_enable :: bool
  sm_updatetime :: nat
  sm_runStatus :: "run_status option"
  sm_hasUserConfig :: bool
  sm_menus :: "script_menu_item list"

record query_result =
  scriptList :: "script_menu list"
  backScriptList :: "script_menu list"

section \<open>Operations\<close>

text \<open>Lines 274--280 and 298--304: one registered menu command as the popup shows it.\<close>

definition menu_item :: "menu_entry \<Rightarrow> script_menu_item" where
  "menu_item e =
     \<lparr>item_name = menu_name (params (fst e)), item_accessKey = menu_accessKey (params (fst e)),
      item_id = menu_id (params (fst e)), item_sender = req_sender (fst e),
      item_channelFlag = ch_flag (snd e)\<rparr>"

text \<open>
  Lines 272--282: \<^verbatim>\<open>tabMap.get(item.id)?.forEach(...)\<close> when the owner has a
  map, nothing otherwise.
\<close>

definition script_menus :: "registry \<Rightarrow> owner \<Rightarrow> nat \<Rightarrow> script_menu_item list" where
  "script_menus sm ow k =
     (case map_of sm ow of
        None \<Rightarrow> []
      | Some tm \<Rightarrow> (case map_of tm k of None \<Rightarrow> [] | Some es \<Rightarrow> map menu_item es))"

text \<open>
  Lines 283--290 and 307--315: the entry of one script;
  \<^verbatim>\<open>item.updatetime || item.createtime\<close> falls back when the update time
  is 0, and only the background list carries the run status.
\<close>

definition script_entry :: "run_status option \<Rightarrow> script_menu_item list \<Rightarrow> script \<Rightarrow> script_menu" where
  "script_entry rs ms s =
     \<lparr>sm_id = sid s, sm_name = name s, sm_enable = (status s = SCRIPT_STATUS_ENABLE),
      sm_updatetime = (if updatetime s = 0 then createtime s else updatetime s),
      sm_runStatus = rs, sm_hasUserConfig = (config s \<noteq> None), sm_menus = ms\<rparr>"

text \<open>Lines 263--322.\<close>

definition queryPageScript ::
  "string \<Rightarrow> nat \<Rightarrow> rt_state \<Rightarrow> (nat, script) jsmap \<Rightarrow> registry \<Rightarrow> query_result" where
  "queryPageScript u t st back sm =
     \<lparr>scriptList = map (\<lambda>s. script_entry None (script_menus sm (Tab t) (sid s)) s)
                    (matchUrl (\<lambda>_. False) u st),
      backScriptList = map (\<lambda>(_, s). script_entry (runStatus s) (script_menus sm (Ctx ''sandbox'') (sid s)) s)
                         back\<rparr>"

text \<open>The popup's query against the whole background page.\<close>

definition sys_query :: "string \<Rightarrow> nat \<Rightarrow> sys_state \<Rightarrow> menu_state \<Rightarrow> query_result" where
  "sys_query u t S ms = queryPageScript u t (rts S) (runBackScript S) (scriptMenu ms)"

text \<open>A concrete index: one enabled page script matching \<^verbatim>\<open>*://a.test/*\<close>.\<close>

definition st_page1 :: rt_state where
  "st_page1 = snd (scriptUpdate ext_ok ''flag'' (Inr ()) (page_script 1 [''*://a.test/*'']) empty_rt)"

section \<open>Lemmas\<close>

lemma script_menus_menus_of: "script_menus sm ow k = map menu_item (menus_of sm ow k)"
  by (simp add: script_menus_def menus_of_def split: option.splits)

lemma scriptList_member:
  "x \<in> set (scriptList (queryPageScript u t st back sm)) \<longleftrightarrow>
     (\<exists>s \<in> set (matchUrl (\<lambda>_. False) u st). x = script_entry None (script_menus sm (Tab t) (sid s)) s)"
  by (auto simp: queryPageScript_def)

lemma script_entry_fields [simp]:
  "sm_id (script_entry rs ms s) = sid s" "sm_menus (script_entry rs ms s) = ms"
  "sm_enable (script_entry rs ms s) = (status s = SCRIPT_STATUS_ENABLE)"
  "sm_runStatus (script_entry rs ms s) = rs"
  by (simp_all add: script_entry_def)

lemma st_page1_match: "map sid (matchUrl (\<lambda>_. False) ''https://a.test/x'' st_page1) = [1]"
  by (simp add: st_page1_def rt_eval_simps ext_ok_def page_script_def)

section \<open>Properties of the popup query\<close>

text \<open>
  C31. Round trip between the menu registry and the popup: after a script
  registers its first menu command in tab \<open>t\<close>, the popup of that tab lists
  exactly that command under the script, with its name, access key, id,
  sender and channel flag.
\<close>

theorem query_shows_registered_menu:
  assumes "menus_of (scriptMenu ms) (sender_key (req_sender req)) (scriptId req) = []"
    and "sender_key (req_sender req) = Tab t"
    and "x \<in> set (scriptList (queryPageScript u t st back (scriptMenu (snd (registerMenu req ch ms)))))"
    and "sm_id x = scriptId req"
  shows "sm_menus x = [menu_item (req, ch)]"
proof -
  obtain s where s: "x = script_entry None (script_menus (scriptMenu (snd (registerMenu req ch ms))) (Tab t) (sid s)) s"
    and k: "sid s = scriptId req"
    using assms(3,4) by (auto simp: scriptList_member)
  have "menus_of (scriptMenu (snd (registerMenu req ch ms))) (Tab t) (scriptId req) = [(req, ch)]"
    using registerMenu_absent(2) [OF assms(1), of ch "Tab t" "scriptId req"] assms(2) by simp
  then show ?thesis by (simp add: s k script_menus_menus_of)
qed

theorem query_shows_registered_menu_witness:
  "sm_menus (hd (scriptList (queryPageScript ''https://a.test/x'' 5 st_page1 []
      (scriptMenu (snd (registerMenu (tab5_request 1 1 ''Foo'') \<lparr>ch_flag = ''c1''\<rparr> empty_menus)))))) =
   [menu_item (tab5_request 1 1 ''Foo'', \<lparr>ch_flag = ''c1''\<rparr>)]"
proof -
  let ?q = "scriptList (queryPageScript ''https://a.test/x'' 5 st_page1 []
      (scriptMenu (snd (registerMenu (tab5_request 1 1 ''Foo'') \<lparr>ch_flag = ''c1''\<rparr> empty_menus))))"
  have ids: "map sm_id ?q = [1]"
    using st_page1_match by (simp add: queryPageScript_def comp_def)
  then have "hd ?q \<in> set ?q" by (cases ?q) auto
  moreover have "sm_id (hd ?q) = scriptId (tab5_request 1 1 ''Foo'')"
    using ids by (cases ?q) auto
  moreover have "menus_of (scriptMenu empty_menus) (sender_key (req_sender (tab5_request 1 1 ''Foo'')))
      (scriptId (tab5_request 1 1 ''Foo'')) = []"
    by (simp add: empty_menus_def menus_of_def)
  ultimately show ?thesis
    using query_shows_registered_menu [of empty_menus "tab5_request 1 1 ''Foo''" 5 "hd ?q"] by simp
qed

end
