(* ===== verification/Sandbox.thy ===== *)
theory Sandbox
  imports Prelude
begin

text \<open>
  The start-up handshake of the sandbox page (src/src/sandbox.ts lines
  24--35). On load the page calls \<^verbatim>\<open>retry\<close>, which arms a 1000 ms timer
  that calls \<^verbatim>\<open>retry\<close> again and sends \<^verbatim>\<open>sandboxOnload\<close>; the reply
  clears the timer of the attempt it answers, and only that one. Attempt
  \<open>k\<close> is sent at time \<open>1000 * k\<close>; \<open>ack k\<close> is the delay after which
  its reply arrives (\<open>None\<close>: never). The reply stops the loop when it
  arrives before the attempt's timer fires, i.e.\ with a delay under 1000 ms
  (a reply at exactly 1000 ms races with the timer; the model counts it as
  late). \<open>attempts ack k\<close> is the number of messages sent when the loop
  started at attempt \<open>k\<close> stops, and \<open>None\<close> when it never stops: a
  \<open>partial_function\<close> in the option monad, since nothing bounds the loop.
\<close>

section \<open>Operations\<close>

text \<open>Whether the reply to attempt \<open>j\<close> clears its timer (line 29).\<close>

definition in_time :: "(nat \<Rightarrow> nat option) \<Rightarrow> nat \<Rightarrow> bool" where
  "in_time ack j = (case ack j of None \<Rightarrow> False | Some d \<Rightarrow> d < 1000)"

text \<open>Lines 24--31: one call of \<^verbatim>\<open>retry\<close> and the timer it arms.\<close>

partial_function (option) attempts :: "(nat \<Rightarrow> nat option) \<Rightarrow> nat \<Rightarrow> nat option" where
  "attempts ack k =
     (case ack k of
        Some d \<Rightarrow> if d < 1000 then Some (Suc k) else attempts ack (Suc k)
      | None \<Rightarrow> attempts ack (Suc k))"

text \<open>Lines 33--35: the loop starts at attempt 0 when the page has loaded.\<close>

definition onload :: "(nat \<Rightarrow> nat option) \<Rightarrow> nat option" where
  "onload ack = attempts ack 0"

section \<open>Lemmas\<close>

lemma attempts_step:
  "attempts ack k = (if in_time ack k then Some (Suc k) else attempts ack (Suc k))"
  by (subst attempts.simps) (simp add: in_time_def split: option.splits)

lemma attempts_Some:
  assumes "attempts ack k = Some n"
  shows "k < n \<and> in_time ack (n - 1) \<and> (\<forall>j. k \<le> j \<and> j < n - 1 \<longrightarrow> \<not> in_time ack j)"
proof (rule attempts.raw_induct
    [where P = "\<lambda>ack k n. k < n \<and> in_time ack (n - 1) \<and> (\<forall>j. k \<le> j \<and> j < n - 1 \<longrightarrow> \<not> in_time ack j)",
     OF _ assms])
  fix f and ack :: "nat \<Rightarrow> nat option" and k n
  assume IH: "\<And>ack k n. f ack k = Some n \<Longrightarrow>
      k < n \<and> in_time ack (n - 1) \<and> (\<forall>j. k \<le> j \<and> j < n - 1 \<longrightarrow> \<not> in_time ack j)"
    and body: "(case ack k of
        Some d \<Rightarrow> if d < 1000 then Some (Suc k) else f ack (Suc k)
      | None \<Rightarrow> f ack (Suc k)) = Some n"
  show "k < n \<and> in_time ack (n - 1) \<and> (\<forall>j. k \<le> j \<and> j < n - 1 \<longrightarrow> \<not> in_time ack j)"
  proof (cases "in_time ack k")
    case True
    with body show ?thesis by (auto simp: in_time_def split: option.splits)
  next
    case False
    then have "f ack (Suc k) = Some n" using body by (auto simp: in_time_def split: option.splits if_splits)
    then have ih: "Suc k < n \<and> in_time ack (n - 1) \<and> (\<forall>j. Suc k \<le> j \<and> j < n - 1 \<longrightarrow> \<not> in_time ack j)"
      by (rule IH)
    show ?thesis
    proof (intro conjI allI impI)
      show "k < n" using ih by simp
      show "in_time ack (n - 1)" using ih by simp
      fix j assume "k \<le> j \<and> j < n - 1"
      with ih False show "\<not> in_time ack j" by (cases "j = k") auto
    qed
  qed
qed

lemma attempts_reach:
  assumes "in_time ack (k + m)" and "\<forall>j. k \<le> j \<and> j < k + m \<longrightarrow> \<not> in_time ack j"
  shows "attempts ack k = Some (Suc (k + m))"
  using assms
proof (induction m arbitrary: k)
  case 0
  then show ?case by (subst attempts_step) simp
next
  case (Suc m)
  have "\<not> in_time ack k" using Suc.prems(2) by simp
  moreover have "attempts ack (Suc k) = Some (Suc (Suc k + m))"
    using Suc.prems by (intro Suc.IH) auto
  ultimately show ?case by (subst attempts_step) simp
qed

lemma in_time_first:
  assumes "in_time ack j" and "k \<le> j"
  shows "\<exists>m. in_time ack (k + m) \<and> (\<forall>i. k \<le> i \<and> i < k + m \<longrightarrow> \<not> in_time ack i)"
proof -
  let ?m = "LEAST m. in_time ack (k + m)"
  have "in_time ack (k + (j - k))" using assms by simp
  then have "in_time ack (k + ?m)" by (rule LeastI)
  moreover have "\<not> in_time ack i" if "k \<le> i" "i < k + ?m" for i
  proof
    assume "in_time ack i"
    then have "in_time ack (k + (i - k))" using that(1) by simp
    then have "?m \<le> i - k" by (rule Least_le)
    with that show False by simp
  qed
  ultimately show ?thesis by blast
qed

section \<open>Properties of the handshake\<close>

text \<open>
  C29. The handshake loop stops exactly when some attempt from the start on is
  answered within 1000 ms; nothing else ends it.
\<close>

theorem handshake_stops_iff:
  "(\<exists>n. attempts ack k = Some n) \<longleftrightarrow> (\<exists>j \<ge> k. in_time ack j)"
proof
  assume "\<exists>n. attempts ack k = Some n"
  then obtain n where "attempts ack k = Some n" by blast
  from attempts_Some [OF this] show "\<exists>j \<ge> k. in_time ack j"
    by (intro exI [where x = "n - 1"]) auto
next
  assume "\<exists>j \<ge> k. in_time ack j"
  then obtain j where "in_time ack j" "k \<le> j" by blast
  from in_time_first [OF this] obtain m where
    "in_time ack (k + m)" "\<forall>i. k \<le> i \<and> i < k + m \<longrightarrow> \<not> in_time ack i" by blast
  then show "\<exists>n. attempts ack k = Some n" by (blast dest: attempts_reach)
qed

text \<open>
  When the sandbox page loads, it sends \<open>n\<close> handshake messages, one
  every second, exactly when attempt \<open>n - 1\<close> is the first answered within
  1000 ms.
\<close>

lemma onload_sends:
  "onload ack = Some n \<longleftrightarrow>
     0 < n \<and> in_time ack (n - 1) \<and> (\<forall>j < n - 1. \<not> in_time ack j)"
proof
  assume "onload ack = Some n"
  then show "0 < n \<and> in_time ack (n - 1) \<and> (\<forall>j < n - 1. \<not> in_time ack j)"
    unfolding onload_def by (auto dest: attempts_Some)
next
  assume h: "0 < n \<and> in_time ack (n - 1) \<and> (\<forall>j < n - 1. \<not> in_time ack j)"
  then have "attempts ack 0 = Some (Suc (0 + (n - 1)))"
    by (intro attempts_reach) auto
  with h show "onload ack = Some n" by (simp add: onload_def)
qed

text \<open>
  Replies that all arrive late never stop the loop: when every attempt is
  answered but none within 1000 ms, the page keeps sending forever, because
  each reply clears only the timer of its own attempt, which has already
  fired (sandbox.ts 25--30). The specification says the loop retries until
  acknowledged.
\<close>

lemma late_replies_never_stop:
  assumes "\<forall>j. ack j \<noteq> None" and "\<forall>j d. ack j = Some d \<longrightarrow> 1000 \<le> d"
  shows "onload ack = None"
proof -
  have "\<not> in_time ack j" for j using assms(2) [rule_format, of j] by (cases "ack j") (auto simp: in_time_def)
  then have "attempts ack 0 \<noteq> Some n" for n using attempts_Some [of ack 0 n] by auto
  then show ?thesis by (cases "attempts ack 0") (auto simp: onload_def)
qed

end
