(* ===== verification/Spec2Isabelle.thy ===== *)
theory Spec2Isabelle
  imports Agreement Async Query Sandbox
begin

text \<open>
  \<^bold>\<open>A verification model of the ScriptCat background page.\<close>

  The program. The background page of the extension runs one
  \<^verbatim>\<open>Runtime\<close> (src/src/runtime/background/runtime.ts) beside a
  \<^verbatim>\<open>ScriptEventListener\<close> (src/src/app/service/script/event.ts). The
  event handlers change the script table and trigger hooks; the runtime
  listens to those hooks, keeps two URL matchers (\<^verbatim>\<open>UrlMatch\<close>,
  \<^verbatim>\<open>UrlInclude\<close>) for page scripts, sends enable/disable/start/stop
  RPCs to the sandbox for background scripts, keeps the cache
  \<^verbatim>\<open>runBackScript\<close> of background scripts for the popup, answers the
  content pages' \<^verbatim>\<open>pageLoad\<close> reports by injecting scripts, and keeps the
  registry of menu commands. The sandbox page (src/src/sandbox.ts) runs the
  scripts; its start-up handshake (Sandbox, claim C29) is a retry
  loop modelled as a partial function over the delays of the replies.

  The theories, in import order:
  \<^item> Prelude: the error datatype (one constructor per error kind of the
    specification), \<open>'a result = error + 'a\<close> for rejected or resolved
    promises, and JavaScript's \<^verbatim>\<open>Map\<close> as an insertion-ordered
    association list (\<open>jm_set\<close>, \<open>jm_delete\<close>) with its lemmas.
  \<^item> Script: the \<^verbatim>\<open>Script\<close>/\<^verbatim>\<open>ScriptRunResouce\<close> record (one record, the
    built fields optional, since the code mutates one object) and
    \<open>buildScriptRunResource\<close> (runtime.ts 595--621) with the stores and the
    code compiler as the fields of \<open>ext\<close>. Claim C34.
  \<^item> Match: the two matchers, modelled from the specification because
    pkg/utils/match.ts is not in the sources; \<open>glob_lang_correct\<close> shows the
    executable glob matcher equal to its language.
  \<^item> Runtime: \<open>rt_state\<close> is the matchers, the RPCs sent and the log;
    \<open>loadPageScript\<close>, \<open>enable\<close>, \<open>disable\<close>, \<open>scriptUpdate\<close>,
    \<open>scriptDelete\<close>, the background loaders, \<open>matchUrl\<close> and the
    start/stop message handlers are the methods of the same names;
    \<open>rt_reachable\<close> is the transition system of the hook listeners.
    \<open>empty_rt\<close> is the pair of fresh matchers of the constructor.
    Claims C1--C7 and C35.
  \<^item> Menu: \<^verbatim>\<open>scriptMenu\<close> as nested Maps, the \<^verbatim>\<open>registerMenu\<close> and
    \<^verbatim>\<open>unregisterMenu\<close> listeners and tab activation (runtime.ts 157--235),
    with the scan loop as a terminating \<open>function\<close>. Claims C8--C10
    and C12.
  \<^item> PageLoad: the \<^verbatim>\<open>pageLoad\<close> handler (runtime.ts 324--422) with the
    injections it asks the browser for and the badge update as two queued
    steps (browser answer, callback), so that interleavings are runs.
    \<open>injected_source\<close> is the \<^verbatim>\<open>inject.js\<close> bootstrap (lines 145--156),
    empty until its fetch resolves. Claims C13--C15, C17 and C18.
  \<^item> Events: the handlers of event.ts and the hook bus as one step relation
    \<open>sys_step\<close> on \<open>sys_state\<close> (script table, runtime state,
    \<^verbatim>\<open>runBackScript\<close>, run-status watchers); a hook runs its listeners in
    registration order and does not await them; \<open>fetchInfoHandler\<close> and
    \<open>checkUpdateHandler\<close> read a cache and pass on the script manager's
    answer; \<open>dispatch\<close> is the decorator registry that maps a call of a
    \<^verbatim>\<open>ScriptEvent\<close> to its handler, and \<open>sys_step_dispatch\<close> shows
    the handler steps are exactly its state-changing calls and the
    runtime's own messages. Claims C21--C23, C25, C26 and C36.
  \<^item> Async: the same handlers with the one await that matters made
    explicit. \<^verbatim>\<open>Runtime.enable\<close> suspends at
    \<^verbatim>\<open>await this.buildScriptRunResource\<close> (runtime.ts 487), while
    \<^verbatim>\<open>disable\<close> sends or re-indexes at once; \<open>async_state\<close> adds the
    queue of suspended enables, \<open>build_done k\<close> completes any one of them,
    and \<open>async_step\<close> interleaves the handlers with those completions.
    Completing each enable right after its handler gives back the handlers
    of Events (\<open>a_enableHandler_sequential\<close>), so every run of Events
    is a run of this model (\<open>atomic_runs_are_async_runs\<close>), and every
    reachable state keeps the runtime's invariant
    (\<open>async_reachable_inv\<close>). Claims C16, C24 and C27.
  \<^item> Agreement: how far the page index follows the script table.
    \<open>mirrors\<close> says every indexed object is a page script of the table
    with its row's status, and \<open>covers\<close> that every enabled page script
    of the table has an entry for each compiled \<^verbatim>\<open>@match\<close> rule of its
    merged metadata, and exclusions only from its \<^verbatim>\<open>@exclude\<close> rules.
    \<open>good_step\<close> is the steps of Async in which saves and builds
    succeed, nothing is deleted, no upsert changes a script's type and no
    handler acts on a script whose enable waits for its build
    (\<open>pending\<close>); builds complete in any order and other handlers run
    in between. \<open>async_ok V\<close> says the index mirrors and covers the
    table \<open>V\<close> it was last built from, which is the script table except
    at the pending scripts, and \<open>good_reachable_ok\<close> shows by rule
    induction that every reachable state has such a table. Claims C11
    and C30.
  \<^item> Sandbox: the handshake of sandbox.ts as \<open>partial_function (option)\<close>;
    \<open>None\<close> is a loop that never stops. Claim C29.
  \<^item> Query: the popup's \<^verbatim>\<open>queryPageScript\<close> (runtime.ts 263--322), a
    read-only function of the matchers, the menu registry and the cache.
    Claim C31.
  \<^item> this theory: properties across components, C19, C20, C28, C32, C33.

  How effects are modelled. Every operation takes the state and returns the
  new state with its promise's outcome (\<open>result\<close>, or \<open>outcome\<close> where a
  promise may never settle, \<open>Pending\<close>, or \<open>option\<close> for the page-load
  handler). The answers of the world for one step (store reads and writes,
  the sandbox's RPC reply, the random flag, the clock) are arguments, so each
  theorem holds for every answer unless it says which. An asynchronous
  listener is applied when its hook fires, except the enable of the runtime
  listener, whose build the Async theory lets other handlers overtake; the
  badge read-modify-write is likewise split into steps. All loops but one are structural folds or terminating functions;
  the handshake loop is unbounded by design, so it is a partial function and
  its theorems say exactly when it returns (termination, C29). The menu
  scan's \<open>function\<close> terminates by the measure \<open>length arr - i\<close>.

  What the lemmas show.
  \<^item> Resource compiler (C34) and lifecycle (C1--C7, C35): re-enabling is
    idempotent on the index; store failures reject and leave the state
    alone; background RPCs are sent once; only page scripts are ever indexed
    (an invariant of \<open>rt_reachable\<close>); deleting or disabling a page
    script re-indexes it; starting a background script does not wait for
    the sandbox; \<open>matchUrl\<close> answers each script once.
  \<^item> Menus (C8--C10, C12, C31): first registration wins, the scan loop throws
    for a second menu, unregistering drops the owner's whole map, reachable
    registries have one entry per script and owner, and a registered menu
    shows in the popup.
  \<^item> Page load (C13--C15, C17--C20, C28): what is injected, once each,
    in what order and at what timing; when the promise settles; the lost badge update;
    a deleted script is still injected and a disabled one is not; in every
    reachable system state only enabled page scripts are injected; one load
    injects one more script than it answers with.
  \<^item> Handlers and cache (C21--C23, C25, C26, C32, C33): the cache records
    unstarted and deleted scripts and the popup shows them; deleting a
    missing id never settles; the start-up loop; watcher clean-up;
    a script without \<^verbatim>\<open>@version\<close> can be neither saved nor deleted (C36).
  \<^item> Interleavings (C16, C24, C27): enabling a script and disabling it
    before the enable's build has finished leaves a page script injected
    and a background script running in the sandbox, although the store
    holds it disabled; every run of the atomic handlers is a run of the
    interleaved ones in which each build completes at once (refinement,
    C24).
  \<^item> Index and table (C11, C30): on every interleaved run without
    failures, deletes, changes of type and handlers that overtake a
    waiting enable of their script, a page load injects what the table
    says: only scripts it holds enabled, and every enabled page script
    whose enable is not waiting and a rule of which covers the URL
    (soundness and completeness of the index); the excluded events each
    break this (C16, C19, C21, C30), and turning a page script into a
    background script leaves its page entries indexed, so pages keep
    getting the old code.
  \<^item> Handshake (C29): the loop stops exactly when a reply arrives
    within 1000 ms of its own send, so late replies never stop it.

  Not modelled: the scripts' execution in the sandbox
  (src/runtime/content/sandbox, not in the sources); the constructor's and
  sandbox.ts's wiring of logger and IoC container; the badge colour call,
  a constant side effect; the transport
  (\<^verbatim>\<open>Message\<close>, channels), the stores, the logger and the code compiler,
  which are external and appear only through their answers; the
  result cache of the matchers and regular-expression includes.
\<close>

section \<open>Properties across the runtime and the page-load handler\<close>

text \<open>
  C19. A deleted page script keeps running: after \<open>scriptDelete\<close> of an
  enabled page script whose \<^verbatim>\<open>@match\<close> rule covers a URL, the next page
  load of that URL still answers with the script and injects its code,
  because the delete listener disables the script after unindexing it and
  disabling a page script indexes it again (runtime.ts 474--482, 495--500,
  541--543, 336--401).
\<close>

theorem deleted_page_script_injected:
  assumes "stype s = SCRIPT_TYPE_NORMAL" and "status s = SCRIPT_STATUS_ENABLE"
    and "r \<in> set (meta_list (metadata s) ''match'')" and "parse_match_rule r = Inr p"
    and "match_sat p u" and "meta_list (metadata s) ''exclude'' = []"
    and "metadata s ''noframes'' = None"
    and "url sd = Some u" and "u \<noteq> []" and "tabId sd = Some t" and "0 < t"
  shows "\<exists>res ps'. pageLoad f src (Some sd) (snd (scriptDelete ex ans s st)) ps = Some (res, ps') \<and>
           script_injection t (frameId sd) (compiled_page_script ex s) \<in> set (injections ps')"
proof -
  have "\<exists>res ps'. pageLoad f src (Some sd) (snd (loadPageScript ex s st)) ps = Some (res, ps') \<and>
      compiled_page_script ex s \<in> set (resp_scripts res) \<and>
      script_injection t (frameId sd) (compiled_page_script ex s) \<in> set (injections ps')"
    using assms(3-6,2,7-11) by (rule pageLoad_injects_loaded)
  then show ?thesis by (auto simp: scriptDelete_page_enabled_eq [OF assms(1,2)])
qed

theorem deleted_page_script_injected_witness:
  "\<exists>res ps'. pageLoad ''flag'' ''boot'' (Some (top_sender 5 ''https://a.test/x''))
      (snd (scriptDelete ext_ok (Inr ()) (page_script 1 [''*://a.test/*'']) empty_rt)) empty_page =
      Some (res, ps') \<and>
      script_injection 5 None (compiled_page_script ext_ok (page_script 1 [''*://a.test/*''])) \<in> set (injections ps')"
proof -
  have h: "stype (page_script 1 [''*://a.test/*'']) = SCRIPT_TYPE_NORMAL"
    "status (page_script 1 [''*://a.test/*'']) = SCRIPT_STATUS_ENABLE"
    "''*://a.test/*'' \<in> set (meta_list (metadata (page_script 1 [''*://a.test/*''])) ''match'')"
    "parse_match_rule ''*://a.test/*'' = Inr pat_a"
    "match_sat pat_a ''https://a.test/x''"
    "meta_list (metadata (page_script 1 [''*://a.test/*''])) ''exclude'' = []"
    "metadata (page_script 1 [''*://a.test/*'']) ''noframes'' = None"
    "url (top_sender 5 ''https://a.test/x'') = Some ''https://a.test/x''"
    "''https://a.test/x'' \<noteq> []" "tabId (top_sender 5 ''https://a.test/x'') = Some 5" "0 < (5::nat)"
    by (simp_all add: page_script_def meta_list_def pat_a_def parse_match_rule_def
        parse_scheme_def parse_host_def match_sat_def parse_url_def)
  from deleted_page_script_injected [OF h, of "''flag''" "''boot''" ext_ok "Inr ()" empty_rt empty_page]
  show ?thesis by simp
qed

text \<open>
  C20. Disabling a page script takes effect at the next page load although
  the script stays indexed: the page-load filter drops it because its
  status is not enabled, and the re-index replaced every older object of
  its id.
\<close>

theorem disabled_page_script_not_injected:
  assumes "stype s = SCRIPT_TYPE_NORMAL" and "status s = SCRIPT_STATUS_DISABLE"
    and "pageLoad f src (Some sd) (snd (scriptUpdate ex fl ans s st)) ps = Some (res, ps')"
  shows "sid s \<notin> sid ` set (resp_scripts res)"
proof
  assume "sid s \<in> sid ` set (resp_scripts res)"
  then obtain x where x: "x \<in> set (resp_scripts res)" and xs: "sid x = sid s" by auto
  have up: "scriptUpdate ex fl ans s st = loadPageScript ex s st"
    using assms(1,2) by (rule scriptUpdate_disabled_page_eq)
  obtain u t where "resp_scripts res = matchUrl (page_filter sd) u (snd (loadPageScript ex s st))"
    using assms(3) unfolding up by (rule pageLoad_resp)
  with x have "x \<in> set (matchUrl (page_filter sd) u (snd (loadPageScript ex s st)))" by simp
  then have "x = compiled_page_script ex s \<and> \<not> page_filter sd x"
    using xs by (rule loadPageScript_matchUrl_sid)
  with assms(2) show False by (auto simp: page_filter_def)
qed

theorem disabled_page_script_not_injected_witness:
  "\<exists>res ps'. pageLoad ''flag'' ''boot'' (Some (top_sender 5 ''https://a.test/x''))
      (snd (scriptUpdate ext_ok ''flag'' (Inr ())
        ((page_script 1 [''*://a.test/*''])\<lparr>status := SCRIPT_STATUS_DISABLE\<rparr>) empty_rt)) empty_page =
      Some (res, ps') \<and> 1 \<notin> sid ` set (resp_scripts res)"
proof -
  let ?s = "(page_script 1 [''*://a.test/*''])\<lparr>status := SCRIPT_STATUS_DISABLE\<rparr>"
  let ?st = "snd (scriptUpdate ext_ok ''flag'' (Inr ()) ?s empty_rt)"
  have "pageLoad ''flag'' ''boot'' (Some (top_sender 5 ''https://a.test/x'')) ?st empty_page \<noteq> None"
    by (simp add: pageLoad_None_iff)
  then obtain res ps' where e: "pageLoad ''flag'' ''boot'' (Some (top_sender 5 ''https://a.test/x'')) ?st empty_page =
      Some (res, ps')" by (metis option.exhaust prod.exhaust)
  have "sid ?s \<notin> sid ` set (resp_scripts res)"
    by (rule disabled_page_script_not_injected [OF _ _ e]) (simp_all add: page_script_def)
  with e show ?thesis by (auto simp: page_script_def)
qed

section \<open>Properties of the whole background page\<close>

text \<open>
  C28. In every state the event handlers and the run-status messages reach
  from a fresh installation, the page-load handler answers with and injects
  enabled page scripts only: each handler step is a step of the runtime's
  hook listeners (\<open>sys_step_rt\<close>), so the runtime state is
  reachable in the runtime's own transition system, whose index holds page
  scripts only, and the page-load filter drops what is not enabled.
\<close>

theorem sys_pageLoad_injects_enabled_page_scripts:
  assumes "sys_reachable S" and "pageLoad f src (Some sd) (rts S) ps = Some (r, ps')"
  shows "\<forall>x \<in> set (resp_scripts r). stype x = SCRIPT_TYPE_NORMAL \<and> status x = SCRIPT_STATUS_ENABLE"
proof
  fix x assume x: "x \<in> set (resp_scripts r)"
  obtain u t where "resp_scripts r = matchUrl (page_filter sd) u (rts S)"
    using assms(2) by (rule pageLoad_resp)
  with x have m: "x \<in> set (matchUrl (page_filter sd) u (rts S))" by simp
  have "page_only (rts S)" using sys_reachable_rt_reachable [OF assms(1)] by (rule rt_reachable_page_only)
  then have "stype x = SCRIPT_TYPE_NORMAL" using m by (rule page_only_matchUrl)
  moreover have "status x = SCRIPT_STATUS_ENABLE" using matchUrl_page_filter [OF m] by blast
  ultimately show "stype x = SCRIPT_TYPE_NORMAL \<and> status x = SCRIPT_STATUS_ENABLE" by blast
qed

theorem sys_pageLoad_injects_enabled_page_scripts_witness:
  "\<exists>r ps'. pageLoad ''flag'' ''boot'' (Some (top_sender 5 ''https://a.test/x''))
      (rts (snd (upsertHandler env_ok versioned_page empty_sys))) empty_page = Some (r, ps') \<and>
    length (resp_scripts r) = 1 \<and>
    filter (\<lambda>x. stype x \<noteq> SCRIPT_TYPE_NORMAL \<or> status x \<noteq> SCRIPT_STATUS_ENABLE) (resp_scripts r) = []"
proof -
  let ?S = "snd (upsertHandler env_ok versioned_page empty_sys)"
  have reach: "sys_reachable ?S"
    by (rule sys_reachable.step [OF sys_reachable.init sys_step.upsert])
  have "pageLoad ''flag'' ''boot'' (Some (top_sender 5 ''https://a.test/x'')) (rts ?S) empty_page \<noteq> None"
    by (simp add: pageLoad_None_iff)
  then obtain r ps' where e: "pageLoad ''flag'' ''boot'' (Some (top_sender 5 ''https://a.test/x''))
      (rts ?S) empty_page = Some (r, ps')" by (metis option.exhaust prod.exhaust)
  have "map sid (matchUrl (page_filter (top_sender 5 ''https://a.test/x'')) ''https://a.test/x'' (rts ?S)) = [1]"
    by (simp add: upsertHandler_def versioned_page_def env_ok_def empty_sys_def rt_eval_simps ext_ok_def
        page_script_def page_filter_def)
  then have len: "length (resp_scripts r) = 1"
    using e by (auto simp: pageLoad_Some_iff dest: arg_cong [where f = length])
  have "\<forall>x \<in> set (resp_scripts r). stype x = SCRIPT_TYPE_NORMAL \<and> status x = SCRIPT_STATUS_ENABLE"
    by (rule sys_pageLoad_injects_enabled_page_scripts [OF reach e])
  then have "filter (\<lambda>x. stype x \<noteq> SCRIPT_TYPE_NORMAL \<or> status x \<noteq> SCRIPT_STATUS_ENABLE) (resp_scripts r) = []"
    by (simp add: filter_empty_conv)
  with e len show ?thesis by blast
qed
text \<open>
  C32. The popup keeps listing a deleted background script: after the delete
  handler removes a cached background script's row, the popup's background
  list still shows it, with the run status the cache last recorded.
\<close>

theorem deleted_background_listed:
  assumes "store S i = Some s" and "sid s = i" and "metadata s ''version'' \<noteq> None"
    and "env_save ev = Inr ()" and "(i, c) \<in> set (runBackScript S)"
  shows "fst (deleteHandler ev i S) = Resolved 1 \<and> store (snd (deleteHandler ev i S)) i = None \<and>
         script_entry (runStatus c) (script_menus (scriptMenu ms) (Ctx ''sandbox'') (sid c)) c
           \<in> set (backScriptList (sys_query u t (snd (deleteHandler ev i S)) ms))"
proof -
  have d: "deleteHandler ev i S = (Resolved 1, hook_delete ev s (S\<lparr>store := (store S)(i := None)\<rparr>))"
    using assms(1-4) by (simp add: deleteHandler_def)
  have "store (snd (deleteHandler ev i S)) i = None" by (simp add: d hook_delete_def)
  moreover have "script_entry (runStatus c) (script_menus (scriptMenu ms) (Ctx ''sandbox'') (sid c)) c
      \<in> set (backScriptList (sys_query u t (snd (deleteHandler ev i S)) ms))"
    using assms(5) by (force simp: sys_query_def queryPageScript_def)
  ultimately show ?thesis by (simp add: d)
qed

theorem deleted_background_listed_witness:
  "fst (deleteHandler env_values_down 7 cached_sys) = Resolved 1 \<and>
   store (snd (deleteHandler env_values_down 7 cached_sys)) 7 = None \<and>
   map sm_id (backScriptList (sys_query ''https://a.test/x'' 5 (snd (deleteHandler env_values_down 7 cached_sys))
     empty_menus)) = [7]"
proof -
  let ?s = "(background_script 7)\<lparr>metadata := [''version'' \<mapsto> [''1'']]\<rparr>"
  have h: "store cached_sys 7 = Some ?s" "sid ?s = 7" "metadata ?s ''version'' \<noteq> None"
    "env_save env_values_down = Inr ()" "(7, background_script 7) \<in> set (runBackScript cached_sys)"
    by (simp_all add: cached_sys_def empty_sys_def background_script_def page_script_def env_values_down_def)
  note r = deleted_background_listed [OF h, of empty_menus "''https://a.test/x''" 5]
  have "map sm_id (backScriptList (sys_query ''https://a.test/x'' 5 (snd (deleteHandler env_values_down 7 cached_sys))
     empty_menus)) = [7]"
    by (simp add: sys_query_def queryPageScript_def cached_sys_def empty_sys_def background_script_def
        page_script_def)
  with r show ?thesis by simp
qed


text \<open>
  C33. The popup lists a disabled page script on the pages it matches, marked
  not enabled, because disabling a page script re-indexes it (C7); this is
  how the user can enable it again from the popup.
\<close>

theorem disabled_page_listed:
  assumes "stype s = SCRIPT_TYPE_NORMAL" and "status s = SCRIPT_STATUS_DISABLE"
    and "r \<in> set (meta_list (metadata s) ''match'')" and "parse_match_rule r = Inr p"
    and "match_sat p u" and "meta_list (metadata s) ''exclude'' = []"
  shows "\<exists>x \<in> set (scriptList (queryPageScript u t (snd (scriptUpdate ex fl ans s st)) back sm)).
           sm_id x = sid s \<and> \<not> sm_enable x"
proof -
  obtain c where c: "c \<in> set (matchUrl (\<lambda>_. False) u (snd (loadPageScript ex s st)))"
    and "sid c = sid s" "status c = status s"
    using loadPageScript_matched [OF assms(3-6)] by blast
  have "script_entry None (script_menus sm (Tab t) (sid c)) c
      \<in> set (scriptList (queryPageScript u t (snd (scriptUpdate ex fl ans s st)) back sm))"
    using imageI [OF c, of "\<lambda>s. script_entry None (script_menus sm (Tab t) (sid s)) s"]
    by (simp add: queryPageScript_def scriptUpdate_disabled_page_eq [OF assms(1,2)])
  then show ?thesis using \<open>sid c = sid s\<close> \<open>status c = status s\<close> assms(2) by force
qed

theorem disabled_page_listed_witness:
  "\<exists>x \<in> set (scriptList (queryPageScript ''https://a.test/x'' 5
        (snd (scriptUpdate ext_ok ''flag'' (Inr ()) ((page_script 1 [''*://a.test/*''])\<lparr>status := SCRIPT_STATUS_DISABLE\<rparr>)
           empty_rt)) [] [])).
     sm_id x = 1 \<and> \<not> sm_enable x"
proof -
  let ?s = "(page_script 1 [''*://a.test/*''])\<lparr>status := SCRIPT_STATUS_DISABLE\<rparr>"
  have h: "stype ?s = SCRIPT_TYPE_NORMAL" "status ?s = SCRIPT_STATUS_DISABLE"
    "''*://a.test/*'' \<in> set (meta_list (metadata ?s) ''match'')"
    "parse_match_rule ''*://a.test/*'' = Inr pat_a"
    "match_sat pat_a ''https://a.test/x''"
    "meta_list (metadata ?s) ''exclude'' = []"
    by (simp_all add: page_script_def meta_list_def pat_a_def parse_match_rule_def
        parse_scheme_def parse_host_def match_sat_def parse_url_def)
  from disabled_page_listed [OF h, of 5 ext_ok "''flag''" "Inr ()" empty_rt "[]" "[]"]
  show ?thesis by (simp add: page_script_def)
qed

end
